(* ===== verification/Rust_Prelude.thy ===== *)
theory Rust_Prelude
  imports Main "HOL-Library.Word" "HOL-Library.AList" "HOL-Library.Sublist"
begin

text \<open>
  Shared vocabulary of the development: the Rust types and standard library operations that
  the modelled crates use, and the lemmas about them that several components need.

  \<^item> \<open>String\<close> is \<^typ>\<open>string\<close>, a list of bytes. The text operations with a case table
    (\<open>to_lowercase\<close>, \<open>is_alphabetic\<close>, \<open>is_whitespace\<close>) are modelled on ASCII, so positions
    and lengths, which Rust counts in bytes, agree with positions in the list.
  \<^item> \<open>HashMap<String, V>\<close> is an association list with distinct keys: \<open>get\<close> is \<^const>\<open>map_of\<close>
    and \<open>insert\<close> is \<^const>\<open>AList.update\<close>. Rust leaves the iteration order open; the list
    fixes some order.
  \<^item> \<open>Result<T, E>\<close> is the sum \<open>'e + 't\<close> with \<open>Inl\<close> for \<open>Err\<close>; \<open>Option<T>\<close> is \<open>'t option\<close>.
  \<^item> \<open>Instant\<close>, \<open>DateTime\<close> and \<open>Duration\<close> are natural numbers of nanoseconds.
\<close>

named_theorems model_defs \<open>definitions of small operations that component proofs unfold\<close>
named_theorems preserves \<open>one-step preservation facts of the components' invariants\<close>

type_synonym u8 = "8 word"
type_synonym u64 = "64 word"
type_synonym instant = nat
type_synonym 'v hashmap = "(string \<times> 'v) list"

subsection \<open>Results\<close>

fun result_bind :: "'e + 'a \<Rightarrow> ('a \<Rightarrow> 'e + 'b) \<Rightarrow> 'e + 'b" where
  "result_bind (Inl e) f = Inl e"
| "result_bind (Inr a) f = f a"

fun result_map :: "('a \<Rightarrow> 'b) \<Rightarrow> 'e + 'a \<Rightarrow> 'e + 'b" where
  "result_map f (Inl e) = Inl e"
| "result_map f (Inr a) = Inr (f a)"

fun map_err :: "('e \<Rightarrow> 'f) \<Rightarrow> 'e + 'a \<Rightarrow> 'f + 'a" where
  "map_err f (Inl e) = Inl (f e)"
| "map_err f (Inr a) = Inr a"

fun ok_or :: "'e \<Rightarrow> 'a option \<Rightarrow> 'e + 'a" where
  "ok_or e None = Inl e"
| "ok_or e (Some a) = Inr a"

fun is_ok :: "'e + 'a \<Rightarrow> bool" where
  "is_ok (Inl e) = False"
| "is_ok (Inr a) = True"

lemma result_bind_Inr_iff:
  "result_bind r f = Inr b \<longleftrightarrow> (\<exists>a. r = Inr a \<and> f a = Inr b)"
  by (cases r) auto

lemma result_bind_Inl_iff:
  "result_bind r f = Inl e \<longleftrightarrow> r = Inl e \<or> (\<exists>a. r = Inr a \<and> f a = Inl e)"
  by (cases r) auto

lemma map_err_Inr_iff [simp]: "map_err f r = Inr a \<longleftrightarrow> r = Inr a"
  by (cases r) auto

lemma ok_or_Inr_iff [simp]: "ok_or e x = Inr a \<longleftrightarrow> x = Some a"
  by (cases x) auto

lemma ok_or_Inl_iff [simp]: "ok_or e x = Inl e' \<longleftrightarrow> x = None \<and> e' = e"
  by (cases x) auto

lemma result_bind_cong [fundef_cong]:
  "r = r' \<Longrightarrow> (\<And>a. r' = Inr a \<Longrightarrow> f a = f' a) \<Longrightarrow> result_bind r f = result_bind r' f'"
  by (cases r') auto

text \<open>Normalising chains of \<open>map\<close> and \<open>and_then\<close>.\<close>

lemma result_map_comp: "result_map f (result_map g r) = result_map (\<lambda>a. f (g a)) r"
  by (cases r) auto

lemma result_map_bind: "result_map f (result_bind r g) = result_bind r (\<lambda>a. result_map f (g a))"
  by (cases r) auto

lemma result_bind_map: "result_bind (result_map f r) g = result_bind r (\<lambda>a. g (f a))"
  by (cases r) auto

lemma result_bind_bind: "result_bind (result_bind r f) g = result_bind r (\<lambda>a. result_bind (f a) g)"
  by (cases r) auto

lemma result_bind_Inr: "result_bind r (\<lambda>a. Inr (f a)) = result_map f r"
  by (cases r) auto

lemmas result_norm = result_map_comp result_map_bind result_bind_map result_bind_bind result_bind_Inr

subsection \<open>Vec\<close>

text \<open>\<open>iter().map(f).collect::<Result<Vec<_>, _>>()\<close>: the first error stops the collection.\<close>

fun collect_results :: "('a \<Rightarrow> 'e + 'b) \<Rightarrow> 'a list \<Rightarrow> 'e + 'b list" where
  "collect_results f [] = Inr []"
| "collect_results f (x # xs) =
     result_bind (f x) (\<lambda>y. result_map (\<lambda>ys. y # ys) (collect_results f xs))"

lemma result_map_Inr_iff [simp]: "result_map f r = Inr b \<longleftrightarrow> (\<exists>a. r = Inr a \<and> b = f a)"
  by (cases r) auto

lemma collect_results_length: "collect_results f xs = Inr ys \<Longrightarrow> length ys = length xs"
  by (induction xs arbitrary: ys) (auto simp: result_bind_Inr_iff)

lemma collect_results_cong [fundef_cong]:
  "xs = ys \<Longrightarrow> (\<And>x. x \<in> set ys \<Longrightarrow> f x = g x) \<Longrightarrow> collect_results f xs = collect_results g ys"
  by (induction ys arbitrary: xs) auto

text \<open>\<open>iter_mut().find(p)\<close> followed by an update of the element found: only the first hit changes.\<close>

fun update_first :: "('a \<Rightarrow> bool) \<Rightarrow> ('a \<Rightarrow> 'a) \<Rightarrow> 'a list \<Rightarrow> 'a list" where
  "update_first p f [] = []"
| "update_first p f (x # xs) = (if p x then f x # xs else x # update_first p f xs)"

lemma length_update_first [simp]: "length (update_first p f xs) = length xs"
  by (induction xs) auto

lemma map_update_first_id:
  "(\<And>x. g (f x) = g x) \<Longrightarrow> map g (update_first p f xs) = map g xs"
  by (induction xs) auto

lemma find_update_first:
  "find p xs = Some x \<Longrightarrow> (\<And>y. p (f y) = p y) \<Longrightarrow> find p (update_first p f xs) = Some (f x)"
  by (induction xs) (auto split: if_splits)

lemma find_update_first_other:
  "(\<And>y. q (f y) = q y) \<Longrightarrow> (\<And>y. p y \<Longrightarrow> \<not> q y) \<Longrightarrow>
   find q (update_first p f xs) = find q xs"
  by (induction xs) auto

lemma update_first_none: "find p xs = None \<Longrightarrow> update_first p f xs = xs"
  by (induction xs) (auto split: if_splits)

end
