(* ===== verification/Float64.thy ===== *)
theory Float64
  imports Rust_Prelude
begin

text \<open>
  The part of IEEE 754 binary64 that the decision DSL computes with: \<open>f64\<close> values are their bit
  patterns. A pattern that is not a NaN has an exact value, given here as an integer number of
  units of \<open>2\<^sup>-\<^sup>1\<^sup>0\<^sup>7\<^sup>4\<close> (the smallest subnormal); an infinity gets a magnitude above every finite one,
  which orders it correctly. Comparisons read these exact values. The conversion \<open>i64 as f64\<close>
  rounds to nearest, ties to even.
\<close>

type_synonym f64 = "64 word"

definition f64_exp :: "f64 \<Rightarrow> nat" where
  "f64_exp x = (unat x div 2 ^ 52) mod 2 ^ 11"

definition f64_frac :: "f64 \<Rightarrow> nat" where
  "f64_frac x = unat x mod 2 ^ 52"

definition f64_negative :: "f64 \<Rightarrow> bool" where
  "f64_negative x \<longleftrightarrow> 2 ^ 63 \<le> unat x"

definition f64_is_nan :: "f64 \<Rightarrow> bool" where
  "f64_is_nan x \<longleftrightarrow> f64_exp x = 2047 \<and> f64_frac x \<noteq> 0"

definition f64_is_infinite :: "f64 \<Rightarrow> bool" where
  "f64_is_infinite x \<longleftrightarrow> f64_exp x = 2047 \<and> f64_frac x = 0"

definition f64_magnitude :: "f64 \<Rightarrow> nat" where
  "f64_magnitude x =
     (if f64_exp x = 0 then f64_frac x else (2 ^ 52 + f64_frac x) * 2 ^ (f64_exp x - 1))"

definition f64_units :: "f64 \<Rightarrow> int" where
  "f64_units x = (if f64_negative x then - int (f64_magnitude x) else int (f64_magnitude x))"

definition f64_eq :: "f64 \<Rightarrow> f64 \<Rightarrow> bool" where
  "f64_eq x y \<longleftrightarrow> \<not> f64_is_nan x \<and> \<not> f64_is_nan y \<and> f64_units x = f64_units y"

definition f64_less :: "f64 \<Rightarrow> f64 \<Rightarrow> bool" where
  "f64_less x y \<longleftrightarrow> \<not> f64_is_nan x \<and> \<not> f64_is_nan y \<and> f64_units x < f64_units y"

definition f64_less_eq :: "f64 \<Rightarrow> f64 \<Rightarrow> bool" where
  "f64_less_eq x y \<longleftrightarrow> \<not> f64_is_nan x \<and> \<not> f64_is_nan y \<and> f64_units x \<le> f64_units y"

text \<open>
  \<open>(x - y).abs()\<close> against \<open>f64::EPSILON = 2\<^sup>-\<^sup>5\<^sup>2\<close>. The difference is NaN when an operand is, and
  when both are the same infinity. Otherwise the rounded difference is below \<open>2\<^sup>-\<^sup>5\<^sup>2\<close> exactly if the
  true difference is below the midpoint \<open>2\<^sup>-\<^sup>5\<^sup>2 - 2\<^sup>-\<^sup>1\<^sup>0\<^sup>6\<close> of \<open>2\<^sup>-\<^sup>5\<^sup>2\<close> and its predecessor (the
  midpoint itself rounds to the even \<open>2\<^sup>-\<^sup>5\<^sup>2\<close>).
\<close>

definition f64_diff_is_nan :: "f64 \<Rightarrow> f64 \<Rightarrow> bool" where
  "f64_diff_is_nan x y \<longleftrightarrow> f64_is_nan x \<or> f64_is_nan y \<or>
     f64_is_infinite x \<and> f64_is_infinite y \<and> f64_negative x = f64_negative y"

definition f64_epsilon_bound :: int where
  "f64_epsilon_bound = 2 ^ 1022 - 2 ^ 968"

definition f64_diff_below_eps :: "f64 \<Rightarrow> f64 \<Rightarrow> bool" where
  "f64_diff_below_eps x y \<longleftrightarrow>
     \<not> f64_diff_is_nan x y \<and> \<bar>f64_units x - f64_units y\<bar> < f64_epsilon_bound"

definition f64_diff_from_eps :: "f64 \<Rightarrow> f64 \<Rightarrow> bool" where
  "f64_diff_from_eps x y \<longleftrightarrow>
     \<not> f64_diff_is_nan x y \<and> \<bar>f64_units x - f64_units y\<bar> \<ge> f64_epsilon_bound"

subsection \<open>Conversion from integers\<close>

fun bit_len :: "nat \<Rightarrow> nat" where
  "bit_len n = (if n = 0 then 0 else Suc (bit_len (n div 2)))"

declare bit_len.simps [simp del]

definition round_half_even :: "nat \<Rightarrow> nat \<Rightarrow> nat" where
  "round_half_even n s =
     (let q = n div 2 ^ s; r = n mod 2 ^ s; half = 2 ^ (s - 1)
      in if s \<noteq> 0 \<and> (half < r \<or> half = r \<and> odd q) then Suc q else q)"

text \<open>\<open>n as f64\<close> of a positive integer: the significand has its leading one at bit 52.\<close>

definition f64_bits_of_nat :: "nat \<Rightarrow> nat" where
  "f64_bits_of_nat n =
     (if n = 0 then 0
      else let e = bit_len n - 1;
               q = (if e \<le> 52 then n * 2 ^ (52 - e) else round_half_even n (e - 52))
           in (e + 1023) * 2 ^ 52 + (q - 2 ^ 52))"

definition f64_of_i64 :: "int \<Rightarrow> f64" where
  "f64_of_i64 i =
     word_of_nat ((if i < 0 then 2 ^ 63 else 0) + f64_bits_of_nat (nat \<bar>i\<bar>))"

lemma f64_eq_refl_iff: "f64_eq x x \<longleftrightarrow> \<not> f64_is_nan x"
  by (simp add: f64_eq_def)

lemma f64_less_eq_iff: "f64_less_eq x y \<longleftrightarrow> f64_less x y \<or> f64_eq x y"
  by (auto simp: f64_less_eq_def f64_less_def f64_eq_def)

lemma f64_trichotomy:
  "\<not> f64_is_nan x \<Longrightarrow> \<not> f64_is_nan y \<Longrightarrow> f64_less x y \<or> f64_eq x y \<or> f64_less y x"
  by (auto simp: f64_less_def f64_eq_def)

lemma f64_epsilon_bound_pos: "0 < f64_epsilon_bound"
  by (simp add: f64_epsilon_bound_def)

lemma bit_len_bounds: "0 < n \<Longrightarrow> 2 ^ (bit_len n - 1) \<le> n \<and> n < 2 ^ bit_len n \<and> 0 < bit_len n"
proof (induction n rule: bit_len.induct)
  case (1 n)
  show ?case
  proof (cases "n div 2 = 0")
    case True
    with 1 have "n = 1" by simp
    then show ?thesis by (simp add: bit_len.simps [of "Suc 0"] bit_len.simps [of 0])
  next
    case False
    with 1 have ih: "2 ^ (bit_len (n div 2) - 1) \<le> n div 2" "n div 2 < 2 ^ bit_len (n div 2)"
        "0 < bit_len (n div 2)" by simp_all
    have b: "bit_len n = Suc (bit_len (n div 2))" using 1 by (subst bit_len.simps) simp
    obtain k where k: "bit_len (n div 2) = Suc k" using ih(3) by (cases "bit_len (n div 2)") auto
    from ih k have "2 ^ k \<le> n div 2" "n div 2 < 2 ^ Suc k" by simp_all
    moreover define p :: nat where "p = 2 ^ k"
    ultimately have "p \<le> n div 2" "n div 2 < 2 * p" by simp_all
    then have "2 * p \<le> n" "n < 4 * p" by presburger+
    then show ?thesis unfolding b k p_def by simp
  qed
qed

text \<open>Integers below \<open>2\<^sup>5\<^sup>3\<close> are converted exactly.\<close>

lemma f64_of_nat_units:
  assumes "0 < n" "n < 2 ^ 53"
  shows "f64_bits_of_nat n = (bit_len n + 1022) * 2 ^ 52 + (n * 2 ^ (53 - bit_len n) - 2 ^ 52)"
    and "2 ^ 52 \<le> n * 2 ^ (53 - bit_len n)" and "n * 2 ^ (53 - bit_len n) < 2 ^ 53"
    and "1 \<le> bit_len n" and "bit_len n \<le> 53"
proof -
  note b = bit_len_bounds [OF assms(1)]
  show l1: "1 \<le> bit_len n" using b by simp
  have "(2::nat) ^ (bit_len n - 1) < 2 ^ 53" using b assms(2) by linarith
  then show l2: "bit_len n \<le> 53" by (subst (asm) power_strict_increasing_iff) auto
  have "(2::nat) ^ 52 = 2 ^ (bit_len n - 1) * 2 ^ (53 - bit_len n)"
    using l1 l2 by (simp flip: power_add)
  also have "\<dots> \<le> n * 2 ^ (53 - bit_len n)" using b by simp
  finally show "2 ^ 52 \<le> n * 2 ^ (53 - bit_len n)" .
  have "n * 2 ^ (53 - bit_len n) < 2 ^ bit_len n * 2 ^ (53 - bit_len n)" using b by simp
  also have "\<dots> = 2 ^ 53" using l2 by (simp flip: power_add)
  finally show "n * 2 ^ (53 - bit_len n) < 2 ^ 53" .
  show "f64_bits_of_nat n = (bit_len n + 1022) * 2 ^ 52 + (n * 2 ^ (53 - bit_len n) - 2 ^ 52)"
  proof -
    obtain k where k: "bit_len n = Suc k" "k \<le> 52" using l1 l2 by (cases "bit_len n") auto
    then show ?thesis using assms by (simp add: f64_bits_of_nat_def Let_def)
  qed
qed

lemma f64_of_i64_exact:
  assumes "\<bar>i\<bar> < 2 ^ 53"
  shows "f64_units (f64_of_i64 i) = i * 2 ^ 1074"
proof (cases "i = 0")
  case True
  then show ?thesis
    by (simp add: f64_of_i64_def f64_bits_of_nat_def f64_units_def f64_magnitude_def f64_exp_def
        f64_frac_def)
next
  case False
  define n where "n = nat \<bar>i\<bar>"
  define m where "m = n * 2 ^ (53 - bit_len n)"
  define k where "k = bit_len n"
  have n: "0 < n" "n < 2 ^ 53" using assms False by (simp_all add: n_def)
  note u = f64_of_nat_units [OF n, folded m_def k_def]
  define f where "f = m - 2 ^ 52"
  have f: "f < 2 ^ 52" "m = 2 ^ 52 + f" using u by (simp_all add: f_def)
  define s :: nat where "s = (if i < 0 then 1 else 0)"
  have bits: "f64_of_i64 i = word_of_nat (s * 2 ^ 63 + ((k + 1022) * 2 ^ 52 + f))"
    using u(1) by (simp add: f64_of_i64_def s_def n_def f_def)
  have sm: "s \<le> 1" by (simp add: s_def)
  have k: "1 \<le> k" "k \<le> 53" using u by simp_all
  have un: "unat (f64_of_i64 i) = s * 2 ^ 63 + ((k + 1022) * 2 ^ 52 + f)"
    unfolding bits unsigned_of_nat of_nat_id using sm k f(1)
    by (intro take_bit_nat_eq_self) (auto simp: s_def)
  have regroup: "s * 2 ^ 63 + ((k + 1022) * 2 ^ 52 + f) = (s * 2 ^ 11 + (k + 1022)) * 2 ^ 52 + f"
    by simp
  have dm: "((a::nat) * 2 ^ 52 + f) div 2 ^ 52 = a" "(a * 2 ^ 52 + f) mod 2 ^ 52 = f" for a
    using f(1) by simp_all
  have ex: "f64_exp (f64_of_i64 i) = k + 1022"
    unfolding f64_exp_def un regroup dm using k by simp
  have fr: "f64_frac (f64_of_i64 i) = f"
    unfolding f64_frac_def un regroup dm by simp
  have ng: "f64_negative (f64_of_i64 i) \<longleftrightarrow> i < 0"
    unfolding f64_negative_def un using f(1) k by (auto simp: s_def)
  have "f64_magnitude (f64_of_i64 i) = m * 2 ^ (k + 1021)"
    using k by (simp add: f64_magnitude_def ex fr f)
  also have "\<dots> = n * 2 ^ 1074"
    using k by (simp add: m_def k_def flip: power_add)
  finally have "f64_magnitude (f64_of_i64 i) = n * 2 ^ 1074" .
  then have "f64_units (f64_of_i64 i) = (if i < 0 then - (int n * 2 ^ 1074) else int n * 2 ^ 1074)"
    unfolding f64_units_def ng by (simp add: of_nat_mult of_nat_power)
  then show ?thesis by (simp add: n_def)
qed

lemma f64_exp_not_max: "\<bar>f64_units x\<bar> < 2 ^ 52 * 2 ^ 2046 \<Longrightarrow> f64_exp x \<noteq> 2047"
proof
  assume u: "\<bar>f64_units x\<bar> < 2 ^ 52 * 2 ^ 2046" and e: "f64_exp x = 2047"
  have "f64_magnitude x = (2 ^ 52 + f64_frac x) * 2 ^ 2046" by (simp only: f64_magnitude_def e) simp
  moreover have "(2::nat) ^ 52 * 2 ^ 2046 \<le> (2 ^ 52 + f64_frac x) * 2 ^ 2046" by (intro mult_right_mono) simp_all
  ultimately have "2 ^ 52 * 2 ^ 2046 \<le> f64_magnitude x" by (simp only:)
  moreover have "\<bar>f64_units x\<bar> = int (f64_magnitude x)" by (simp add: f64_units_def)
  ultimately have "int (2 ^ 52 * 2 ^ 2046) \<le> \<bar>f64_units x\<bar>" by (simp only: zle_int)
  then have "(2::int) ^ 52 * 2 ^ 2046 \<le> \<bar>f64_units x\<bar>"
    by (simp only: of_nat_mult of_nat_power of_nat_numeral)
  from leD [OF this] u show False by (rule notE)
qed

lemma f64_of_i64_finite:
  assumes "\<bar>i\<bar> < 2 ^ 53"
  shows "\<not> f64_is_nan (f64_of_i64 i)" "\<not> f64_is_infinite (f64_of_i64 i)"
proof -
  have "\<bar>i * 2 ^ 1074\<bar> = \<bar>i\<bar> * 2 ^ 1074" by (simp only: abs_mult abs_power2 abs_numeral power_abs)
  also have "\<dots> < 2 ^ 53 * 2 ^ 1074" using assms by (intro mult_strict_right_mono) simp_all
  also have "\<dots> \<le> (2::int) ^ 52 * 2 ^ 2046" by (simp only: power_add [symmetric]) (intro power_increasing; simp)
  finally have "\<bar>f64_units (f64_of_i64 i)\<bar> < 2 ^ 52 * 2 ^ 2046" by (simp only: f64_of_i64_exact [OF assms])
  then have "f64_exp (f64_of_i64 i) \<noteq> 2047" by (rule f64_exp_not_max)
  then show "\<not> f64_is_nan (f64_of_i64 i)" "\<not> f64_is_infinite (f64_of_i64 i)"
    by (simp_all add: f64_is_nan_def f64_is_infinite_def)
qed

lemma f64_of_i64_compare:
  assumes "\<bar>i\<bar> < 2 ^ 53" "\<bar>j\<bar> < 2 ^ 53"
  shows "f64_less (f64_of_i64 i) (f64_of_i64 j) \<longleftrightarrow> i < j"
    and "f64_less_eq (f64_of_i64 i) (f64_of_i64 j) \<longleftrightarrow> i \<le> j"
    and "f64_diff_below_eps (f64_of_i64 i) (f64_of_i64 j) \<longleftrightarrow> i = j"
    and "f64_diff_from_eps (f64_of_i64 i) (f64_of_i64 j) \<longleftrightarrow> i \<noteq> j"
proof -
  note e = f64_of_i64_exact [OF assms(1)] f64_of_i64_exact [OF assms(2)]
  note f = f64_of_i64_finite [OF assms(1)] f64_of_i64_finite [OF assms(2)]
  have p: "(0::int) < 2 ^ 1074" by simp
  show "f64_less (f64_of_i64 i) (f64_of_i64 j) \<longleftrightarrow> i < j"
    by (simp only: f64_less_def f e mult_less_cancel_right_pos [OF p] simp_thms)
  show "f64_less_eq (f64_of_i64 i) (f64_of_i64 j) \<longleftrightarrow> i \<le> j"
    by (simp only: f64_less_eq_def f e mult_le_cancel_right_pos [OF p] simp_thms)
  have d: "\<not> f64_diff_is_nan (f64_of_i64 i) (f64_of_i64 j)" using f by (simp add: f64_diff_is_nan_def)
  have b: "\<bar>i * 2 ^ 1074 - j * 2 ^ 1074\<bar> < f64_epsilon_bound \<longleftrightarrow> i = j"
  proof
    assume l: "\<bar>i * 2 ^ 1074 - j * 2 ^ 1074\<bar> < f64_epsilon_bound"
    have "f64_epsilon_bound \<le> 2 ^ 1074"
      by (simp only: f64_epsilon_bound_def) simp
    with l have "\<bar>i - j\<bar> * 2 ^ 1074 < 1 * 2 ^ 1074"
      by (simp only: left_diff_distrib [symmetric] abs_mult abs_power2 abs_numeral power_abs mult_1)
    then have "\<bar>i - j\<bar> < 1" by (simp only: mult_less_cancel_right_pos [OF p])
    then show "i = j" by simp
  qed (simp add: f64_epsilon_bound_pos)
  show "f64_diff_below_eps (f64_of_i64 i) (f64_of_i64 j) \<longleftrightarrow> i = j"
    by (simp only: f64_diff_below_eps_def d e b simp_thms)
  show "f64_diff_from_eps (f64_of_i64 i) (f64_of_i64 j) \<longleftrightarrow> i \<noteq> j"
    by (simp only: f64_diff_from_eps_def d e b [symmetric] not_less simp_thms)
qed

end
