(* ===== verification/Agent_Types.thy ===== *)
theory Agent_Types
  imports Rust_Strings
begin

text \<open>
  The foundation crates \<open>agent/types\<close> and \<open>agent/toolkit\<close>: identifiers, the provider, role,
  status and runtime-mode enumerations with their operations, the backlog's item structs, and
  the tool-call vocabulary of the events. The newtypes \<open>AgentId\<close>, \<open>AgentCodename\<close> and
  \<open>TaskId\<close> are transparent wrappers of a string and keep their constructor.
\<close>

subsection \<open>Identifiers\<close>

datatype agent_id = AgentId (agent_id_str: string)
datatype agent_codename = AgentCodename (codename_str: string)
datatype task_id = TaskId (task_id_str: string)

subsection \<open>Provider kinds\<close>

datatype provider_kind = Mock | Claude | Codex | ACP | UnknownProvider

fun provider_label :: "provider_kind \<Rightarrow> string" where
  "provider_label Mock = ''mock''"
| "provider_label Claude = ''claude''"
| "provider_label Codex = ''codex''"
| "provider_label ACP = ''acp''"
| "provider_label UnknownProvider = ''unknown''"

fun provider_display_name :: "provider_kind \<Rightarrow> string" where
  "provider_display_name Mock = ''Mock''"
| "provider_display_name Claude = ''Claude''"
| "provider_display_name Codex = ''Codex''"
| "provider_display_name ACP = ''ACP''"
| "provider_display_name UnknownProvider = ''Unknown''"

fun provider_next :: "provider_kind \<Rightarrow> provider_kind" where
  "provider_next Mock = Claude"
| "provider_next Claude = Codex"
| "provider_next Codex = ACP"
| "provider_next ACP = UnknownProvider"
| "provider_next UnknownProvider = Mock"

definition provider_all :: "provider_kind list" where
  "provider_all = [Mock, Claude, Codex, ACP, UnknownProvider]"

lemma provider_all_complete: "p \<in> set provider_all"
  by (cases p) (simp_all add: provider_all_def)

lemma provider_label_inj: "provider_label p = provider_label q \<Longrightarrow> p = q"
  by (cases p; cases q) simp_all

lemma provider_next_orbit:
  "map (\<lambda>n. (provider_next ^^ n) Mock) [0, 1, 2, 3, 4] = provider_all"
  by (simp add: provider_all_def numeral_eq_Suc)

lemma provider_next_cycle: "(provider_next ^^ 5) p = p"
  by (cases p) (simp_all add: numeral_eq_Suc)

subsection \<open>Roles\<close>

datatype agent_role = ProductOwner | ScrumMaster | Developer

fun role_label :: "agent_role \<Rightarrow> string" where
  "role_label ProductOwner = ''PO''"
| "role_label ScrumMaster = ''SM''"
| "role_label Developer = ''DEV''"

fun role_name :: "agent_role \<Rightarrow> string" where
  "role_name ProductOwner = ''Product Owner''"
| "role_name ScrumMaster = ''Scrum Master''"
| "role_name Developer = ''Developer''"

fun default_skills :: "agent_role \<Rightarrow> string list" where
  "default_skills ProductOwner = [''requirements'', ''planning'']"
| "default_skills ScrumMaster = [''process'', ''standup'']"
| "default_skills Developer = [''coding'', ''testing'']"

definition is_skill_relevant :: "agent_role \<Rightarrow> string \<Rightarrow> bool" where
  "is_skill_relevant r skill = list_ex (\<lambda>s. str_contains skill s) (default_skills r)"

lemma default_skill_relevant: "s \<in> set (default_skills r) \<Longrightarrow> is_skill_relevant r s"
  by (auto simp: is_skill_relevant_def list_ex_iff str_contains_iff)

subsection \<open>Worker and item statuses\<close>

datatype worker_status = WorkerIdle | WorkerRunning | WorkerStopped

fun worker_status_label :: "worker_status \<Rightarrow> string" where
  "worker_status_label WorkerIdle = ''idle''"
| "worker_status_label WorkerRunning = ''running''"
| "worker_status_label WorkerStopped = ''stopped''"

datatype todo_status = TodoCandidate | TodoReady | TodoInProgress | TodoBlocked | TodoDone | TodoDropped

datatype task_status =
  TaskDraft | TaskReady | TaskRunning | TaskVerifying | TaskDone | TaskBlocked | TaskFailed

record todo_item =
  todo_id :: string
  todo_title :: string
  todo_description :: string
  todo_priority :: u8
  todo_status :: todo_status
  todo_acceptance_criteria :: "string list"
  todo_dependencies :: "string list"
  todo_source :: string

record task_item =
  ti_id :: string
  ti_todo_id :: string
  ti_objective :: string
  ti_scope :: string
  ti_constraints :: "string list"
  ti_verification_plan :: "string list"
  ti_status :: task_status
  ti_result_summary :: "string option"

subsection \<open>Runtime mode\<close>

datatype runtime_mode = SingleAgent | MultiAgent

datatype mode_transition = NoTransition | SingleToMulti | InvalidMode string

fun can_spawn_more :: "runtime_mode \<Rightarrow> nat \<Rightarrow> bool" where
  "can_spawn_more SingleAgent active = (active < 1)"
| "can_spawn_more MultiAgent active = True"

fun max_agents :: "runtime_mode \<Rightarrow> nat" where
  "max_agents SingleAgent = 1"
| "max_agents MultiAgent = 10"

text \<open>\<open>ModeHelper::transition_for_spawn\<close>: the transition and the mode left in \<open>*current_mode\<close>.\<close>

fun transition_for_spawn :: "runtime_mode \<Rightarrow> nat \<Rightarrow> mode_transition \<times> runtime_mode" where
  "transition_for_spawn SingleAgent n =
     (if n = 0 then (NoTransition, SingleAgent)
      else if n = 1 then (SingleToMulti, MultiAgent)
      else (InvalidMode ''Single-agent mode allows only 1 agent'', SingleAgent))"
| "transition_for_spawn MultiAgent n = (NoTransition, MultiAgent)"

definition needs_transition :: "runtime_mode \<Rightarrow> nat \<Rightarrow> bool" where
  "needs_transition m requested \<longleftrightarrow> m = SingleAgent \<and> requested > 1"

fun runtime_mode_debug :: "runtime_mode \<Rightarrow> string" where
  "runtime_mode_debug SingleAgent = ''SingleAgent''"
| "runtime_mode_debug MultiAgent = ''MultiAgent''"

definition validate_spawn :: "runtime_mode \<Rightarrow> nat \<Rightarrow> string + unit" where
  "validate_spawn m n =
     (if n \<ge> max_agents m then
        Inl (''Cannot spawn more agents: '' @ nat_to_string n @ '' already active, max ''
             @ nat_to_string (max_agents m) @ '' in '' @ runtime_mode_debug m @ '' mode'')
      else Inr ())"

text \<open>The mode after the transitions of \<open>k\<close> successive spawns, starting with no agent.\<close>

fun mode_after_spawns :: "nat \<Rightarrow> runtime_mode" where
  "mode_after_spawns 0 = SingleAgent"
| "mode_after_spawns (Suc k) = snd (transition_for_spawn (mode_after_spawns k) k)"

lemma mode_after_spawns_eq:
  "mode_after_spawns k = (if k \<le> 1 then SingleAgent else MultiAgent)"
  by (induction k) auto

lemma spawns_never_invalid:
  "fst (transition_for_spawn (mode_after_spawns k) k) \<noteq> InvalidMode r"
  by (auto simp: mode_after_spawns_eq)

subsection \<open>Tool-call vocabulary\<close>

datatype patch_change_kind = PatchAdd | PatchDelete | PatchUpdate

datatype patch_apply_status = PatchInProgress | PatchCompleted | PatchFailed | PatchDeclined

datatype exec_command_status = ExecInProgress | ExecCompleted | ExecFailed | ExecDeclined

datatype mcp_tool_call_status = McpInProgress | McpCompleted | McpFailed

text \<open>
  \<open>serde_json::Value\<close> is a type of a third-party crate: it is the type parameter \<open>'j\<close> of the
  types that carry one.
\<close>

record 'j mcp_invocation =
  mcp_server :: string
  mcp_tool :: string
  mcp_arguments :: "'j option"

datatype web_search_action =
    WebSearch "string option" "string list option"
  | OpenPage "string option"
  | FindInPage "string option" "string option"
  | OtherSearch

record patch_change =
  patch_path :: string
  patch_move_path :: "string option"
  patch_kind :: patch_change_kind
  patch_diff :: string
  patch_added :: nat
  patch_removed :: nat

end
