(* ===== verification/Domain_Events.thy ===== *)
theory Domain_Events
  imports Agent_Types
begin

text \<open>
  The shared event kernel \<open>agent/events\<close>: \<open>DomainEvent\<close> (what providers emit and the worker
  consumes) with its classifiers, \<open>DecisionEvent\<close> (what the decision layer sees) with its own,
  and the conversion between them. The lemmas relate the classifiers of the two sides: the
  domain classifiers partition the events, failures and successes are disjoint and always may
  need a decision, and the conversion never asks for a decision the domain side did not announce.
\<close>

subsection \<open>Domain events\<close>

datatype session_handle = ClaudeSession string | CodexThread string

datatype 'j domain_event =
    EvSessionHandle session_handle
  | EvAssistantChunk string
  | EvThinkingChunk string
  | EvStatus string
  | EvExecCommandStarted (ev_call_id: "string option") (ev_input_preview: "string option")
      (ev_source: "string option")
  | EvExecCommandFinished (ev_call_id: "string option") (ev_output_preview: "string option")
      exec_command_status (ev_exit_code: "int option") (ev_duration_ms: "nat option")
      (ev_source: "string option")
  | EvExecCommandOutputDelta (ev_call_id: "string option") (ev_delta: string)
  | EvGenericToolCallStarted (ev_name: string) (ev_call_id: "string option")
      (ev_input_preview: "string option")
  | EvGenericToolCallFinished (ev_name: string) (ev_call_id: "string option")
      (ev_output_preview: "string option") (ev_success: bool) (ev_exit_code: "int option")
      (ev_duration_ms: "nat option")
  | EvWebSearchStarted (ev_call_id: "string option") (ev_query: string)
  | EvWebSearchFinished (ev_call_id: "string option") (ev_query: string)
      (ev_action: "web_search_action option")
  | EvViewImage (ev_call_id: "string option") (ev_path: string)
  | EvImageGenerationFinished (ev_call_id: "string option") (ev_revised_prompt: "string option")
      (ev_result: "string option") (ev_saved_path: "string option")
  | EvMcpToolCallStarted (ev_call_id: "string option") (ev_invocation: "'j mcp_invocation")
  | EvMcpToolCallFinished (ev_call_id: "string option") (ev_invocation: "'j mcp_invocation")
      (ev_result_blocks: "'j list") (ev_error: "string option") mcp_tool_call_status
      (ev_is_error: bool)
  | EvPatchApplyStarted (ev_call_id: "string option") (ev_changes: "patch_change list")
  | EvPatchApplyFinished (ev_call_id: "string option") (ev_changes: "patch_change list")
      patch_apply_status
  | EvPatchApplyOutputDelta (ev_call_id: "string option") (ev_delta: string)
  | EvProviderPid nat
  | EvError string
  | EvFinished

fun is_running :: "'j domain_event \<Rightarrow> bool" where
  "is_running (EvAssistantChunk _) = True"
| "is_running (EvThinkingChunk _) = True"
| "is_running (EvStatus _) = True"
| "is_running (EvExecCommandOutputDelta _ _) = True"
| "is_running (EvPatchApplyOutputDelta _ _) = True"
| "is_running (EvExecCommandStarted _ _ _) = True"
| "is_running (EvGenericToolCallStarted _ _ _) = True"
| "is_running (EvWebSearchStarted _ _) = True"
| "is_running (EvViewImage _ _) = True"
| "is_running (EvImageGenerationFinished _ _ _ _) = True"
| "is_running (EvMcpToolCallStarted _ _) = True"
| "is_running (EvPatchApplyStarted _ _) = True"
| "is_running (EvSessionHandle _) = True"
| "is_running (EvProviderPid _) = True"
| "is_running _ = False"

fun may_need_decision :: "'j domain_event \<Rightarrow> bool" where
  "may_need_decision (EvError _) = True"
| "may_need_decision EvFinished = True"
| "may_need_decision (EvExecCommandFinished _ _ _ _ _ _) = True"
| "may_need_decision (EvGenericToolCallFinished _ _ _ _ _ _) = True"
| "may_need_decision (EvWebSearchFinished _ _ _) = True"
| "may_need_decision (EvMcpToolCallFinished _ _ _ _ _ _) = True"
| "may_need_decision (EvPatchApplyFinished _ _ _) = True"
| "may_need_decision _ = False"

fun is_failure :: "'j domain_event \<Rightarrow> bool" where
  "is_failure (EvError _) = True"
| "is_failure (EvExecCommandFinished _ _ st _ _ _) = (st = ExecFailed \<or> st = ExecDeclined)"
| "is_failure (EvGenericToolCallFinished _ _ _ ok _ _) = (\<not> ok)"
| "is_failure (EvMcpToolCallFinished _ _ _ _ _ is_err) = is_err"
| "is_failure (EvPatchApplyFinished _ _ st) = (st = PatchFailed \<or> st = PatchDeclined)"
| "is_failure _ = False"

fun is_success :: "'j domain_event \<Rightarrow> bool" where
  "is_success EvFinished = True"
| "is_success (EvExecCommandFinished _ _ st _ _ _) = (st = ExecCompleted)"
| "is_success (EvGenericToolCallFinished _ _ _ ok _ _) = ok"
| "is_success (EvMcpToolCallFinished _ _ _ _ st is_err) = (st = McpCompleted \<and> \<not> is_err)"
| "is_success (EvPatchApplyFinished _ _ st) = (st = PatchCompleted)"
| "is_success _ = False"

lemma running_iff_no_decision: "is_running e \<longleftrightarrow> \<not> may_need_decision e"
  by (cases e) simp_all

lemma failure_or_success_needs_decision: "is_failure e \<or> is_success e \<Longrightarrow> may_need_decision e"
  by (cases e) simp_all

lemma failure_not_success: "is_failure e \<Longrightarrow> \<not> is_success e"
  by (cases e) auto

subsection \<open>Decision events\<close>

datatype 'j decision_event =
    DeFinished "string option"
  | DeError string "string option"
  | DeClaudeAssistantChunk string
  | DeClaudeThinkingChunk string
  | DeClaudeToolCallStarted string "string option"
  | DeClaudeToolCallFinished string "string option" bool "string list option"
  | DeWebSearchStarted "string option" string
  | DeWebSearchFinished "string option" string "web_search_action option"
  | DeImageGenerationFinished "string option" "string option" "string option"
  | DeCodexApprovalRequest string 'j "string option"
  | DeCodexPatchApplyStarted string
  | DeCodexError string string
  | DeACPNotification string 'j
  | DeACPError string string
  | DeStatusUpdate string
  | DeSessionHandle string "string option"

fun de_is_running :: "'j decision_event \<Rightarrow> bool" where
  "de_is_running (DeClaudeAssistantChunk _) = True"
| "de_is_running (DeClaudeThinkingChunk _) = True"
| "de_is_running (DeClaudeToolCallStarted _ _) = True"
| "de_is_running (DeClaudeToolCallFinished _ _ _ _) = True"
| "de_is_running (DeCodexPatchApplyStarted _) = True"
| "de_is_running (DeStatusUpdate _) = True"
| "de_is_running (DeSessionHandle _ _) = True"
| "de_is_running (DeWebSearchStarted _ _) = True"
| "de_is_running (DeImageGenerationFinished _ _ _) = True"
| "de_is_running _ = False"

fun needs_decision :: "'j decision_event \<Rightarrow> bool" where
  "needs_decision (DeFinished _) = True"
| "needs_decision (DeError _ _) = True"
| "needs_decision (DeCodexApprovalRequest _ _ _) = True"
| "needs_decision (DeCodexError _ _) = True"
| "needs_decision (DeACPNotification _ _) = True"
| "needs_decision (DeACPError _ _) = True"
| "needs_decision (DeWebSearchFinished _ _ act) = (act = None)"
| "needs_decision _ = False"

lemma de_running_no_decision: "de_is_running d \<Longrightarrow> \<not> needs_decision d"
  by (cases d) simp_all

text \<open>The one decision event that is in neither class: a web search that ended with an action.\<close>

lemma de_unclassified:
  "\<not> de_is_running d \<and> \<not> needs_decision d \<longleftrightarrow> (\<exists>c q a. d = DeWebSearchFinished c q (Some a))"
  by (cases d) (auto simp: not_None_eq)

subsection \<open>Conversion\<close>

text \<open>
  \<open>impl From<&DomainEvent> for Option<DecisionEvent>\<close>. The printer of JSON values,
  \<open>serde_json::Value::to_string\<close>, is the parameter \<open>json_str\<close>.
\<close>

fun patch_status_text :: "patch_apply_status \<Rightarrow> string" where
  "patch_status_text PatchCompleted = ''patch completed''"
| "patch_status_text PatchFailed = ''patch failed''"
| "patch_status_text PatchDeclined = ''patch declined''"
| "patch_status_text PatchInProgress = ''patch in progress''"

fun decision_event_of :: "('j \<Rightarrow> string) \<Rightarrow> 'j domain_event \<Rightarrow> 'j decision_event option" where
  "decision_event_of json_str (EvSessionHandle h) =
     Some (DeSessionHandle (case h of ClaudeSession s \<Rightarrow> s | CodexThread t \<Rightarrow> t) None)"
| "decision_event_of json_str (EvAssistantChunk t) = Some (DeClaudeAssistantChunk t)"
| "decision_event_of json_str (EvThinkingChunk t) = Some (DeClaudeThinkingChunk t)"
| "decision_event_of json_str (EvStatus t) = Some (DeStatusUpdate t)"
| "decision_event_of json_str (EvExecCommandStarted _ input _) =
     Some (DeClaudeToolCallStarted ''exec'' input)"
| "decision_event_of json_str (EvExecCommandFinished _ output st _ _ _) =
     Some (DeClaudeToolCallFinished ''exec'' output (st = ExecCompleted) None)"
| "decision_event_of json_str (EvExecCommandOutputDelta _ _) = Some (DeStatusUpdate ''running'')"
| "decision_event_of json_str (EvGenericToolCallStarted name _ input) =
     Some (DeClaudeToolCallStarted name input)"
| "decision_event_of json_str (EvGenericToolCallFinished name _ output ok _ _) =
     Some (DeClaudeToolCallFinished name output ok None)"
| "decision_event_of json_str (EvWebSearchStarted c q) = Some (DeWebSearchStarted c q)"
| "decision_event_of json_str (EvWebSearchFinished c q a) = Some (DeWebSearchFinished c q a)"
| "decision_event_of json_str (EvViewImage _ _) = Some (DeStatusUpdate ''running'')"
| "decision_event_of json_str (EvImageGenerationFinished c _ r p) =
     Some (DeImageGenerationFinished c r p)"
| "decision_event_of json_str (EvMcpToolCallStarted _ iv) =
     Some (DeClaudeToolCallStarted ''mcp'' (Some (mcp_server iv @ '':'' @ mcp_tool iv)))"
| "decision_event_of json_str (EvMcpToolCallFinished _ _ blocks err _ _) =
     Some (DeClaudeToolCallFinished ''mcp'' err (err = None)
       (if blocks = [] then None else Some (map json_str blocks)))"
| "decision_event_of json_str (EvPatchApplyStarted _ changes) =
     Some (DeCodexPatchApplyStarted (case changes of [] \<Rightarrow> [] | c # _ \<Rightarrow> patch_path c))"
| "decision_event_of json_str (EvPatchApplyFinished _ _ st) =
     Some (DeStatusUpdate (patch_status_text st))"
| "decision_event_of json_str (EvPatchApplyOutputDelta _ _) = Some (DeStatusUpdate ''running'')"
| "decision_event_of json_str (EvProviderPid _) = None"
| "decision_event_of json_str (EvError msg) = Some (DeError msg None)"
| "decision_event_of json_str EvFinished = Some (DeFinished None)"

lemma decision_event_of_None: "decision_event_of js e = None \<longleftrightarrow> (\<exists>p. e = EvProviderPid p)"
  by (cases e) simp_all

lemma conversion_running:
  "is_running e \<Longrightarrow> decision_event_of js e = Some d \<Longrightarrow> de_is_running d"
  by (cases e) auto

lemma conversion_needs_decision:
  "decision_event_of js e = Some d \<Longrightarrow> needs_decision d \<Longrightarrow> may_need_decision e"
  by (cases e) auto

text \<open>
  Of the events that may need a decision only the terminal ones, and a web search that ended
  without an action, still ask for one after the conversion.
\<close>

lemma conversion_decision_events:
  "decision_event_of js e = Some d \<Longrightarrow>
   needs_decision d \<longleftrightarrow>
     e = EvFinished \<or> (\<exists>m. e = EvError m) \<or> (\<exists>c q. e = EvWebSearchFinished c q None)"
  by (cases e) auto

end
