(* ===== verification/Worker_State.thy ===== *)
theory Worker_State
  imports Agent_Types
begin

text \<open>
  \<open>WorkerState\<close> of \<open>agent/runtime-domain/src/worker_state.rs\<close>: the states of the worker
  aggregate, the table of legal transitions, the guarded transition function and the state
  predicates. The transition table is also given as a step relation, whose reachability facts
  (which states lead where, and where a stopped worker can go) are stated at the end.
\<close>

subsection \<open>States and transitions\<close>

datatype responding_sub_state = Streaming | WaitingConfirmation

datatype worker_state =
    WsStarting
  | WsResponding responding_sub_state
  | WsProcessingTool string
  | WsCompleted
  | WsFailed string
  | WsIdle
  | WsBlocked string
  | WsPaused string
  | WsWaitingForInput
  | WsResting "instant option"
  | WsFinishing
  | WsStopping

record invalid_transition =
  it_from :: worker_state
  it_to :: worker_state

definition transition_table :: "worker_state \<Rightarrow> worker_state \<Rightarrow> bool" where
  "transition_table s target = (case s of
     WsIdle \<Rightarrow> (case target of
         WsStarting \<Rightarrow> True
       | WsBlocked _ \<Rightarrow> True
       | WsPaused _ \<Rightarrow> True
       | WsStopping \<Rightarrow> True
       | _ \<Rightarrow> False)
   | WsStarting \<Rightarrow> (case target of
         WsResponding _ \<Rightarrow> True
       | WsFailed _ \<Rightarrow> True
       | WsBlocked _ \<Rightarrow> True
       | WsPaused _ \<Rightarrow> True
       | WsStopping \<Rightarrow> True
       | _ \<Rightarrow> False)
   | WsResponding sub \<Rightarrow> (case target of
         WsProcessingTool _ \<Rightarrow> True
       | WsCompleted \<Rightarrow> True
       | WsFailed _ \<Rightarrow> True
       | WsIdle \<Rightarrow> True
       | WsBlocked _ \<Rightarrow> True
       | WsPaused _ \<Rightarrow> True
       | WsWaitingForInput \<Rightarrow> True
       | WsFinishing \<Rightarrow> True
       | WsStopping \<Rightarrow> True
       | WsResponding sub' \<Rightarrow>
           sub = Streaming \<and> sub' = WaitingConfirmation \<or> sub = WaitingConfirmation \<and> sub' = Streaming
       | _ \<Rightarrow> False)
   | WsProcessingTool _ \<Rightarrow> (case target of
         WsResponding _ \<Rightarrow> True
       | WsCompleted \<Rightarrow> True
       | WsFailed _ \<Rightarrow> True
       | WsIdle \<Rightarrow> True
       | WsBlocked _ \<Rightarrow> True
       | WsPaused _ \<Rightarrow> True
       | WsFinishing \<Rightarrow> True
       | WsStopping \<Rightarrow> True
       | _ \<Rightarrow> False)
   | WsFinishing \<Rightarrow> (case target of
         WsCompleted \<Rightarrow> True
       | WsFailed _ \<Rightarrow> True
       | WsIdle \<Rightarrow> True
       | WsBlocked _ \<Rightarrow> True
       | WsPaused _ \<Rightarrow> True
       | WsStopping \<Rightarrow> True
       | _ \<Rightarrow> False)
   | WsStopping \<Rightarrow> (case target of
         WsCompleted \<Rightarrow> True
       | WsFailed _ \<Rightarrow> True
       | WsIdle \<Rightarrow> True
       | _ \<Rightarrow> False)
   | WsCompleted \<Rightarrow> (case target of
         WsStarting \<Rightarrow> True
       | _ \<Rightarrow> False)
   | WsFailed _ \<Rightarrow> (case target of
         WsIdle \<Rightarrow> True
       | WsStarting \<Rightarrow> True
       | WsBlocked _ \<Rightarrow> True
       | WsPaused _ \<Rightarrow> True
       | _ \<Rightarrow> False)
   | WsBlocked _ \<Rightarrow> (case target of
         WsIdle \<Rightarrow> True
       | WsResponding _ \<Rightarrow> True
       | WsStarting \<Rightarrow> True
       | WsPaused _ \<Rightarrow> True
       | WsResting _ \<Rightarrow> True
       | _ \<Rightarrow> False)
   | WsPaused _ \<Rightarrow> (case target of
         WsIdle \<Rightarrow> True
       | WsResponding _ \<Rightarrow> True
       | WsStarting \<Rightarrow> True
       | WsBlocked _ \<Rightarrow> True
       | _ \<Rightarrow> False)
   | WsWaitingForInput \<Rightarrow> (case target of
         WsResponding _ \<Rightarrow> True
       | WsIdle \<Rightarrow> True
       | WsBlocked _ \<Rightarrow> True
       | WsPaused _ \<Rightarrow> True
       | _ \<Rightarrow> False)
   | WsResting _ \<Rightarrow> (case target of
         WsIdle \<Rightarrow> True
       | WsStarting \<Rightarrow> True
       | WsFailed _ \<Rightarrow> True
       | _ \<Rightarrow> False))"

definition can_transition_to :: "worker_state \<Rightarrow> worker_state \<Rightarrow> bool" where
  "can_transition_to s t = (if s = t then False else transition_table s t)"

definition transition_to :: "worker_state \<Rightarrow> worker_state \<Rightarrow> invalid_transition + worker_state" where
  "transition_to s t =
     (if can_transition_to s t then Inr t else Inl \<lparr>it_from = s, it_to = t\<rparr>)"

lemma transition_to_Inr_iff [simp]:
  "transition_to s t = Inr u \<longleftrightarrow> can_transition_to s t \<and> u = t"
  by (auto simp: transition_to_def)

lemma transition_to_Inl_iff [simp]:
  "transition_to s t = Inl e \<longleftrightarrow> \<not> can_transition_to s t \<and> e = \<lparr>it_from = s, it_to = t\<rparr>"
  by (auto simp: transition_to_def)

lemma no_self_loop: "\<not> can_transition_to s s"
  by (simp add: can_transition_to_def)

subsection \<open>Predicates\<close>

fun ws_is_active :: "worker_state \<Rightarrow> bool" where
  "ws_is_active WsIdle = False"
| "ws_is_active WsCompleted = False"
| "ws_is_active (WsFailed _) = False"
| "ws_is_active _ = True"

fun ws_is_terminal :: "worker_state \<Rightarrow> bool" where
  "ws_is_terminal WsCompleted = True"
| "ws_is_terminal (WsFailed _) = True"
| "ws_is_terminal _ = False"

definition ws_is_idle :: "worker_state \<Rightarrow> bool" where
  "ws_is_idle s \<longleftrightarrow> s = WsIdle"

fun ws_is_failed :: "worker_state \<Rightarrow> bool" where
  "ws_is_failed (WsFailed _) = True"
| "ws_is_failed _ = False"

fun ws_is_blocked :: "worker_state \<Rightarrow> bool" where
  "ws_is_blocked (WsBlocked _) = True"
| "ws_is_blocked (WsResting _) = True"
| "ws_is_blocked _ = False"

fun ws_is_paused :: "worker_state \<Rightarrow> bool" where
  "ws_is_paused (WsPaused _) = True"
| "ws_is_paused _ = False"

fun ws_is_responding :: "worker_state \<Rightarrow> bool" where
  "ws_is_responding (WsResponding _) = True"
| "ws_is_responding _ = False"

fun ws_label :: "worker_state \<Rightarrow> string" where
  "ws_label WsIdle = ''idle''"
| "ws_label WsStarting = ''starting''"
| "ws_label (WsResponding Streaming) = ''responding:streaming''"
| "ws_label (WsResponding WaitingConfirmation) = ''responding:waiting''"
| "ws_label (WsProcessingTool _) = ''processing_tool''"
| "ws_label WsCompleted = ''completed''"
| "ws_label (WsFailed _) = ''failed''"
| "ws_label (WsBlocked _) = ''blocked''"
| "ws_label (WsPaused _) = ''paused''"
| "ws_label WsWaitingForInput = ''waiting_for_input''"
| "ws_label (WsResting _) = ''resting''"
| "ws_label WsFinishing = ''finishing''"
| "ws_label WsStopping = ''stopping''"

fun worker_status_of :: "worker_state \<Rightarrow> worker_status" where
  "worker_status_of WsIdle = WorkerIdle"
| "worker_status_of WsCompleted = WorkerStopped"
| "worker_status_of (WsFailed _) = WorkerStopped"
| "worker_status_of _ = WorkerRunning"

text \<open>Idle, active and terminal partition the states, and the protocol status shows which.\<close>

lemma state_classes:
  "(if ws_is_idle s then 1 else 0) + (if ws_is_active s then 1 else 0)
     + (if ws_is_terminal s then 1 else (0::nat)) = 1"
  by (cases s) (simp_all add: ws_is_idle_def)

lemma worker_status_of_class:
  "worker_status_of s = WorkerIdle \<longleftrightarrow> ws_is_idle s"
  "worker_status_of s = WorkerRunning \<longleftrightarrow> ws_is_active s"
  "worker_status_of s = WorkerStopped \<longleftrightarrow> ws_is_terminal s"
  by (cases s; simp add: ws_is_idle_def)+

subsection \<open>The step relation\<close>

inductive ws_step :: "worker_state \<Rightarrow> worker_state \<Rightarrow> bool" where
  ws_stepI: "transition_to s t = Inr u \<Longrightarrow> ws_step s u"

inductive_simps ws_step_iff: "ws_step s t"
inductive_cases ws_step_completedE: "ws_step WsCompleted t"
inductive_cases ws_step_failedE: "ws_step (WsFailed r) t"

lemma ws_step_can: "ws_step s t \<longleftrightarrow> can_transition_to s t"
  by (auto simp: ws_step_iff)

lemmas ws_step_defs = ws_step_can can_transition_to_def transition_table_def

lemma completed_only_restarts: "ws_step WsCompleted t \<longleftrightarrow> t = WsStarting"
  by (cases t) (auto simp: ws_step_defs)

text \<open>Every state but \<open>Idle\<close> and \<open>Completed\<close> has a step to \<open>Idle\<close> or \<open>Responding\<close>: none is stuck.\<close>

lemma ws_progress: "\<exists>t. ws_step s t"
proof (cases s)
  case WsIdle
  then show ?thesis by (intro exI [of _ WsStarting]) (simp add: ws_step_defs)
next
  case WsCompleted
  then show ?thesis by (simp add: completed_only_restarts)
next
  case WsStarting
  then show ?thesis by (intro exI [of _ WsStopping]) (simp add: ws_step_defs)
qed (auto intro!: exI [of _ WsIdle] simp: ws_step_defs)

text \<open>Recovery: from every state a path of legal transitions leads back to \<open>Idle\<close>.\<close>

lemma ws_steps_to_idle: "ws_step\<^sup>*\<^sup>* s WsIdle"
proof -
  have st: "ws_step WsStarting WsStopping" "ws_step WsStopping WsIdle"
    by (simp_all add: ws_step_defs)
  then have "ws_step\<^sup>*\<^sup>* WsStarting WsIdle" by (meson rtranclp.simps)
  moreover from this have "ws_step\<^sup>*\<^sup>* WsCompleted WsIdle"
    by (rule converse_rtranclp_into_rtranclp [rotated]) (simp add: completed_only_restarts)
  ultimately show ?thesis
    by (cases s) (auto intro: converse_rtranclp_into_rtranclp r_into_rtranclp
        simp: ws_step_defs)
qed

text \<open>A worker is resting only because it was blocked, and waits for input only inside a response.\<close>

lemma ws_step_into_resting: "ws_step s (WsResting u) \<Longrightarrow> \<exists>r. s = WsBlocked r"
  by (cases s) (auto simp: ws_step_defs split: if_splits)

lemma ws_step_into_waiting: "ws_step s WsWaitingForInput \<Longrightarrow> ws_is_responding s"
  by (cases s) (auto simp: ws_step_defs split: if_splits)

lemma ws_step_into_tool: "ws_step s (WsProcessingTool n) \<Longrightarrow> ws_is_responding s"
  by (cases s) (auto simp: ws_step_defs split: if_splits)

subsection \<open>Properties\<close>

lemma ws_steps_from_idle: "ws_step\<^sup>*\<^sup>* WsIdle t"
proof -
  have i: "ws_step\<^sup>*\<^sup>* WsIdle WsStarting" by (intro r_into_rtranclp) (simp add: ws_step_defs)
  have r: "ws_step\<^sup>*\<^sup>* WsIdle (WsResponding sub)" for sub
    by (rule rtranclp.rtrancl_into_rtrancl [OF i]) (simp add: ws_step_defs)
  have b: "ws_step\<^sup>*\<^sup>* WsIdle (WsBlocked why)" for why
    by (intro r_into_rtranclp) (simp add: ws_step_defs)
  show ?thesis
  proof (cases t)
    case (WsResting u)
    show ?thesis unfolding WsResting
      by (rule rtranclp.rtrancl_into_rtrancl [OF b [of "[]"]]) (simp add: ws_step_defs)
  qed (auto intro: i r b rtranclp.rtrancl_into_rtrancl [OF r [of Streaming]] simp: ws_step_defs)
qed

text \<open>
  The transition graph is strongly connected: from every state of a worker a path of legal
  transitions leads to every other state. No state, terminal ones included, is a dead end, and the
  graph is anything but acyclic.
\<close>

theorem worker_states_strongly_connected: "ws_step\<^sup>*\<^sup>* s t"
  using ws_steps_to_idle [of s] ws_steps_from_idle [of t] by (rule rtranclp_trans)

end
