(* ===== verification/Transcript_Journal.thy ===== *)
theory Transcript_Journal
  imports Domain_Events
begin

text \<open>
  \<open>TranscriptJournal\<close> of \<open>agent/runtime-domain/src/transcript_journal.rs\<close>: the structured log of
  the events a worker received. \<open>append\<close> merges consecutive assistant chunks into one entry and
  completes the tool call that was started last; every event counts in \<open>next_seq\<close>. The lemmas
  say that no assistant text is lost or reordered by the merging, that the counter is the number
  of events appended (modulo \<open>2\<^sup>6\<^sup>4\<close>), and that earlier entries never change.
\<close>

datatype 'j journal_entry =
    UserInput string
  | AssistantResponse string
  | ToolCall (tc_name: string) (tc_input: "string option") (tc_success: bool)
      (tc_output: "string option")
  | SystemEvent "'j domain_event"

record 'j transcript_journal =
  tj_entries :: "'j journal_entry list"
  tj_next_seq :: u64

definition tj_new :: "'j transcript_journal" where
  "tj_new = \<lparr>tj_entries = [], tj_next_seq = 0\<rparr>"

text \<open>
  \<open>append\<close> decides between pushing a new entry and rewriting the last one in place. The
  decision and the result are given by \<open>absorb\<close>: what the last entry becomes when the event is
  merged into it (the early \<open>return\<close> of the code), or None; and by \<open>entry_of\<close>: the entry pushed
  otherwise.
\<close>

fun tool_absorb ::
  "string \<Rightarrow> bool \<Rightarrow> (string option \<Rightarrow> string option) \<Rightarrow> 'j journal_entry \<Rightarrow> 'j journal_entry option"
where
  "tool_absorb nm ok out (ToolCall name input success output) =
     (if name = nm \<and> \<not> success then Some (ToolCall name input ok (out output)) else None)"
| "tool_absorb nm ok out _ = None"

fun absorb :: "'j domain_event \<Rightarrow> 'j journal_entry \<Rightarrow> 'j journal_entry option" where
  "absorb (EvAssistantChunk text) e =
     (case e of AssistantResponse prev \<Rightarrow> Some (AssistantResponse (prev @ text)) | _ \<Rightarrow> None)"
| "absorb (EvExecCommandFinished _ out st _ _ _) e =
     tool_absorb ''exec'' (st = ExecCompleted) (\<lambda>_. out) e"
| "absorb (EvGenericToolCallFinished name _ out ok _ _) e = tool_absorb name ok (\<lambda>_. out) e"
| "absorb (EvMcpToolCallFinished _ _ _ err _ _) e =
     tool_absorb ''mcp'' (err = None) (\<lambda>_. err) e"
| "absorb (EvPatchApplyFinished _ _ st) e =
     tool_absorb ''patch'' (st = PatchCompleted) (\<lambda>out. out) e"
| "absorb (EvWebSearchFinished _ _ _) e = tool_absorb ''websearch'' True (\<lambda>out. out) e"
| "absorb _ e = None"

fun entry_of :: "'j domain_event \<Rightarrow> 'j journal_entry" where
  "entry_of (EvAssistantChunk text) = AssistantResponse text"
| "entry_of (EvThinkingChunk text) = SystemEvent (EvThinkingChunk text)"
| "entry_of (EvExecCommandStarted _ input _) = ToolCall ''exec'' input False None"
| "entry_of (EvExecCommandFinished _ out st _ _ _) = ToolCall ''exec'' None (st = ExecCompleted) out"
| "entry_of (EvGenericToolCallStarted name _ input) = ToolCall name input False None"
| "entry_of (EvGenericToolCallFinished name _ out ok _ _) = ToolCall name None ok out"
| "entry_of (EvMcpToolCallStarted _ _) = ToolCall ''mcp'' None False None"
| "entry_of (EvMcpToolCallFinished _ _ _ err _ _) = ToolCall ''mcp'' None (err = None) err"
| "entry_of (EvPatchApplyStarted _ _) = ToolCall ''patch'' None False None"
| "entry_of (EvPatchApplyFinished _ _ st) = ToolCall ''patch'' None (st = PatchCompleted) None"
| "entry_of (EvWebSearchStarted _ query) = ToolCall ''websearch'' (Some query) False None"
| "entry_of (EvWebSearchFinished _ _ _) = ToolCall ''websearch'' None True None"
| "entry_of event = SystemEvent event"

definition tj_append :: "'j domain_event \<Rightarrow> 'j transcript_journal \<Rightarrow> 'j transcript_journal" where
  "tj_append event j =
     (let merged = (if tj_entries j = [] then None else absorb event (last (tj_entries j)))
      in \<lparr>tj_entries =
            (case merged of
               Some e \<Rightarrow> butlast (tj_entries j) @ [e]
             | None \<Rightarrow> tj_entries j @ [entry_of event]),
          tj_next_seq = tj_next_seq j + 1\<rparr>)"

definition last_n :: "nat \<Rightarrow> 'j transcript_journal \<Rightarrow> 'j journal_entry list" where
  "last_n n j = drop (length (tj_entries j) - n) (tj_entries j)"

fun is_tool_call :: "'j journal_entry \<Rightarrow> bool" where
  "is_tool_call (ToolCall _ _ _ _) = True"
| "is_tool_call _ = False"

definition tool_calls :: "'j transcript_journal \<Rightarrow> 'j journal_entry list" where
  "tool_calls j = filter is_tool_call (tj_entries j)"

text \<open>
  \<open>to_text_summary\<close>. The \<open>Debug\<close> printer of a domain event is derived code and enters as the
  parameter \<open>dbg\<close>.
\<close>

fun summary_line :: "('j domain_event \<Rightarrow> string) \<Rightarrow> 'j journal_entry \<Rightarrow> string" where
  "summary_line dbg (UserInput text) = ''[user] '' @ text"
| "summary_line dbg (AssistantResponse text) = ''[assistant] '' @ text"
| "summary_line dbg (ToolCall name input success output) =
     ''[tool:'' @ (if success then ''ok'' else ''fail'') @ ''] '' @ name @
     (case (case input of Some i \<Rightarrow> Some i | None \<Rightarrow> output) of
        Some s \<Rightarrow> '' '' @ em_dash @ '' '' @ s
      | None \<Rightarrow> [])"
| "summary_line dbg (SystemEvent event) = ''[system] '' @ dbg event"

definition to_text_summary :: "('j domain_event \<Rightarrow> string) \<Rightarrow> nat \<Rightarrow> 'j transcript_journal \<Rightarrow> string" where
  "to_text_summary dbg max_entries j = str_join [CHR 0x0A] (map (summary_line dbg) (last_n max_entries j))"

fun tj_append_all :: "'j domain_event list \<Rightarrow> 'j transcript_journal \<Rightarrow> 'j transcript_journal" where
  "tj_append_all [] j = j"
| "tj_append_all (e # es) j = tj_append_all es (tj_append e j)"

subsection \<open>Sequence numbers and growth\<close>

lemma tj_append_seq: "tj_next_seq (tj_append e j) = tj_next_seq j + 1"
  by (simp add: tj_append_def Let_def)

lemma tj_append_all_seq: "tj_next_seq (tj_append_all es j) = tj_next_seq j + of_nat (length es)"
  by (induction es arbitrary: j) (simp_all add: tj_append_seq algebra_simps)

lemma tj_append_nonempty [simp]: "tj_entries (tj_append e j) \<noteq> []"
  by (simp add: tj_append_def Let_def split: option.splits)

lemma tj_append_length:
  "length (tj_entries (tj_append e j)) =
     (if tj_entries j \<noteq> [] \<and> absorb e (last (tj_entries j)) \<noteq> None
      then length (tj_entries j) else Suc (length (tj_entries j)))"
  by (auto simp: tj_append_def Let_def split: option.splits)

text \<open>All entries but the last are final: appending never rewrites them.\<close>

lemma tj_append_prefix:
  "prefix (butlast (tj_entries j)) (tj_entries (tj_append e j))"
proof (cases "tj_entries j" rule: rev_cases)
  case Nil
  then show ?thesis by simp
next
  case (snoc es x)
  then show ?thesis by (auto simp: tj_append_def Let_def prefix_def split: option.splits)
qed

lemma last_n_length: "length (last_n n j) = min n (length (tj_entries j))"
  by (simp add: last_n_def)

lemma last_n_suffix: "\<exists>p. tj_entries j = p @ last_n n j"
  by (metis append_take_drop_id last_n_def)

subsection \<open>No assistant text is lost\<close>

fun entry_text :: "'j journal_entry \<Rightarrow> string" where
  "entry_text (AssistantResponse t) = t"
| "entry_text _ = []"

fun event_text :: "'j domain_event \<Rightarrow> string" where
  "event_text (EvAssistantChunk t) = t"
| "event_text _ = []"

definition assistant_text :: "'j transcript_journal \<Rightarrow> string" where
  "assistant_text j = concat (map entry_text (tj_entries j))"

lemma tool_absorb_text: "tool_absorb nm ok out x = Some y \<Longrightarrow> entry_text x = [] \<and> entry_text y = []"
  by (cases x) (auto split: if_splits)

lemma absorb_text: "absorb e x = Some y \<Longrightarrow> entry_text y = entry_text x @ event_text e"
  by (cases e) (auto split: journal_entry.splits dest: tool_absorb_text)

lemma entry_of_text: "entry_text (entry_of e) = event_text e"
  by (cases e) simp_all

lemma tj_append_text: "assistant_text (tj_append e j) = assistant_text j @ event_text e"
proof (cases "tj_entries j" rule: rev_cases)
  case Nil
  then show ?thesis by (simp add: tj_append_def assistant_text_def entry_of_text)
next
  case (snoc es x)
  then show ?thesis
    by (auto simp: tj_append_def assistant_text_def entry_of_text absorb_text split: option.splits)
qed

lemma tj_append_all_text:
  "assistant_text (tj_append_all es j) = assistant_text j @ concat (map event_text es)"
  by (induction es arbitrary: j) (simp_all add: tj_append_text)

subsection \<open>Entry invariants\<close>

text \<open>Consecutive assistant chunks share an entry: two assistant entries are never adjacent.\<close>

fun is_assistant :: "'j journal_entry \<Rightarrow> bool" where
  "is_assistant (AssistantResponse _) = True"
| "is_assistant _ = False"

fun no_adjacent_assistant :: "'j journal_entry list \<Rightarrow> bool" where
  "no_adjacent_assistant (x # y # zs) =
     (\<not> (is_assistant x \<and> is_assistant y) \<and> no_adjacent_assistant (y # zs))"
| "no_adjacent_assistant _ = True"

lemma no_adjacent_snoc:
  "no_adjacent_assistant (xs @ [y]) \<longleftrightarrow>
     no_adjacent_assistant xs \<and> (xs = [] \<or> \<not> (is_assistant (last xs) \<and> is_assistant y))"
  by (induction xs rule: no_adjacent_assistant.induct) auto

lemma tool_absorb_kind: "tool_absorb nm ok out x = Some y \<Longrightarrow> \<not> is_assistant x \<and> \<not> is_assistant y"
  by (cases x) (auto split: if_splits)

lemma absorb_kind: "absorb e x = Some y \<Longrightarrow> is_assistant y = is_assistant x"
  by (cases e) (auto split: journal_entry.splits dest: tool_absorb_kind)

lemma entry_of_kind: "is_assistant (entry_of e) \<Longrightarrow> is_assistant x \<Longrightarrow> absorb e x \<noteq> None"
  by (cases e; cases x) simp_all

lemma tj_append_no_adjacent:
  "no_adjacent_assistant (tj_entries j) \<Longrightarrow> no_adjacent_assistant (tj_entries (tj_append e j))"
proof (cases "tj_entries j" rule: rev_cases)
  case Nil
  then show ?thesis by (simp add: tj_append_def)
next
  case (snoc es x)
  moreover assume "no_adjacent_assistant (tj_entries j)"
  ultimately show ?thesis
    using no_adjacent_snoc [of "es @ [x]" "entry_of e"]
    by (auto simp: tj_append_def no_adjacent_snoc absorb_kind dest: entry_of_kind split: option.splits)
qed

lemma tj_append_all_no_adjacent:
  "no_adjacent_assistant (tj_entries j) \<Longrightarrow> no_adjacent_assistant (tj_entries (tj_append_all es j))"
  by (induction es arbitrary: j) (simp_all add: tj_append_no_adjacent)

subsection \<open>Properties\<close>

text \<open>
  Assistant chunks are always merged: whatever events are appended, a journal has no two neighbouring
  assistant entries. Every event leaves all entries but the last unchanged.
\<close>

theorem journal_merges_chunks:
  "no_adjacent_assistant (tj_entries (tj_append_all es tj_new)) \<and>
   prefix (butlast (tj_entries j)) (tj_entries (tj_append e j))"
  using tj_append_all_no_adjacent [of tj_new es] tj_append_prefix [of j e] by (simp add: tj_new_def)

end
