(* ===== verification/Guarded_Transition.thy ===== *)
theory Guarded_Transition
  imports Rust_Prelude
begin

text \<open>
  The interface that every stateful object of the runtime with a transition table offers: an
  observable status, and an operation that moves the object to a requested status when the
  table allows it and reports an error otherwise. The locale collects what a client may rely
  on; the worker and the agent slot interpret it on their own operations.
\<close>

text \<open>Issuing a list of requests, ignoring the errors, as the event handlers do.\<close>

fun run_requests :: "('o \<Rightarrow> 'st \<Rightarrow> ('e + unit) \<times> 'o) \<Rightarrow> 'o \<Rightarrow> 'st list \<Rightarrow> 'o" where
  "run_requests req ob [] = ob"
| "run_requests req ob (t # ts) = run_requests req (snd (req ob t)) ts"

locale guarded_object =
  fixes status :: "'o \<Rightarrow> 'st"
    and allowed :: "'st \<Rightarrow> 'st \<Rightarrow> bool"
    and request :: "'o \<Rightarrow> 'st \<Rightarrow> ('e + unit) \<times> 'o"
  assumes request_ok: "allowed (status ob) t \<Longrightarrow> request ob t = (Inr (), ob') \<Longrightarrow> status ob' = t"
    and request_accepts: "is_ok (fst (request ob t)) \<longleftrightarrow> allowed (status ob) t"
    and request_rejects: "\<not> allowed (status ob) t \<Longrightarrow> status (snd (request ob t)) = status ob"
begin

lemma request_cases:
  "(allowed (status ob) t \<and> status (snd (request ob t)) = t) \<or>
   (\<not> allowed (status ob) t \<and> status (snd (request ob t)) = status ob)"
proof (cases "allowed (status ob) t")
  case True
  then have ok: "is_ok (fst (request ob t))" by (simp add: request_accepts)
  obtain r ob' where rq: "request ob t = (r, ob')" by (cases "request ob t")
  with ok obtain u where r: "r = Inr u" by (cases r) auto
  have "status ob' = t" using True by (rule request_ok) (simp add: rq r)
  with True show ?thesis by (simp add: rq)
next
  case False
  then show ?thesis by (simp add: request_rejects)
qed

text \<open>Whatever is requested, the status moves along the table only.\<close>

lemma run_path: "allowed\<^sup>*\<^sup>* (status ob) (status (run_requests request ob ts))"
proof (induction ts arbitrary: ob)
  case Nil
  then show ?case by simp
next
  case (Cons t ts)
  have "allowed\<^sup>*\<^sup>* (status ob) (status (snd (request ob t)))"
    using request_cases [of ob t] by auto
  with Cons [of "snd (request ob t)"] show ?case by (simp add: rtranclp_trans)
qed

lemma run_invariant:
  assumes init: "P (status ob)"
    and closed: "\<And>s t. P s \<Longrightarrow> allowed s t \<Longrightarrow> P t"
  shows "P (status (run_requests request ob ts))"
proof -
  have "allowed\<^sup>*\<^sup>* (status ob) (status (run_requests request ob ts))" by (rule run_path)
  then show ?thesis
    by (induction rule: rtranclp_induct) (auto intro: init closed)
qed

end

end
