(* ===== verification/Runtime_Commands.thy ===== *)
theory Runtime_Commands
  imports Domain_Events
begin

text \<open>
  \<open>RuntimeCommand\<close>, its queue, and the effect handlers: \<open>agent/runtime-domain/src/runtime_command.rs\<close>
  and \<open>agent/behavior-infra\<close>. A handler changes the world it runs in; the world is a state \<open>'w\<close>
  that the handler receives and returns. \<open>CompositeEffectHandler\<close> holds one handler per command
  and dispatches on the constructor.
\<close>

subsection \<open>Commands and their queue\<close>

datatype 'j runtime_command =
    SpawnProvider (rc_agent: agent_id) (rc_prompt: string)
  | SendToProvider (rc_agent: agent_id) (rc_event: "'j domain_event")
  | RequestDecision (rc_agent: agent_id) (rc_situation_type: string)
  | NotifyUser (rc_agent: agent_id) (rc_message: string)
  | UpdateWorktree (rc_agent: agent_id) (rc_path: string) (rc_branch: string)
  | Terminate (rc_agent: agent_id) (rc_reason: string)
  | TransitionState (rc_agent: agent_id) (rc_new_status: string)

datatype 'j effect_error =
    NotImplemented "'j runtime_command"
  | ExecutionFailed string

record 'j runtime_command_queue =
  rq_commands :: "'j runtime_command list"

definition rq_new :: "'j runtime_command_queue" where
  "rq_new = \<lparr>rq_commands = []\<rparr>"

definition rq_push :: "'j runtime_command \<Rightarrow> 'j runtime_command_queue \<Rightarrow> 'j runtime_command_queue" where
  "rq_push c q = q\<lparr>rq_commands := rq_commands q @ [c]\<rparr>"

definition rq_extend :: "'j runtime_command list \<Rightarrow> 'j runtime_command_queue \<Rightarrow> 'j runtime_command_queue" where
  "rq_extend cs q = q\<lparr>rq_commands := rq_commands q @ cs\<rparr>"

definition rq_drain :: "'j runtime_command_queue \<Rightarrow> 'j runtime_command list \<times> 'j runtime_command_queue" where
  "rq_drain q = (rq_commands q, q\<lparr>rq_commands := []\<rparr>)"

definition rq_peek :: "'j runtime_command_queue \<Rightarrow> 'j runtime_command option" where
  "rq_peek q = (case rq_commands q of [] \<Rightarrow> None | c # _ \<Rightarrow> Some c)"

definition rq_len :: "'j runtime_command_queue \<Rightarrow> nat" where
  "rq_len q = length (rq_commands q)"

definition rq_is_empty :: "'j runtime_command_queue \<Rightarrow> bool" where
  "rq_is_empty q \<longleftrightarrow> rq_commands q = []"

lemmas rq_defs [model_defs] = rq_new_def rq_push_def rq_extend_def rq_drain_def rq_peek_def
  rq_len_def rq_is_empty_def

lemma rq_extend_is_pushes: "rq_extend cs q = fold rq_push cs q"
proof (induction cs arbitrary: q)
  case Nil
  then show ?case by (simp add: rq_extend_def)
next
  case (Cons c cs)
  have "rq_extend (c # cs) q = rq_extend cs (rq_push c q)"
    by (simp add: rq_extend_def rq_push_def)
  with Cons show ?case by simp
qed

subsection \<open>Effect handlers\<close>

type_synonym ('j, 'w) effect = "'w \<Rightarrow> ('j effect_error + unit) \<times> 'w"

record ('j, 'w) composite_effect_handler =
  h_spawn_provider :: "agent_id \<Rightarrow> string \<Rightarrow> ('j, 'w) effect"
  h_send_to_provider :: "agent_id \<Rightarrow> 'j domain_event \<Rightarrow> ('j, 'w) effect"
  h_request_decision :: "agent_id \<Rightarrow> string \<Rightarrow> ('j, 'w) effect"
  h_notify_user :: "agent_id \<Rightarrow> string \<Rightarrow> ('j, 'w) effect"
  h_update_worktree :: "agent_id \<Rightarrow> string \<Rightarrow> string \<Rightarrow> ('j, 'w) effect"
  h_terminate :: "agent_id \<Rightarrow> string \<Rightarrow> ('j, 'w) effect"
  h_transition_state :: "agent_id \<Rightarrow> string \<Rightarrow> ('j, 'w) effect"

fun composite_handle ::
  "('j, 'w) composite_effect_handler \<Rightarrow> 'j runtime_command \<Rightarrow> ('j, 'w) effect" where
  "composite_handle h (SpawnProvider a prompt) = h_spawn_provider h a prompt"
| "composite_handle h (SendToProvider a event) = h_send_to_provider h a event"
| "composite_handle h (RequestDecision a situation) = h_request_decision h a situation"
| "composite_handle h (NotifyUser a message) = h_notify_user h a message"
| "composite_handle h (UpdateWorktree a path branch) = h_update_worktree h a path branch"
| "composite_handle h (Terminate a reason) = h_terminate h a reason"
| "composite_handle h (TransitionState a status) = h_transition_state h a status"

definition noop_handle :: "'j runtime_command \<Rightarrow> ('j, 'w) effect" where
  "noop_handle c w = (Inr (), w)"

record 'j recording_effect_handler =
  reh_recorded :: "'j runtime_command list"

definition recording_handle ::
  "'j runtime_command \<Rightarrow> ('j, 'j recording_effect_handler) effect" where
  "recording_handle c r = (Inr (), r\<lparr>reh_recorded := reh_recorded r @ [c]\<rparr>)"

definition recording_snapshot :: "'j recording_effect_handler \<Rightarrow> 'j runtime_command list" where
  "recording_snapshot r = reh_recorded r"

definition recording_clear :: "'j recording_effect_handler \<Rightarrow> 'j recording_effect_handler" where
  "recording_clear r = r\<lparr>reh_recorded := []\<rparr>"

text \<open>Handing a list of commands to a handler, one by one and in order.\<close>

fun handle_all :: "('j runtime_command \<Rightarrow> ('j, 'w) effect) \<Rightarrow> 'j runtime_command list \<Rightarrow> 'w \<Rightarrow> 'w" where
  "handle_all h [] w = w"
| "handle_all h (c # cs) w = handle_all h cs (snd (h c w))"

text \<open>What a test double promises to a test: it accepts every command and shows them in order.\<close>

locale command_recorder =
  fixes handle :: "'j runtime_command \<Rightarrow> ('j, 'w) effect"
    and shown :: "'w \<Rightarrow> 'j runtime_command list"
  assumes accepts: "fst (handle c w) = Inr ()"
    and records: "shown (snd (handle c w)) = shown w @ [c]"
begin

lemma shown_all: "shown (handle_all handle cs w) = shown w @ cs"
  by (induction cs arbitrary: w) (simp_all add: records)

end

interpretation recording: command_recorder recording_handle recording_snapshot
  by unfold_locales (simp_all add: recording_handle_def recording_snapshot_def)

lemma recording_queue_order:
  "recording_snapshot (handle_all recording_handle (fst (rq_drain (rq_extend cs rq_new))) r)
     = recording_snapshot r @ cs"
  by (simp add: recording.shown_all rq_defs)

end
