(* ===== verification/Worker.thy ===== *)
theory Worker
  imports Worker_State Transcript_Journal Runtime_Commands Guarded_Transition
begin

text \<open>
  The \<open>Worker\<close> aggregate root of \<open>agent/runtime-domain/src/worker.rs\<close>. \<open>apply\<close> is its only
  entry point for provider events: it logs the event, then changes the state through the
  guarded transition and returns the commands the runtime has to execute. An error return
  leaves the event in the transcript, as the code does, because the log is written first.
\<close>

datatype worker_error =
    InvalidTransition invalid_transition
  | InvalidEventForState string worker_state
  | InvariantViolation string

record 'j worker =
  w_agent_id :: agent_id
  w_codename :: agent_codename
  w_role :: agent_role
  w_state :: worker_state
  w_transcript :: "'j transcript_journal"
  w_assigned_task_id :: "task_id option"
  w_worktree_path :: "string option"
  w_worktree_branch :: "string option"

definition worker_new :: "agent_id \<Rightarrow> agent_codename \<Rightarrow> agent_role \<Rightarrow> 'j worker" where
  "worker_new i c r = \<lparr>w_agent_id = i, w_codename = c, w_role = r, w_state = WsIdle,
     w_transcript = tj_new, w_assigned_task_id = None, w_worktree_path = None,
     w_worktree_branch = None\<rparr>"

subsection \<open>Applying an event\<close>

text \<open>
  \<open>self.state = self.state.transition_to(target)?\<close> followed by the commands of the arm, and the
  variant guarded by \<open>!matches!(self.state, Responding { .. })\<close>.
\<close>

definition go ::
  "'j worker \<Rightarrow> worker_state \<Rightarrow> 'j runtime_command list \<Rightarrow> (worker_error + 'j runtime_command list) \<times> 'j worker"
where
  "go w target cmds = (case transition_to (w_state w) target of
      Inl e \<Rightarrow> (Inl (InvalidTransition e), w)
    | Inr s \<Rightarrow> (Inr cmds, w\<lparr>w_state := s\<rparr>))"

definition go_responding ::
  "'j worker \<Rightarrow> 'j runtime_command list \<Rightarrow> (worker_error + 'j runtime_command list) \<times> 'j worker"
where
  "go_responding w cmds =
     (if ws_is_responding (w_state w) then (Inr cmds, w) else go w (WsResponding Streaming) cmds)"

definition notify_if :: "bool \<Rightarrow> agent_id \<Rightarrow> string \<Rightarrow> 'j runtime_command list" where
  "notify_if b a msg = (if b then [NotifyUser a msg] else [])"

fun apply_logged ::
  "'j domain_event \<Rightarrow> 'j worker \<Rightarrow> (worker_error + 'j runtime_command list) \<times> 'j worker" where
  "apply_logged (EvStatus text) w =
     (if text = ''worker started'' then go w WsStarting []
      else (Inr (notify_if (str_contains text ''error'' \<or> str_contains text ''failed'')
              (w_agent_id w) text), w))"
| "apply_logged EvFinished w = go w WsCompleted [Terminate (w_agent_id w) ''completed'']"
| "apply_logged (EvError msg) w =
     go w (WsFailed msg) [NotifyUser (w_agent_id w) msg, Terminate (w_agent_id w) msg]"
| "apply_logged (EvAssistantChunk _) w = go_responding w []"
| "apply_logged (EvThinkingChunk _) w = go_responding w []"
| "apply_logged (EvExecCommandStarted _ _ _) w = go w (WsProcessingTool ''exec'') []"
| "apply_logged (EvExecCommandFinished _ _ st _ _ _) w =
     go_responding w (notify_if (st = ExecFailed \<or> st = ExecDeclined) (w_agent_id w) ''exec command failed'')"
| "apply_logged (EvExecCommandOutputDelta _ _) w = (Inr [], w)"
| "apply_logged (EvGenericToolCallStarted name _ _) w = go w (WsProcessingTool name) []"
| "apply_logged (EvGenericToolCallFinished _ _ _ ok _ _) w =
     go_responding w (notify_if (\<not> ok) (w_agent_id w) ''tool call failed'')"
| "apply_logged (EvWebSearchStarted _ _) w = go w (WsProcessingTool ''websearch'') []"
| "apply_logged (EvWebSearchFinished _ _ _) w = go_responding w []"
| "apply_logged (EvViewImage _ _) w = (Inr [], w)"
| "apply_logged (EvImageGenerationFinished _ _ _ _) w = (Inr [], w)"
| "apply_logged (EvMcpToolCallStarted _ _) w = go w (WsProcessingTool ''mcp'') []"
| "apply_logged (EvMcpToolCallFinished _ _ _ _ _ is_err) w =
     go_responding w (notify_if is_err (w_agent_id w) ''MCP tool call failed'')"
| "apply_logged (EvPatchApplyStarted _ _) w = go w (WsProcessingTool ''patch'') []"
| "apply_logged (EvPatchApplyFinished _ _ st) w =
     go_responding w (notify_if (st = PatchFailed \<or> st = PatchDeclined) (w_agent_id w) ''patch apply failed'')"
| "apply_logged (EvPatchApplyOutputDelta _ _) w = (Inr [], w)"
| "apply_logged (EvSessionHandle _) w = (Inr [], w)"
| "apply_logged (EvProviderPid _) w = (Inr [], w)"

definition worker_apply ::
  "'j worker \<Rightarrow> 'j domain_event \<Rightarrow> (worker_error + 'j runtime_command list) \<times> 'j worker" where
  "worker_apply w e = apply_logged e (w\<lparr>w_transcript := tj_append e (w_transcript w)\<rparr>)"

text \<open>A run of events; the caller drops the errors and goes on with the next event.\<close>

fun worker_run :: "'j worker \<Rightarrow> 'j domain_event list \<Rightarrow> 'j worker" where
  "worker_run w [] = w"
| "worker_run w (e # es) = worker_run (snd (worker_apply w e)) es"

subsection \<open>The other operations\<close>

definition transition_state :: "'j worker \<Rightarrow> worker_state \<Rightarrow> (worker_error + unit) \<times> 'j worker" where
  "transition_state w target = (case transition_to (w_state w) target of
      Inl e \<Rightarrow> (Inl (InvalidTransition e), w)
    | Inr s \<Rightarrow> (Inr (), w\<lparr>w_state := s\<rparr>))"

definition worker_assign_task :: "'j worker \<Rightarrow> task_id \<Rightarrow> (worker_error + unit) \<times> 'j worker" where
  "worker_assign_task w t =
     (if \<not> ws_is_idle (w_state w)
      then (Inl (InvariantViolation ''cannot assign task to non-idle worker''), w)
      else (Inr (), w\<lparr>w_assigned_task_id := Some t\<rparr>))"

definition worker_clear_task :: "'j worker \<Rightarrow> 'j worker" where
  "worker_clear_task w = w\<lparr>w_assigned_task_id := None\<rparr>"

definition set_worktree_path :: "'j worker \<Rightarrow> string \<Rightarrow> 'j worker" where
  "set_worktree_path w p = w\<lparr>w_worktree_path := Some p\<rparr>"

definition set_worktree_branch :: "'j worker \<Rightarrow> string \<Rightarrow> 'j worker" where
  "set_worktree_branch w b = w\<lparr>w_worktree_branch := Some b\<rparr>"

definition last_n_entries :: "'j worker \<Rightarrow> nat \<Rightarrow> 'j journal_entry list" where
  "last_n_entries w n = last_n n (w_transcript w)"

interpretation worker: guarded_object w_state can_transition_to transition_state
  by unfold_locales (auto simp: transition_state_def transition_to_def split: if_splits)

subsection \<open>One event\<close>

lemmas go_defs = go_def go_responding_def notify_if_def transition_to_def

lemma go_frame: "snd (go w t cs) = w \<or> snd (go w t cs) = w\<lparr>w_state := t\<rparr>"
  by (auto simp: go_defs)

lemma apply_logged_frame: "\<exists>s. snd (apply_logged e w) = w\<lparr>w_state := s\<rparr>"
proof -
  have g: "\<exists>s. snd (go w t cs) = w\<lparr>w_state := s\<rparr>" for t cs
    by (cases "can_transition_to (w_state w) t") (auto simp: go_defs intro: exI [of _ "w_state w"])
  then have r: "\<exists>s. snd (go_responding w cs) = w\<lparr>w_state := s\<rparr>" for cs
    by (auto simp: go_responding_def intro: exI [of _ "w_state w"])
  show ?thesis
    by (cases e) (auto simp: g r intro: exI [of _ "w_state w"])
qed

lemma apply_logged_error: "apply_logged e w = (Inl err, w') \<Longrightarrow> w' = w"
  by (cases e) (auto simp: go_defs split: if_splits)

lemma apply_logged_step:
  "apply_logged e w = (Inr cmds, w') \<Longrightarrow> w_state w' = w_state w \<or> ws_step (w_state w) (w_state w')"
  by (cases e) (auto simp: go_defs ws_step_can split: if_splits)

lemma worker_apply_error:
  "worker_apply w e = (Inl err, w') \<Longrightarrow> w' = w\<lparr>w_transcript := tj_append e (w_transcript w)\<rparr>"
  by (simp add: worker_apply_def apply_logged_error)

lemma worker_apply_step:
  "worker_apply w e = (Inr cmds, w') \<Longrightarrow> w_state w' = w_state w \<or> ws_step (w_state w) (w_state w')"
  by (auto simp: worker_apply_def dest!: apply_logged_step)

lemma worker_apply_transcript: "w_transcript (snd (worker_apply w e)) = tj_append e (w_transcript w)"
  using apply_logged_frame [of e "w\<lparr>w_transcript := tj_append e (w_transcript w)\<rparr>"]
  by (auto simp: worker_apply_def)

lemma worker_apply_state:
  "w_state (snd (worker_apply w e)) = w_state w \<or> ws_step (w_state w) (w_state (snd (worker_apply w e)))"
  by (cases "worker_apply w e"; cases "fst (worker_apply w e)")
     (auto dest: worker_apply_error worker_apply_step)

subsection \<open>Runs\<close>

lemma worker_run_transcript: "w_transcript (worker_run w es) = tj_append_all es (w_transcript w)"
  by (induction es arbitrary: w) (simp_all add: worker_apply_transcript)

lemma worker_run_path: "ws_step\<^sup>*\<^sup>* (w_state w) (w_state (worker_run w es))"
proof (induction es arbitrary: w)
  case Nil
  then show ?case by simp
next
  case (Cons e es)
  have "ws_step\<^sup>*\<^sup>* (w_state w) (w_state (snd (worker_apply w e)))"
    using worker_apply_state [of w e] by auto
  with Cons [of "snd (worker_apply w e)"] show ?case by (simp add: rtranclp_trans)
qed

text \<open>
  Events alone never take a worker into the operational states: blocked, paused, resting,
  waiting, finishing and stopping are entered through \<open>transition_state\<close> only.
\<close>

fun event_driven :: "worker_state \<Rightarrow> bool" where
  "event_driven WsIdle = True"
| "event_driven WsStarting = True"
| "event_driven (WsResponding sub) = (sub = Streaming)"
| "event_driven (WsProcessingTool _) = True"
| "event_driven WsCompleted = True"
| "event_driven (WsFailed _) = True"
| "event_driven _ = False"

lemma go_event_driven:
  "event_driven t \<Longrightarrow> event_driven (w_state w) \<Longrightarrow> event_driven (w_state (snd (go w t cs)))"
  by (auto simp: go_defs)

lemma apply_event_driven [preserves]:
  "event_driven (w_state w) \<Longrightarrow> event_driven (w_state (snd (worker_apply w e)))"
  by (cases e) (auto simp: worker_apply_def go_responding_def intro!: go_event_driven)

lemma worker_run_event_driven:
  "event_driven (w_state w) \<Longrightarrow> event_driven (w_state (worker_run w es))"
  by (induction es arbitrary: w) (simp_all add: preserves)

lemma terminated_stays:
  assumes "ws_is_terminal (w_state w)" and "\<not> e = EvStatus ''worker started''"
  shows "w_state (snd (worker_apply w e)) = w_state w"
  using assms
  by (cases e; cases "w_state w")
     (auto simp: worker_apply_def go_defs can_transition_to_def transition_table_def)

lemma worker_run_terminated:
  "ws_is_terminal (w_state w) \<Longrightarrow> EvStatus ''worker started'' \<notin> set es \<Longrightarrow>
   w_state (worker_run w es) = w_state w"
proof (induction es arbitrary: w)
  case Nil
  then show ?case by simp
next
  case (Cons e es)
  then have "w_state (snd (worker_apply w e)) = w_state w" by (intro terminated_stays) auto
  with Cons show ?case by simp
qed

subsection \<open>Commands\<close>

lemma apply_commands_own_agent:
  "worker_apply w e = (Inr cmds, w') \<Longrightarrow> c \<in> set cmds \<Longrightarrow> rc_agent c = w_agent_id w"
  by (cases e) (auto simp: worker_apply_def go_defs split: if_splits)

lemma apply_terminates_iff:
  assumes "worker_apply w e = (Inr cmds, w')"
  shows "(\<exists>a r. Terminate a r \<in> set cmds) \<longleftrightarrow> \<not> ws_is_terminal (w_state w) \<and> ws_is_terminal (w_state w')"
  using assms
  by (cases e; cases "w_state w")
     (auto simp: worker_apply_def go_defs can_transition_to_def transition_table_def split: if_splits)

subsection \<open>Tool calls\<close>

fun starts_tool :: "'j domain_event \<Rightarrow> string option" where
  "starts_tool (EvExecCommandStarted _ _ _) = Some ''exec''"
| "starts_tool (EvGenericToolCallStarted name _ _) = Some name"
| "starts_tool (EvWebSearchStarted _ _) = Some ''websearch''"
| "starts_tool (EvMcpToolCallStarted _ _) = Some ''mcp''"
| "starts_tool (EvPatchApplyStarted _ _) = Some ''patch''"
| "starts_tool _ = None"

lemma tool_start_accepted_iff:
  assumes "starts_tool e = Some name"
  shows "is_ok (fst (worker_apply w e)) \<longleftrightarrow> ws_is_responding (w_state w)"
  using assms
  by (cases e; cases "w_state w")
     (auto simp: worker_apply_def go_defs can_transition_to_def transition_table_def)

lemma tool_start_state:
  "starts_tool e = Some name \<Longrightarrow> is_ok (fst (worker_apply w e)) \<Longrightarrow>
   w_state (snd (worker_apply w e)) = WsProcessingTool name"
  by (cases e) (auto simp: worker_apply_def go_defs split: if_splits)

subsection \<open>Properties\<close>

text \<open>A worker and a short stream of events: a start, an answer and a tool call.\<close>

definition sample_worker :: "unit worker" where
  "sample_worker = worker_new (AgentId ''agent-1'') (AgentCodename ''alpha'') ProductOwner"

definition sample_stream :: "unit domain_event list" where
  "sample_stream = [EvStatus ''worker started'', EvAssistantChunk ''hello '', EvAssistantChunk ''world'',
     EvGenericToolCallStarted ''grep'' None None]"

lemma worker_run_snoc: "worker_run w (es @ [e]) = snd (worker_apply (worker_run w es) e)"
  by (induction es arbitrary: w) simp_all

text \<open>
  C11: Whatever events arrive, and whether they are accepted or rejected, each event of a run leaves the
  state of the worker or takes it along one legal transition; a new worker never enters the states
  that no event leads to (blocked, paused, waiting for input, resting, finishing, stopping).
\<close>

theorem worker_follows_transitions:
  "(w_state (worker_run w (es @ [e])) = w_state (worker_run w es) \<or>
    ws_step (w_state (worker_run w es)) (w_state (worker_run w (es @ [e])))) \<and>
   event_driven (w_state (worker_run (worker_new a c r) es))"
  using worker_apply_state [of "worker_run w es" e] worker_run_event_driven [of "worker_new a c r" es]
  by (simp add: worker_run_snoc worker_new_def)

text \<open>
  C20: The transcript records every event, also the rejected ones: the assistant text of the transcript
  after a run is the text before it followed by the chunks of the run in order, and the sequence
  number advances by the number of events.
\<close>

theorem worker_transcript_complete:
  "assistant_text (w_transcript (worker_run w es)) =
     assistant_text (w_transcript w) @ concat (map event_text es) \<and>
   tj_next_seq (w_transcript (worker_run w es)) = tj_next_seq (w_transcript w) + of_nat (length es)"
  by (simp add: worker_run_transcript tj_append_all_text tj_append_all_seq)

text \<open>
  A tool may start only inside a response: the event of any kind of tool is accepted exactly when
  the worker is responding, and then the worker processes that tool.
\<close>

theorem tool_starts_only_in_response:
  assumes "starts_tool e = Some name"
  shows "is_ok (fst (worker_apply w e)) = ws_is_responding (w_state w) \<and>
    (\<not> ws_is_responding (w_state w) \<or> w_state (snd (worker_apply w e)) = WsProcessingTool name)"
  using tool_start_accepted_iff [OF assms] tool_start_state [OF assms] by blast

theorem tool_starts_only_in_response_witness:
  "\<not> is_ok (fst (worker_apply sample_worker (EvGenericToolCallStarted ''grep'' None None)))"
  using tool_starts_only_in_response [of "EvGenericToolCallStarted ''grep'' None None" "''grep''" sample_worker]
  by (simp add: sample_worker_def worker_new_def)

text \<open>
  C30: The runtime is told to terminate an agent exactly when the event took its worker from a live state
  into a terminal one: never twice in a row, and never for a worker that goes on.
\<close>

theorem terminate_exactly_on_end:
  assumes "worker_apply w e = (Inr cmds, w')"
  shows "(\<exists>a r. Terminate a r \<in> set cmds) \<longleftrightarrow> \<not> ws_is_terminal (w_state w) \<and> ws_is_terminal (w_state w')"
  by (rule apply_terminates_iff [OF assms])

theorem terminate_exactly_on_end_witness:
  "\<exists>cmds w' a r. worker_apply (sample_worker\<lparr>w_state := WsResponding Streaming\<rparr>) EvFinished = (Inr cmds, w') \<and>
     Terminate a r \<in> set cmds"
proof -
  let ?w = "sample_worker\<lparr>w_state := WsResponding Streaming\<rparr>"
  obtain cmds w' where a: "worker_apply ?w EvFinished = (Inr cmds, w')" and t: "w_state w' = WsCompleted"
    by (simp add: worker_apply_def go_defs can_transition_to_def transition_table_def)
  from terminate_exactly_on_end [OF a] a t show ?thesis by auto
qed

text \<open>The commands an event produces are all addressed to the worker's own agent.\<close>

theorem commands_address_own_agent:
  assumes "worker_apply w e = (Inr cmds, w')" "c \<in> set cmds"
  shows "rc_agent c = w_agent_id w"
  by (rule apply_commands_own_agent [OF assms])

theorem commands_address_own_agent_witness:
  "\<exists>cmds w'. worker_apply sample_worker (EvStatus ''task failed'') = (Inr cmds, w') \<and>
     cmds \<noteq> [] \<and> rc_agent (hd cmds) = AgentId ''agent-1''"
proof -
  have c: "str_contains ''task failed'' ''failed''" by (simp add: starts_with_def)
  then obtain cmds w' where a: "worker_apply sample_worker (EvStatus ''task failed'') = (Inr cmds, w')"
    and n: "cmds \<noteq> []"
    by (auto simp: worker_apply_def notify_if_def)
  from commands_address_own_agent [OF a hd_in_set [OF n]] a n show ?thesis
    by (simp add: sample_worker_def worker_new_def)
qed

text \<open>
  A rejected event changes nothing of the worker but its transcript, where it is logged all the
  same; in particular the state does not move and no command is issued.
\<close>

theorem rejected_event_only_logged:
  assumes "worker_apply w e = (Inl err, w')"
  shows "w' = w\<lparr>w_transcript := tj_append e (w_transcript w)\<rparr>"
  by (rule worker_apply_error [OF assms])

theorem rejected_event_only_logged_witness:
  "\<exists>err w'. worker_apply sample_worker EvFinished = (Inl err, w') \<and> w_state w' = WsIdle"
proof -
  obtain err w' where a: "worker_apply sample_worker EvFinished = (Inl err, w')"
    by (simp add: worker_apply_def go_defs can_transition_to_def transition_table_def sample_worker_def worker_new_def)
  from rejected_event_only_logged [OF a] a show ?thesis by (simp add: sample_worker_def worker_new_def)
qed

text \<open>
  A worker that completed or failed stays there, whatever the provider still sends, until it is
  started again.
\<close>

theorem terminated_worker_stays:
  assumes "ws_is_terminal (w_state w)" "EvStatus ''worker started'' \<notin> set es"
  shows "w_state (worker_run w es) = w_state w"
  by (rule worker_run_terminated [OF assms])

theorem terminated_worker_stays_witness:
  "w_state (worker_run (sample_worker\<lparr>w_state := WsFailed ''oom''\<rparr>) (tl sample_stream)) = WsFailed ''oom''"
  using terminated_worker_stays [of "sample_worker\<lparr>w_state := WsFailed ''oom''\<rparr>" "tl sample_stream"]
  by (simp add: sample_stream_def)

end
