(* ===== verification/Backlog.thy ===== *)
theory Backlog
  imports Agent_Types "HOL-Library.Product_Lexorder" "HOL-Library.Multiset"
begin

text \<open>
  \<open>BacklogState\<close> and \<open>ThreadSafeBacklog\<close> of \<open>agent/backlog/src/backlog.rs\<close>. The four task
  operations share one shape (find the first task with the id, test its status, update it in
  place), so their lemmas are instances of lemmas about that shape. The abstract view of a
  backlog is the status of each task id; every operation refines a step of that view. Logging
  calls have no effect on the state and are left out.
\<close>

record backlog_state =
  bl_todos :: "todo_item list"
  bl_tasks :: "task_item list"

definition bl_default :: backlog_state where
  "bl_default = \<lparr>bl_todos = [], bl_tasks = []\<rparr>"

definition ready_todos :: "backlog_state \<Rightarrow> todo_item list" where
  "ready_todos b = filter (\<lambda>t. todo_status t = TodoReady) (bl_todos b)"

text \<open>\<open>sort_by(priority, then title)\<close> is a stable sort, as is \<^const>\<open>sort_key\<close>.\<close>

definition todo_key :: "todo_item \<Rightarrow> u8 \<times> string" where
  "todo_key t = (todo_priority t, todo_title t)"

definition push_todo :: "todo_item \<Rightarrow> backlog_state \<Rightarrow> backlog_state" where
  "push_todo t b = b\<lparr>bl_todos := sort_key todo_key (bl_todos b @ [t])\<rparr>"

definition push_task :: "task_item \<Rightarrow> backlog_state \<Rightarrow> backlog_state" where
  "push_task t b = b\<lparr>bl_tasks := bl_tasks b @ [t]\<rparr>"

definition find_todo :: "string \<Rightarrow> backlog_state \<Rightarrow> todo_item option" where
  "find_todo i b = find (\<lambda>t. todo_id t = i) (bl_todos b)"

definition find_task :: "string \<Rightarrow> backlog_state \<Rightarrow> task_item option" where
  "find_task i b = find (\<lambda>t. ti_id t = i) (bl_tasks b)"

definition can_assign_task :: "string \<Rightarrow> backlog_state \<Rightarrow> bool" where
  "can_assign_task i b =
     (case find_task i b of Some t \<Rightarrow> ti_status t = TaskReady | None \<Rightarrow> False)"

subsection \<open>Status operations\<close>

text \<open>The shape shared by the four operations: \<open>find_task_mut\<close>, guard, update, \<open>return true\<close>.\<close>

definition guarded_task_update ::
  "(task_status \<Rightarrow> bool) \<Rightarrow> (task_item \<Rightarrow> task_item) \<Rightarrow> string \<Rightarrow> backlog_state \<Rightarrow> bool \<times> backlog_state"
where
  "guarded_task_update guard upd i b =
     (case find_task i b of
        Some t \<Rightarrow>
          if guard (ti_status t)
          then (True, b\<lparr>bl_tasks := update_first (\<lambda>t. ti_id t = i) upd (bl_tasks b)\<rparr>)
          else (False, b)
      | None \<Rightarrow> (False, b))"

definition start_task :: "string \<Rightarrow> backlog_state \<Rightarrow> bool \<times> backlog_state" where
  "start_task i = guarded_task_update (\<lambda>s. s = TaskReady) (\<lambda>t. t\<lparr>ti_status := TaskRunning\<rparr>) i"

definition complete_task :: "string \<Rightarrow> string option \<Rightarrow> backlog_state \<Rightarrow> bool \<times> backlog_state" where
  "complete_task i summary = guarded_task_update (\<lambda>s. s = TaskRunning \<or> s = TaskVerifying)
     (\<lambda>t. t\<lparr>ti_status := TaskDone, ti_result_summary := summary\<rparr>) i"

definition fail_task :: "string \<Rightarrow> string \<Rightarrow> backlog_state \<Rightarrow> bool \<times> backlog_state" where
  "fail_task i err = guarded_task_update (\<lambda>s. s = TaskRunning)
     (\<lambda>t. t\<lparr>ti_status := TaskFailed, ti_result_summary := Some err\<rparr>) i"

definition block_task :: "string \<Rightarrow> string \<Rightarrow> backlog_state \<Rightarrow> bool \<times> backlog_state" where
  "block_task i reason = guarded_task_update (\<lambda>s. s = TaskRunning)
     (\<lambda>t. t\<lparr>ti_status := TaskBlocked, ti_result_summary := Some reason\<rparr>) i"

definition ready_tasks :: "backlog_state \<Rightarrow> task_item list" where
  "ready_tasks b = filter (\<lambda>t. ti_status t = TaskReady) (bl_tasks b)"

definition running_tasks :: "backlog_state \<Rightarrow> task_item list" where
  "running_tasks b = filter (\<lambda>t. ti_status t = TaskRunning) (bl_tasks b)"

text \<open>\<open>*counts.entry(task.status).or_insert(0) += 1\<close> over the tasks.\<close>

definition bump_status :: "task_item \<Rightarrow> (task_status \<times> nat) list \<Rightarrow> (task_status \<times> nat) list" where
  "bump_status t counts =
     AList.update (ti_status t)
       (Suc (case map_of counts (ti_status t) of Some n \<Rightarrow> n | None \<Rightarrow> 0)) counts"

definition count_tasks_by_status :: "backlog_state \<Rightarrow> (task_status \<times> nat) list" where
  "count_tasks_by_status b = fold bump_status (bl_tasks b) []"

lemmas task_op_defs = start_task_def complete_task_def fail_task_def block_task_def

subsection \<open>Todos stay sorted\<close>

definition todos_sorted :: "backlog_state \<Rightarrow> bool" where
  "todos_sorted b \<longleftrightarrow> sorted (map todo_key (bl_todos b))"

lemma push_todo_sorted: "todos_sorted (push_todo t b)"
  by (simp add: todos_sorted_def push_todo_def)

lemma push_todo_mset: "mset (bl_todos (push_todo t b)) = add_mset t (mset (bl_todos b))"
  by (simp add: push_todo_def)

text \<open>Pushing keeps the arrival order of the todos with equal priority and title.\<close>

lemma push_todo_stable:
  "filter (\<lambda>u. todo_key u = k) (bl_todos (push_todo t b)) =
     filter (\<lambda>u. todo_key u = k) (bl_todos b @ [t])"
  unfolding push_todo_def by (simp add: sort_key_stable del: filter_append)

subsection \<open>The shape of a status operation\<close>

lemma guarded_update_result:
  "fst (guarded_task_update g upd i b) \<longleftrightarrow> (\<exists>t. find_task i b = Some t \<and> g (ti_status t))"
  by (simp add: guarded_task_update_def split: option.split)

lemma guarded_update_rejected:
  "\<not> fst (guarded_task_update g upd i b) \<Longrightarrow> snd (guarded_task_update g upd i b) = b"
  by (auto simp: guarded_task_update_def split: option.splits if_splits)

lemma guarded_update_todos: "bl_todos (snd (guarded_task_update g upd i b)) = bl_todos b"
  by (simp add: guarded_task_update_def split: option.split)

lemma guarded_update_ids:
  assumes "\<And>t. ti_id (upd t) = ti_id t"
  shows "map ti_id (bl_tasks (snd (guarded_task_update g upd i b))) = map ti_id (bl_tasks b)"
  using assms by (simp add: guarded_task_update_def map_update_first_id split: option.split)

lemma guarded_update_find:
  assumes "\<And>t. ti_id (upd t) = ti_id t" and "find_task i b = Some t" and "g (ti_status t)"
  shows "find_task i (snd (guarded_task_update g upd i b)) = Some (upd t)"
  using assms find_update_first [of "\<lambda>t. ti_id t = i" "bl_tasks b" t upd]
  by (simp add: guarded_task_update_def find_task_def)

lemma guarded_update_other:
  assumes "\<And>t. ti_id (upd t) = ti_id t" and "j \<noteq> i"
  shows "find_task j (snd (guarded_task_update g upd i b)) = find_task j b"
  using assms find_update_first_other [of "\<lambda>t. ti_id t = j" upd "\<lambda>t. ti_id t = i" "bl_tasks b"]
  by (simp add: guarded_task_update_def find_task_def split: option.split)

subsection \<open>Refinement of the status view\<close>

text \<open>The abstract backlog: task ids with their status, and the life cycle of one task.\<close>

definition status_view :: "backlog_state \<Rightarrow> string \<Rightarrow> task_status option" where
  "status_view b i = map_option ti_status (find_task i b)"

inductive task_step :: "task_status \<Rightarrow> task_status \<Rightarrow> bool" where
  ts_start: "task_step TaskReady TaskRunning"
| ts_complete: "task_step TaskRunning TaskDone"
| ts_verified: "task_step TaskVerifying TaskDone"
| ts_fail: "task_step TaskRunning TaskFailed"
| ts_block: "task_step TaskRunning TaskBlocked"

inductive_simps task_step_from_final:
  "task_step TaskDone s" "task_step TaskFailed s" "task_step TaskBlocked s"
inductive_simps task_step_from_ready: "task_step TaskReady s"

datatype task_request =
  ReqStart string | ReqComplete string "string option" | ReqFail string string | ReqBlock string string

fun request_id :: "task_request \<Rightarrow> string" where
  "request_id (ReqStart i) = i"
| "request_id (ReqComplete i _) = i"
| "request_id (ReqFail i _) = i"
| "request_id (ReqBlock i _) = i"

fun request_target :: "task_request \<Rightarrow> task_status" where
  "request_target (ReqStart _) = TaskRunning"
| "request_target (ReqComplete _ _) = TaskDone"
| "request_target (ReqFail _ _) = TaskFailed"
| "request_target (ReqBlock _ _) = TaskBlocked"

fun perform :: "task_request \<Rightarrow> backlog_state \<Rightarrow> bool \<times> backlog_state" where
  "perform (ReqStart i) b = start_task i b"
| "perform (ReqComplete i s) b = complete_task i s b"
| "perform (ReqFail i e) b = fail_task i e b"
| "perform (ReqBlock i r) b = block_task i r b"

fun perform_all :: "task_request list \<Rightarrow> backlog_state \<Rightarrow> backlog_state" where
  "perform_all [] b = b"
| "perform_all (r # rs) b = perform_all rs (snd (perform r b))"

lemma perform_shape:
  "\<exists>g upd. perform r = guarded_task_update g upd (request_id r) \<and>
     (\<forall>t. ti_id (upd t) = ti_id t \<and> ti_status (upd t) = request_target r) \<and>
     (\<forall>s. g s \<longleftrightarrow> task_step s (request_target r))"
proof (cases r)
  case (ReqStart i)
  show ?thesis unfolding ReqStart
    by (intro exI conjI ext, simp add: start_task_def) (auto simp: task_step.simps)
next
  case (ReqComplete i s)
  show ?thesis unfolding ReqComplete
    by (intro exI conjI ext, simp add: complete_task_def) (auto simp: task_step.simps)
next
  case (ReqFail i e)
  show ?thesis unfolding ReqFail
    by (intro exI conjI ext, simp add: fail_task_def) (auto simp: task_step.simps)
next
  case (ReqBlock i e)
  show ?thesis unfolding ReqBlock
    by (intro exI conjI ext, simp add: block_task_def) (auto simp: task_step.simps)
qed

text \<open>One operation is one step of the view: exactly the named task moves, or nothing does.\<close>

lemma perform_refines:
  "status_view (snd (perform r b)) =
     (if fst (perform r b) then (status_view b)(request_id r \<mapsto> request_target r) else status_view b)"
proof -
  obtain g upd where sh: "perform r = guarded_task_update g upd (request_id r)"
    and ids: "\<And>t. ti_id (upd t) = ti_id t" and tgt: "\<And>t. ti_status (upd t) = request_target r"
    using perform_shape [of r] by blast
  show ?thesis
  proof (cases "fst (perform r b)")
    case True
    then obtain t where "find_task (request_id r) b = Some t" "g (ti_status t)"
      by (auto simp: sh guarded_update_result)
    with True show ?thesis
      by (auto simp: fun_eq_iff status_view_def sh ids tgt guarded_update_find guarded_update_other)
  next
    case False
    then show ?thesis by (simp add: sh guarded_update_rejected)
  qed
qed

lemma perform_accepts:
  "fst (perform r b) \<longleftrightarrow> (\<exists>s. status_view b (request_id r) = Some s \<and> task_step s (request_target r))"
proof -
  obtain g upd where sh: "perform r = guarded_task_update g upd (request_id r)"
    and g: "\<And>s. g s \<longleftrightarrow> task_step s (request_target r)"
    using perform_shape [of r] by blast
  show ?thesis by (auto simp: sh guarded_update_result g status_view_def)
qed

lemma perform_view_step:
  "status_view b i = Some s \<Longrightarrow>
   \<exists>s'. status_view (snd (perform r b)) i = Some s' \<and> (s' = s \<or> task_step s s')"
  using perform_accepts [of r b] by (auto simp: perform_refines)

lemma perform_all_view_path:
  "status_view b i = Some s \<Longrightarrow>
   \<exists>s'. status_view (perform_all rs b) i = Some s' \<and> task_step\<^sup>*\<^sup>* s s'"
proof (induction rs arbitrary: b s)
  case Nil
  then show ?case by simp
next
  case (Cons r rs)
  from perform_view_step [OF Cons.prems, of r] obtain s1
    where s1: "status_view (snd (perform r b)) i = Some s1" and st: "s1 = s \<or> task_step s s1"
    by blast
  from Cons.IH [OF s1] obtain s2
    where "status_view (perform_all rs (snd (perform r b))) i = Some s2" and "task_step\<^sup>*\<^sup>* s1 s2"
    by blast
  with st show ?case by (auto intro: converse_rtranclp_into_rtranclp)
qed

lemma perform_all_ids: "map ti_id (bl_tasks (perform_all rs b)) = map ti_id (bl_tasks b)"
proof (induction rs arbitrary: b)
  case Nil
  then show ?case by simp
next
  case (Cons r rs)
  obtain g upd where "perform r = guarded_task_update g upd (request_id r)"
    and "\<And>t. ti_id (upd t) = ti_id t"
    using perform_shape [of r] by blast
  with Cons [of "snd (perform r b)"] show ?case by (simp add: guarded_update_ids)
qed

lemma task_final: "task_step\<^sup>*\<^sup>* s s' \<Longrightarrow> s \<in> {TaskDone, TaskFailed, TaskBlocked} \<Longrightarrow> s' = s"
  by (induction rule: converse_rtranclp_induct) (auto simp: task_step_from_final)

subsection \<open>Counting\<close>

lemma bump_status_lookup:
  "map_of (bump_status t counts) =
     (map_of counts)(ti_status t \<mapsto> Suc (case map_of counts (ti_status t) of Some n \<Rightarrow> n | None \<Rightarrow> 0))"
  by (simp add: bump_status_def update_conv')

lemma fold_bump_lookup:
  "map_of (fold bump_status ts counts) s =
     (let k = length (filter (\<lambda>t. ti_status t = s) ts)
      in if k = 0 then map_of counts s
         else Some (k + (case map_of counts s of Some n \<Rightarrow> n | None \<Rightarrow> 0)))"
  by (induction ts arbitrary: counts) (auto simp: bump_status_lookup Let_def split: option.splits)

lemma count_tasks_lookup:
  "map_of (count_tasks_by_status b) s =
     (let k = length (filter (\<lambda>t. ti_status t = s) (bl_tasks b)) in if k = 0 then None else Some k)"
  by (simp add: count_tasks_by_status_def fold_bump_lookup Let_def)

subsection \<open>The thread-safe wrapper\<close>

text \<open>
  \<open>Mutex::try_lock\<close> answers with the guard, with \<open>WouldBlock\<close> while another thread holds the
  lock, or with \<open>Poisoned\<close> (and the data) after a panic. The answers of the \<open>n\<close>-th attempt and
  of the \<open>n\<close>-th clock reading are given by the environment, as functions of \<open>n\<close>.
\<close>

datatype try_lock = Acquired | WouldBlock | Poisoned

partial_function (option) read_poll ::
  "(nat \<Rightarrow> instant) \<Rightarrow> (nat \<Rightarrow> try_lock) \<Rightarrow> instant \<Rightarrow> nat \<Rightarrow> bool option" where
  "read_poll now lock deadline n =
     (if now (Suc n) < deadline then
        (case lock n of
           Acquired \<Rightarrow> Some True
         | WouldBlock \<Rightarrow> read_poll now lock deadline (Suc n)
         | Poisoned \<Rightarrow> Some True)
      else Some False)"

text \<open>
  \<open>read_with_timeout\<close>: reading 0 of the clock fixes the deadline, reading \<open>n + 1\<close> is the loop
  test before attempt \<open>n\<close>. \<open>Some True\<close> is a guard, \<open>Some False\<close> the \<open>None\<close> of the code, and
  \<open>None\<close> that the loop does not end.
\<close>

definition read_with_timeout ::
  "(nat \<Rightarrow> instant) \<Rightarrow> (nat \<Rightarrow> try_lock) \<Rightarrow> nat \<Rightarrow> bool option" where
  "read_with_timeout now lock timeout = read_poll now lock (now 0 + timeout) 0"

fun clone_inner :: "try_lock \<Rightarrow> backlog_state \<Rightarrow> backlog_state" where
  "clone_inner Acquired b = b"
| "clone_inner WouldBlock b = bl_default"
| "clone_inner Poisoned b = b"

fun backlog_update ::
  "try_lock \<Rightarrow> (backlog_state \<Rightarrow> backlog_state) \<Rightarrow> backlog_state \<Rightarrow> bool \<times> backlog_state" where
  "backlog_update Acquired f b = (True, f b)"
| "backlog_update WouldBlock f b = (False, b)"
| "backlog_update Poisoned f b = (False, b)"

lemma read_poll_returns:
  assumes "n \<le> m" and "deadline \<le> now (Suc m)"
  shows "\<exists>r. read_poll now lock deadline n = Some r"
  using assms
proof (induction "m - n" arbitrary: n)
  case 0
  then have "read_poll now lock deadline n = Some False" by (subst read_poll.simps) simp
  then show ?case by blast
next
  case (Suc k)
  then have "\<exists>r. read_poll now lock deadline (Suc n) = Some r"
    by (intro Suc.hyps) simp_all
  then show ?case by (subst read_poll.simps) (auto split: try_lock.split)
qed

lemma read_poll_free:
  assumes "\<And>k. lock k \<noteq> WouldBlock"
  shows "read_poll now lock deadline n = Some (now (Suc n) < deadline)"
  using assms [of n] by (subst read_poll.simps) (auto split: try_lock.split)

subsection \<open>Properties\<close>

text \<open>
  C15: The four task operations refine the life cycle of tasks: an operation succeeds exactly when the
  named task exists and its status has a step to the target, and then the status of that task, and
  of no other, becomes the target; otherwise no status changes.
\<close>

theorem backlog_refines_life_cycle:
  "fst (perform r b) = (\<exists>s. status_view b (request_id r) = Some s \<and> task_step s (request_target r)) \<and>
   status_view (snd (perform r b)) =
     (if fst (perform r b) then (status_view b)(request_id r \<mapsto> request_target r) else status_view b)"
  using perform_accepts [of r b] perform_refines [of r b] by blast

text \<open>
  Over any sequence of requests a task only moves forward in its life cycle, and a task that is done,
  failed or blocked keeps that status for ever.
\<close>

theorem task_moves_forward:
  assumes "status_view b i = Some s"
  shows "\<exists>s'. status_view (perform_all rs b) i = Some s' \<and> task_step\<^sup>*\<^sup>* s s' \<and>
    (s \<notin> {TaskDone, TaskFailed, TaskBlocked} \<or> s' = s)"
  using perform_all_view_path [OF assms, of rs] task_final [of s] by blast

theorem task_moves_forward_witness:
  "\<exists>s'. status_view (perform_all [ReqStart ''t1''] \<lparr>bl_todos = [], bl_tasks =
      [\<lparr>ti_id = ''t1'', ti_todo_id = ''d1'', ti_objective = [], ti_scope = [], ti_constraints = [], ti_verification_plan = [],
        ti_status = TaskDone, ti_result_summary = None\<rparr>]\<rparr>) ''t1'' = Some s' \<and> s' = TaskDone"
  using task_moves_forward [of "\<lparr>bl_todos = [], bl_tasks =
      [\<lparr>ti_id = ''t1'', ti_todo_id = ''d1'', ti_objective = [], ti_scope = [], ti_constraints = [], ti_verification_plan = [],
        ti_status = TaskDone, ti_result_summary = None\<rparr>]\<rparr>" "''t1''" TaskDone "[ReqStart ''t1'']"]
  by (simp add: status_view_def find_task_def)

text \<open>
  Pushing a todo keeps the list sorted by priority and title, adds exactly that todo, and keeps the
  arrival order among todos with the same key.
\<close>

theorem push_todo_sorts:
  "todos_sorted (push_todo t b) \<and> mset (bl_todos (push_todo t b)) = add_mset t (mset (bl_todos b)) \<and>
   filter (\<lambda>u. todo_key u = k) (bl_todos (push_todo t b)) = filter (\<lambda>u. todo_key u = k) (bl_todos b @ [t])"
  by (simp add: push_todo_sorted push_todo_mset push_todo_stable del: filter_append)

text \<open>
  The counts by status are exact: a status is a key exactly when some task has it, and its value is
  the number of tasks that have it.
\<close>

theorem counts_exact:
  "map_of (count_tasks_by_status b) s =
     (let k = length (filter (\<lambda>t. ti_status t = s) (bl_tasks b)) in if k = 0 then None else Some k)"
  by (rule count_tasks_lookup)

text \<open>
  C40: Reading the backlog with a time-out returns: as soon as some reading of the clock is past the
  deadline, the polling loop has ended, with or without the lock.
\<close>

theorem read_with_timeout_returns:
  assumes "now 0 + timeout \<le> now (Suc m)"
  shows "\<exists>r. read_with_timeout now lock timeout = Some r"
  unfolding read_with_timeout_def by (rule read_poll_returns [of 0 m]) (simp_all add: assms)

theorem read_with_timeout_returns_witness:
  "\<exists>r. read_with_timeout (\<lambda>k. 5 * k) (\<lambda>_. WouldBlock) 20 = Some r"
  by (rule read_with_timeout_returns [of _ _ 4]) simp

end
