(* ===== verification/Dsl_Command.thy ===== *)
theory Dsl_Command
  imports Rust_Strings
begin

text \<open>
  The vocabulary of the decision DSL: the grouped commands of
  \<open>decision-dsl/src/ext/command.rs\<close> that a tree can emit, and the errors of
  \<open>decision-dsl/src/ext/error.rs\<close> with the texts their \<open>Display\<close> prints.
\<close>

type_synonym u32 = "32 word"

datatype agent_command =
    ApproveAndContinue
  | Reflect string
  | SendInstruction (si_prompt: string) (si_target_agent: string)
  | TerminateAgent string
  | WakeUp

datatype git_command =
    Commit (gc_message: string) (gc_wip: bool)
  | Stash (gc_description: string) (gc_include_untracked: bool)
  | Discard
  | CreateBranch (gc_name: string) (gc_base: string)
  | Rebase string

datatype task_command =
    ConfirmCompletion
  | StopIfComplete string
  | PrepareStart (ps_task_id: string) (ps_description: string)

datatype human_command =
    Escalate (he_reason: string) (he_context: "string option")
  | SelectOption string
  | SkipDecision

datatype provider_command =
    RetryTool (rt_tool_name: string) (rt_args: "string option") (rt_max_attempts: u32)
  | SwitchProvider string
  | SuggestCommit (sc_message: string) (sc_mandatory: bool) (sc_reason: string)
  | PreparePr (pp_title: string) (pp_description: string) (pp_base: string) (pp_draft: bool)

datatype decision_command =
    AgentCmd agent_command
  | GitCmd git_command "string option"
  | TaskCmd task_command
  | HumanCmd human_command
  | ProviderCmd provider_command

subsection \<open>Errors\<close>

datatype session_error_kind = Unavailable | SessionTimeout | UnexpectedFormat | SendFailed

record session_error =
  se_kind :: session_error_kind
  se_message :: string

fun session_kind_debug :: "session_error_kind \<Rightarrow> string" where
  "session_kind_debug Unavailable = ''Unavailable''"
| "session_kind_debug SessionTimeout = ''Timeout''"
| "session_kind_debug UnexpectedFormat = ''UnexpectedFormat''"
| "session_kind_debug SendFailed = ''SendFailed''"

datatype parse_error =
    YamlSyntax string
  | UnknownNodeKind string
  | UnknownEvaluatorKind string
  | UnknownParserKind string
  | MissingProperty string
  | MissingRules
  | DuplicatePriority u32
  | InvalidProperty string string string
  | UnresolvedSubTree string
  | CircularSubTreeRef string
  | DuplicateName string
  | UnexpectedValue string "string list"
  | NoMatch string
  | MissingCaptureGroup nat string
  | ParseTypeMismatch string string string
  | JsonSyntax string
  | UnsupportedVersion string
  | ParseCustom string

datatype runtime_error =
    MissingVariable string
  | UnknownFilter string
  | FilterError string
  | TypeMismatch (tm_key: string) (tm_expected: string) (tm_got: string)
  | SessionFailure session_error_kind string
  | MaxRecursion
  | SubTreeNotResolved string
  | ScopeDepthExceeded
  | RuntimeCustom string

fun runtime_error_display :: "runtime_error \<Rightarrow> string" where
  "runtime_error_display (MissingVariable key) = ''missing variable: '' @ key"
| "runtime_error_display (UnknownFilter f) = ''unknown filter: '' @ f"
| "runtime_error_display (FilterError msg) = ''filter error: '' @ msg"
| "runtime_error_display (TypeMismatch key expected got) =
     ''type mismatch for '' @ [CHR 0x27] @ key @ [CHR 0x27] @ '': expected '' @ expected @ '', got '' @ got"
| "runtime_error_display (SessionFailure kind message) =
     ''session error ('' @ session_kind_debug kind @ ''): '' @ message"
| "runtime_error_display MaxRecursion = ''maximum recursion depth exceeded''"
| "runtime_error_display (SubTreeNotResolved name) =
     ''subtree '' @ [CHR 0x27] @ name @ [CHR 0x27] @ '' not resolved''"
| "runtime_error_display ScopeDepthExceeded = ''maximum scope depth exceeded''"
| "runtime_error_display (RuntimeCustom msg) = msg"

definition runtime_error_of_session :: "session_error \<Rightarrow> runtime_error" where
  "runtime_error_of_session e = SessionFailure (se_kind e) (se_message e)"

datatype dsl_error = DslParse parse_error | DslRuntime runtime_error

text \<open>A text between single quotes, as the error messages print names.\<close>

definition quoted :: "string \<Rightarrow> string" where
  "quoted s = [CHR 0x27] @ s @ [CHR 0x27]"

end
