(* ===== verification/Dsl_Blackboard.thy ===== *)
theory Dsl_Blackboard
  imports Dsl_Command Float64
begin

text \<open>
  The blackboard of \<open>decision-dsl/src/ext/blackboard.rs\<close>: typed context fields, a stack of
  variable scopes bounded by \<open>MAX_SCOPE_DEPTH\<close>, the command buffer and the stored model replies.
  \<open>get_path\<close> reads fields, variables and their parts by a dotted path. The laws that the rest of
  the interpreter relies on (what a lookup returns after a \<open>set\<close>, what a scope protects) are
  stated as the locale \<open>scoped_store\<close>, interpreted on these operations at the end.
\<close>

datatype bb_value =
    VString string
  | VInteger int
  | VFloat f64
  | VBoolean bool
  | VList "bb_value list"
  | VMap "(string \<times> bb_value) list"
  | VCommand decision_command
  | VNull

text \<open>
  Derived \<open>PartialEq\<close>: structural, except that floats compare by IEEE equality and maps do not
  depend on the order of their entries.
\<close>

fun bb_eq :: "bb_value \<Rightarrow> bb_value \<Rightarrow> bool" where
  "bb_eq (VString a) v = (case v of VString b \<Rightarrow> a = b | _ \<Rightarrow> False)"
| "bb_eq (VInteger a) v = (case v of VInteger b \<Rightarrow> a = b | _ \<Rightarrow> False)"
| "bb_eq (VFloat a) v = (case v of VFloat b \<Rightarrow> f64_eq a b | _ \<Rightarrow> False)"
| "bb_eq (VBoolean a) v = (case v of VBoolean b \<Rightarrow> a = b | _ \<Rightarrow> False)"
| "bb_eq (VList as) v = (case v of VList bs \<Rightarrow> list_all2 bb_eq as bs | _ \<Rightarrow> False)"
| "bb_eq (VMap m) v =
     (case v of
        VMap m' \<Rightarrow> length m = length m' \<and>
          list_all (\<lambda>(k, a). case map_of m' k of Some b \<Rightarrow> bb_eq a b | None \<Rightarrow> False) m
      | _ \<Rightarrow> False)"
| "bb_eq (VCommand a) v = (case v of VCommand b \<Rightarrow> a = b | _ \<Rightarrow> False)"
| "bb_eq VNull v = (case v of VNull \<Rightarrow> True | _ \<Rightarrow> False)"

subsection \<open>Records\<close>

record tool_call_record =
  tcr_name :: string
  tcr_input :: string
  tcr_output :: string

record file_change_record =
  fcr_path :: string
  fcr_change_type :: string

record project_rules =
  pr_rules :: "string list"

record decision_record =
  dr_situation :: string
  dr_command :: decision_command
  dr_timestamp :: string

record reflection_entry =
  re_sprint :: u8
  re_result :: string
  re_reasoning :: string
  re_timestamp :: instant

record decision_entry =
  dn_node_name :: string
  dn_decision :: string
  dn_outcome :: string

record sprint_goal =
  sg_sprint_number :: u8
  sg_description :: string

record blackboard =
  bb_task_description :: string
  bb_provider_output :: string
  bb_context_summary :: string
  bb_last_tool_call :: "tool_call_record option"
  bb_file_changes :: "file_change_record list"
  bb_reflection_round :: u8
  bb_max_reflection_rounds :: u8
  bb_confidence_accumulator :: f64
  bb_agent_id :: string
  bb_work_agent_id :: string
  bb_current_task_id :: string
  bb_current_story_id :: string
  bb_current_sprint :: u8
  bb_total_sprints :: u8
  bb_sprint_goals :: "sprint_goal list"
  bb_reflection_chain :: "reflection_entry list"
  bb_decision_chain :: "decision_entry list"
  bb_project_rules :: project_rules
  bb_decision_history :: "decision_record list"
  bb_scopes :: "bb_value hashmap list"
  bb_commands :: "decision_command list"
  bb_llm_responses :: "string hashmap"

definition MAX_SCOPE_DEPTH :: nat where
  "MAX_SCOPE_DEPTH = 64"

definition bb_default :: blackboard where
  "bb_default = \<lparr>bb_task_description = [], bb_provider_output = [], bb_context_summary = [],
     bb_last_tool_call = None, bb_file_changes = [], bb_reflection_round = 0,
     bb_max_reflection_rounds = 2, bb_confidence_accumulator = 0, bb_agent_id = [],
     bb_work_agent_id = [], bb_current_task_id = [], bb_current_story_id = [],
     bb_current_sprint = 1, bb_total_sprints = 1, bb_sprint_goals = [], bb_reflection_chain = [],
     bb_decision_chain = [], bb_project_rules = \<lparr>pr_rules = []\<rparr>, bb_decision_history = [],
     bb_scopes = [[]], bb_commands = [], bb_llm_responses = []\<rparr>"

subsection \<open>Scopes and variables\<close>

datatype scope_error = MaxDepthExceeded

definition push_scope :: "blackboard \<Rightarrow> (scope_error + unit) \<times> blackboard" where
  "push_scope b =
     (if MAX_SCOPE_DEPTH \<le> length (bb_scopes b) then (Inl MaxDepthExceeded, b)
      else (Inr (), b\<lparr>bb_scopes := bb_scopes b @ [[]]\<rparr>))"

definition pop_scope :: "blackboard \<Rightarrow> blackboard" where
  "pop_scope b = (if 1 < length (bb_scopes b) then b\<lparr>bb_scopes := butlast (bb_scopes b)\<rparr> else b)"

definition bb_set :: "string \<Rightarrow> bb_value \<Rightarrow> blackboard \<Rightarrow> blackboard" where
  "bb_set key v b =
     (if bb_scopes b = [] then b
      else b\<lparr>bb_scopes := butlast (bb_scopes b) @ [AList.update key v (last (bb_scopes b))]\<rparr>)"

fun scopes_get :: "string \<Rightarrow> bb_value hashmap list \<Rightarrow> bb_value option" where
  "scopes_get key [] = None"
| "scopes_get key (s # ss) = (case map_of s key of Some v \<Rightarrow> Some v | None \<Rightarrow> scopes_get key ss)"

definition bb_get :: "string \<Rightarrow> blackboard \<Rightarrow> bb_value option" where
  "bb_get key b = scopes_get key (rev (bb_scopes b))"

subsection \<open>Path access\<close>

definition int_of_u8 :: "u8 \<Rightarrow> bb_value" where
  "int_of_u8 w = VInteger (uint w)"

definition current_sprint_goal :: "blackboard \<Rightarrow> string option" where
  "current_sprint_goal b =
     map_option sg_description (find (\<lambda>g. sg_sprint_number g = bb_current_sprint b) (bb_sprint_goals b))"

text \<open>The \<open>match first\<close> of \<open>get_path\<close>: the reserved names, then the scoped variables.\<close>

definition path_root :: "blackboard \<Rightarrow> string \<Rightarrow> bb_value option" where
  "path_root b first =
    (if first = ''task_description'' then Some (VString (bb_task_description b))
     else if first = ''provider_output'' then Some (VString (bb_provider_output b))
     else if first = ''context_summary'' then Some (VString (bb_context_summary b))
     else if first = ''last_tool_call'' then
       map_option (\<lambda>t. VMap [(''name'', VString (tcr_name t)), (''input'', VString (tcr_input t)),
         (''output'', VString (tcr_output t))]) (bb_last_tool_call b)
     else if first = ''file_changes'' then
       Some (VList (map (\<lambda>fc. VMap [(''path'', VString (fcr_path fc)),
         (''change_type'', VString (fcr_change_type fc))]) (bb_file_changes b)))
     else if first = ''reflection_round'' then Some (int_of_u8 (bb_reflection_round b))
     else if first = ''max_reflection_rounds'' then Some (int_of_u8 (bb_max_reflection_rounds b))
     else if first = ''confidence_accumulator'' then Some (VFloat (bb_confidence_accumulator b))
     else if first = ''agent_id'' then Some (VString (bb_agent_id b))
     else if first = ''work_agent_id'' then Some (VString (bb_work_agent_id b))
     else if first = ''current_task_id'' then Some (VString (bb_current_task_id b))
     else if first = ''current_story_id'' then Some (VString (bb_current_story_id b))
     else if first = ''current_sprint'' then Some (int_of_u8 (bb_current_sprint b))
     else if first = ''total_sprints'' then Some (int_of_u8 (bb_total_sprints b))
     else if first = ''sprint_goals'' then
       Some (VList (map (\<lambda>g. VMap [(''sprint_number'', int_of_u8 (sg_sprint_number g)),
         (''description'', VString (sg_description g))]) (bb_sprint_goals b)))
     else if first = ''sprint_goal'' then map_option VString (current_sprint_goal b)
     else if first = ''reflection_chain'' then
       Some (VList (map (\<lambda>r. VMap [(''sprint'', int_of_u8 (re_sprint r)),
         (''result'', VString (re_result r)), (''reasoning'', VString (re_reasoning r))])
         (bb_reflection_chain b)))
     else if first = ''decision_chain'' then
       Some (VList (map (\<lambda>d. VMap [(''node_name'', VString (dn_node_name d)),
         (''decision'', VString (dn_decision d)), (''outcome'', VString (dn_outcome d))])
         (bb_decision_chain b)))
     else if first = ''llm_responses'' then
       Some (VMap (map (\<lambda>(k, v). (k, VString v)) (bb_llm_responses b)))
     else bb_get first b)"

definition reserved_names :: "string list" where
  "reserved_names = [''task_description'', ''provider_output'', ''context_summary'',
     ''last_tool_call'', ''file_changes'', ''reflection_round'', ''max_reflection_rounds'',
     ''confidence_accumulator'', ''agent_id'', ''work_agent_id'', ''current_task_id'',
     ''current_story_id'', ''current_sprint'', ''total_sprints'', ''sprint_goals'', ''sprint_goal'',
     ''reflection_chain'', ''decision_chain'', ''llm_responses'']"

text \<open>
  One further part of the path. \<open>part.parse::<usize>().ok()?\<close> and \<open>current?\<close> return None from
  the whole function; so does any later step of a None.
\<close>

fun path_step :: "string \<Rightarrow> bb_value \<Rightarrow> bb_value option" where
  "path_step part (VMap m) = map_of m part"
| "path_step part (VList l) =
     (case parse_unsigned 64 part of
        None \<Rightarrow> None
      | Some idx \<Rightarrow> if idx < length l then Some (l ! idx) else None)"
| "path_step part _ = None"

fun path_steps :: "string list \<Rightarrow> bb_value option \<Rightarrow> bb_value option" where
  "path_steps [] current = current"
| "path_steps (p # ps) current =
     (case current of None \<Rightarrow> None | Some v \<Rightarrow> path_steps ps (path_step p v))"

definition get_path :: "blackboard \<Rightarrow> string \<Rightarrow> bb_value option" where
  "get_path b path = (case split_on CHR ''.'' path of
      [] \<Rightarrow> None
    | first # parts \<Rightarrow> path_steps parts (path_root b first))"

subsection \<open>Typed access\<close>

definition get_string :: "blackboard \<Rightarrow> string \<Rightarrow> string option" where
  "get_string b key = (case get_path b key of Some (VString s) \<Rightarrow> Some s | _ \<Rightarrow> None)"

definition get_bool :: "blackboard \<Rightarrow> string \<Rightarrow> bool option" where
  "get_bool b key = (case get_path b key of Some (VBoolean x) \<Rightarrow> Some x | _ \<Rightarrow> None)"

definition get_u8 :: "blackboard \<Rightarrow> string \<Rightarrow> u8 option" where
  "get_u8 b key = (case get_path b key of
      Some (VInteger i) \<Rightarrow> if 0 \<le> i \<and> i \<le> 255 then Some (word_of_int i) else None
    | _ \<Rightarrow> None)"

definition get_f64 :: "blackboard \<Rightarrow> string \<Rightarrow> f64 option" where
  "get_f64 b key = (case get_path b key of
      Some (VFloat f) \<Rightarrow> Some f
    | Some (VInteger i) \<Rightarrow> Some (f64_of_i64 i)
    | _ \<Rightarrow> None)"

definition set_string :: "string \<Rightarrow> string \<Rightarrow> blackboard \<Rightarrow> blackboard" where
  "set_string key v = bb_set key (VString v)"

definition set_u8 :: "string \<Rightarrow> u8 \<Rightarrow> blackboard \<Rightarrow> blackboard" where
  "set_u8 key v = bb_set key (int_of_u8 v)"

definition set_f64 :: "string \<Rightarrow> f64 \<Rightarrow> blackboard \<Rightarrow> blackboard" where
  "set_f64 key v = bb_set key (VFloat v)"

definition set_bool :: "string \<Rightarrow> bool \<Rightarrow> blackboard \<Rightarrow> blackboard" where
  "set_bool key v = bb_set key (VBoolean v)"

subsection \<open>Sprints, chains, commands\<close>

definition set_sprint_config :: "u8 \<Rightarrow> sprint_goal list \<Rightarrow> blackboard \<Rightarrow> blackboard" where
  "set_sprint_config sprints goals b = b\<lparr>bb_total_sprints := sprints, bb_sprint_goals := goals\<rparr>"

definition advance_sprint :: "blackboard \<Rightarrow> blackboard" where
  "advance_sprint b =
     (if bb_current_sprint b < bb_total_sprints b
      then b\<lparr>bb_current_sprint := bb_current_sprint b + 1\<rparr> else b)"

definition is_all_sprints_completed :: "blackboard \<Rightarrow> bool" where
  "is_all_sprints_completed b \<longleftrightarrow> bb_total_sprints b < bb_current_sprint b"

definition push_reflection :: "reflection_entry \<Rightarrow> blackboard \<Rightarrow> blackboard" where
  "push_reflection r b = b\<lparr>bb_reflection_chain := bb_reflection_chain b @ [r]\<rparr>"

definition reflections_for_sprint :: "blackboard \<Rightarrow> u8 \<Rightarrow> reflection_entry list" where
  "reflections_for_sprint b sprint = filter (\<lambda>r. re_sprint r = sprint) (bb_reflection_chain b)"

definition last_of :: "'a list \<Rightarrow> 'a option" where
  "last_of xs = (if xs = [] then None else Some (last xs))"

definition last_reflection :: "blackboard \<Rightarrow> reflection_entry option" where
  "last_reflection b = last_of (bb_reflection_chain b)"

definition push_decision :: "decision_entry \<Rightarrow> blackboard \<Rightarrow> blackboard" where
  "push_decision d b = b\<lparr>bb_decision_chain := bb_decision_chain b @ [d]\<rparr>"

definition decisions_by_node :: "blackboard \<Rightarrow> string \<Rightarrow> decision_entry list" where
  "decisions_by_node b name = filter (\<lambda>d. dn_node_name d = name) (bb_decision_chain b)"

definition last_decision :: "blackboard \<Rightarrow> decision_entry option" where
  "last_decision b = last_of (bb_decision_chain b)"

definition push_command :: "decision_command \<Rightarrow> blackboard \<Rightarrow> blackboard" where
  "push_command c b = b\<lparr>bb_commands := bb_commands b @ [c]\<rparr>"

definition drain_commands :: "blackboard \<Rightarrow> decision_command list \<times> blackboard" where
  "drain_commands b = (bb_commands b, b\<lparr>bb_commands := []\<rparr>)"

definition store_llm_response :: "string \<Rightarrow> string \<Rightarrow> blackboard \<Rightarrow> blackboard" where
  "store_llm_response key v b = b\<lparr>bb_llm_responses := AList.update key v (bb_llm_responses b)\<rparr>"

definition iter_variables :: "blackboard \<Rightarrow> (string \<times> bb_value) list" where
  "iter_variables b = concat (bb_scopes b)"

lemmas bb_write_defs = bb_set_def push_command_def store_llm_response_def pop_scope_def
  push_scope_def drain_commands_def


subsection \<open>The contract of a scoped store\<close>

locale scoped_store =
  fixes lookup :: "'k \<Rightarrow> 's \<Rightarrow> 'v option"
    and store :: "'k \<Rightarrow> 'v \<Rightarrow> 's \<Rightarrow> 's"
    and push :: "'s \<Rightarrow> ('e + unit) \<times> 's"
    and pop :: "'s \<Rightarrow> 's"
    and scoped :: "'s \<Rightarrow> bool"
    and nested :: "'s \<Rightarrow> bool"
  assumes lookup_store: "scoped s \<Longrightarrow> lookup k (store k' v s) = (if k = k' then Some v else lookup k s)"
    and scoped_store: "scoped s \<Longrightarrow> scoped (store k v s)"
    and nested_store: "nested s \<Longrightarrow> nested (store k v s)"
    and nested_scoped: "nested s \<Longrightarrow> scoped s"
    and push_nested: "scoped s \<Longrightarrow> push s = (Inr (), s') \<Longrightarrow> nested s'"
    and push_lookup: "push s = (Inr (), s') \<Longrightarrow> lookup k s' = lookup k s"
    and pop_push: "push s = (Inr (), s') \<Longrightarrow> scoped s \<Longrightarrow> pop s' = s"
    and pop_store: "nested s \<Longrightarrow> pop (store k v s) = pop s"
begin

definition store_all :: "('k \<times> 'v) list \<Rightarrow> 's \<Rightarrow> 's" where
  "store_all kvs s = fold (\<lambda>(k, v). store k v) kvs s"

lemma lookup_store_all:
  "scoped s \<Longrightarrow> lookup k (store_all kvs s) =
     (case map_of (rev kvs) k of Some v \<Rightarrow> Some v | None \<Rightarrow> lookup k s)"
  by (induction kvs arbitrary: s)
     (auto simp: store_all_def lookup_store scoped_store map_add_def split: option.splits)

lemma pop_store_all: "nested s \<Longrightarrow> pop (store_all kvs s) = pop s"
  by (induction kvs arbitrary: s) (auto simp: store_all_def nested_store pop_store)

text \<open>Writes inside a pushed scope are visible there and are gone when it is popped.\<close>

lemma local_writes:
  assumes "scoped s" "push s = (Inr (), s')"
  shows "pop (store_all kvs s') = s"
    and "lookup k (store_all kvs s') = (case map_of (rev kvs) k of Some v \<Rightarrow> Some v | None \<Rightarrow> lookup k s)"
proof -
  have n: "nested s'" using assms by (rule push_nested)
  show "pop (store_all kvs s') = s" using n assms by (simp add: pop_store_all pop_push)
  show "lookup k (store_all kvs s') = (case map_of (rev kvs) k of Some v \<Rightarrow> Some v | None \<Rightarrow> lookup k s)"
    using lookup_store_all [OF nested_scoped [OF n], of k kvs] push_lookup [OF assms(2), of k]
    by (simp split: option.split)
qed

end

definition has_scope :: "blackboard \<Rightarrow> bool" where
  "has_scope b \<longleftrightarrow> bb_scopes b \<noteq> []"

definition has_inner_scope :: "blackboard \<Rightarrow> bool" where
  "has_inner_scope b \<longleftrightarrow> 1 < length (bb_scopes b)"

interpretation bb: scoped_store bb_get bb_set push_scope pop_scope has_scope has_inner_scope
proof
  fix b b' :: blackboard and k k' v
  show "bb_get k (bb_set k' v b) = (if k = k' then Some v else bb_get k b)" if "has_scope b"
    using that by (cases "bb_scopes b" rule: rev_cases)
      (auto simp: bb_get_def bb_set_def has_scope_def update_conv')
  show "has_scope (bb_set k v b)" if "has_scope b"
    using that by (simp add: bb_set_def has_scope_def)
  show "has_inner_scope (bb_set k v b)" if "has_inner_scope b"
    using that by (auto simp: bb_set_def has_inner_scope_def)
  show "has_scope b" if "has_inner_scope b"
    using that by (auto simp: has_scope_def has_inner_scope_def)
  show "has_inner_scope b'" if "has_scope b" "push_scope b = (Inr (), b')"
    using that by (auto simp: push_scope_def has_scope_def has_inner_scope_def split: if_splits)
  show "bb_get k b' = bb_get k b" if "push_scope b = (Inr (), b')"
    using that by (auto simp: push_scope_def bb_get_def split: if_splits)
  show "pop_scope b' = b" if "push_scope b = (Inr (), b')" "has_scope b"
    using that by (auto simp: push_scope_def pop_scope_def has_scope_def split: if_splits)
  show "pop_scope (bb_set k v b) = pop_scope b" if "has_inner_scope b"
    using that by (cases "bb_scopes b" rule: rev_cases)
      (auto simp: pop_scope_def bb_set_def has_inner_scope_def)
qed

subsection \<open>Scopes are bounded, paths read variables\<close>

definition scopes_ok :: "blackboard \<Rightarrow> bool" where
  "scopes_ok b \<longleftrightarrow> 1 \<le> length (bb_scopes b) \<and> length (bb_scopes b) \<le> MAX_SCOPE_DEPTH"

lemma scopes_ok_default: "scopes_ok bb_default"
  by (simp add: scopes_ok_def bb_default_def MAX_SCOPE_DEPTH_def)

lemma scopes_ok_ops [preserves]:
  "scopes_ok b \<Longrightarrow> scopes_ok (snd (push_scope b))"
  "scopes_ok b \<Longrightarrow> scopes_ok (pop_scope b)"
  "scopes_ok b \<Longrightarrow> scopes_ok (bb_set k v b)"
  by (auto simp: scopes_ok_def bb_write_defs MAX_SCOPE_DEPTH_def)

text \<open>A variable whose name is not reserved and has no dot is read back by its path.\<close>

lemma path_root_variable: "first \<notin> set reserved_names \<Longrightarrow> path_root b first = bb_get first b"
  by (simp add: reserved_names_def path_root_def)

lemma get_path_variable:
  "key \<notin> set reserved_names \<Longrightarrow> CHR ''.'' \<notin> set key \<Longrightarrow> get_path b key = bb_get key b"
  by (simp add: get_path_def split_on_no_sep path_root_variable)

lemma get_path_set:
  assumes "has_scope b" "key \<notin> set reserved_names" "CHR ''.'' \<notin> set key"
  shows "get_path (bb_set key v b) key = Some v"
  using assms by (simp add: get_path_variable bb.lookup_store)

text \<open>A reserved name is read from its field, whatever the variables hold.\<close>

lemma get_path_shadowed:
  assumes "key \<in> set reserved_names" "CHR ''.'' \<notin> set key"
  shows "get_path (bb_set key' v b) key = get_path b key"
  using assms
  by (auto simp: get_path_def split_on_no_sep reserved_names_def path_root_def bb_set_def
      current_sprint_goal_def)

subsection \<open>Sprints\<close>

lemma advance_sprint_bound:
  "bb_current_sprint b \<le> bb_total_sprints b \<Longrightarrow>
   bb_current_sprint (advance_sprint b) \<le> bb_total_sprints (advance_sprint b)"
  unfolding advance_sprint_def by (auto intro: inc_le)

lemma never_all_sprints_completed:
  "bb_current_sprint b \<le> bb_total_sprints b \<Longrightarrow>
   \<not> is_all_sprints_completed ((advance_sprint ^^ n) b)"
proof -
  assume le: "bb_current_sprint b \<le> bb_total_sprints b"
  have "bb_current_sprint ((advance_sprint ^^ n) b) \<le> bb_total_sprints ((advance_sprint ^^ n) b)"
    by (induction n) (simp_all add: le advance_sprint_bound)
  then show ?thesis by (simp add: is_all_sprints_completed_def not_less)
qed

subsection \<open>Equality of values\<close>

text \<open>Equality is symmetric on scalars and reflexive on values without a NaN.\<close>

fun nan_free :: "bb_value \<Rightarrow> bool" where
  "nan_free (VFloat f) = (\<not> f64_is_nan f)"
| "nan_free (VList vs) = list_all nan_free vs"
| "nan_free (VMap m) = (distinct (map fst m) \<and> list_all (\<lambda>(k, v). nan_free v) m)"
| "nan_free _ = True"

lemma bb_eq_refl: "nan_free v \<Longrightarrow> bb_eq v v"
proof (induction v)
  case (VList vs)
  then show ?case by (simp add: list_all2_same list_all_iff)
next
  case (VMap m)
  then show ?case by (fastforce simp: list_all_iff split_beta)
qed (simp_all add: f64_eq_refl_iff)

subsection \<open>Properties\<close>

text \<open>
  C38: Writes inside a scope are local: after opening a scope and any number of writes, a lookup finds the
  last write to the key or what was visible before, and closing the scope restores the
  blackboard exactly.
\<close>

theorem scope_writes_local:
  assumes "has_scope b" "push_scope b = (Inr (), b')"
  shows "pop_scope (bb.store_all kvs b') = b \<and>
    bb_get k (bb.store_all kvs b') = (case map_of (rev kvs) k of Some v \<Rightarrow> Some v | None \<Rightarrow> bb_get k b)"
  using bb.local_writes [OF assms] by blast

theorem scope_writes_local_witness:
  "pop_scope (bb.store_all [(''key'', VInteger 1)] (snd (push_scope bb_default))) = bb_default"
proof -
  have h: "has_scope bb_default" by (simp add: has_scope_def bb_default_def)
  have p: "push_scope bb_default = (Inr (), snd (push_scope bb_default))"
    by (simp add: push_scope_def bb_default_def MAX_SCOPE_DEPTH_def)
  from scope_writes_local [OF h p] show ?thesis by blast
qed

text \<open>
  A variable that was set is read back by its name as a path, but a variable with the name of a
  field of the blackboard never is: the field shadows it.
\<close>

theorem path_reads_variable:
  assumes "has_scope b" "CHR ''.'' \<notin> set key"
  shows "get_path (bb_set key v b) key = (if key \<in> set reserved_names then get_path b key else Some v)"
  using get_path_set [OF assms(1) _ assms(2)] get_path_shadowed [OF _ assms(2)] by simp

theorem path_reads_variable_witness:
  "get_path (bb_set ''answer'' (VInteger 42) bb_default) ''answer'' = Some (VInteger 42) \<and>
   get_path (bb_set ''agent_id'' (VInteger 42) bb_default) ''agent_id'' = get_path bb_default ''agent_id''"
proof -
  have h: "has_scope bb_default" by (simp add: has_scope_def bb_default_def)
  show ?thesis
    using path_reads_variable [OF h, of "''answer''" "VInteger 42"] path_reads_variable [OF h, of "''agent_id''" "VInteger 42"]
    by (simp add: reserved_names_def)
qed

text \<open>
  The sprint counter never passes the number of sprints, and so the test for having completed all
  sprints, which asks for a counter above that number, never becomes true.
\<close>

theorem sprints_never_completed:
  assumes "bb_current_sprint b \<le> bb_total_sprints b"
  shows "bb_current_sprint ((advance_sprint ^^ n) b) \<le> bb_total_sprints ((advance_sprint ^^ n) b) \<and>
    \<not> is_all_sprints_completed ((advance_sprint ^^ n) b)"
proof -
  have "bb_current_sprint ((advance_sprint ^^ n) b) \<le> bb_total_sprints ((advance_sprint ^^ n) b)"
    by (induction n) (simp_all add: assms advance_sprint_bound)
  with never_all_sprints_completed [OF assms] show ?thesis by blast
qed

theorem sprints_never_completed_witness:
  "\<not> is_all_sprints_completed ((advance_sprint ^^ 10) (set_sprint_config 3 [] bb_default))"
  using sprints_never_completed [of "set_sprint_config 3 [] bb_default" 10]
  by (simp add: set_sprint_config_def bb_default_def)

end
