(* ===== verification/Dsl_Externs.thy ===== *)
theory Dsl_Externs
  imports Dsl_Blackboard
begin

text \<open>
  What the decision DSL takes from other crates, collected in one record that the definitions
  receive: the regular expressions of \<open>regex\<close>, the parser of \<open>serde_json\<close>, the template engine
  \<open>minijinja\<close>, the derived \<open>Debug\<close> printers, and the shortest-digits conversions between \<open>f64\<close>
  and text. An error of one of these crates is the text its \<open>Display\<close> gives.
\<close>

text \<open>\<open>serde_json::Value\<close>; a number offers \<open>as_i64\<close> and \<open>as_f64\<close>.\<close>

datatype json =
    JString string
  | JNumber (jn_as_i64: "int option") (jn_as_f64: "f64 option")
  | JBool bool
  | JArray "json list"
  | JObject "(string \<times> json) list"
  | JNull

text \<open>The \<open>minijinja::Value\<close>s that the code builds as the context of a template.\<close>

datatype template_value =
    TvString string
  | TvInteger int
  | TvFloat f64
  | TvBool bool
  | TvList "template_value list"
  | TvMap "(string \<times> template_value) list"
  | TvNone

record externs =
  x_regex_match :: "string \<Rightarrow> string \<Rightarrow> string + bool"
  x_regex_captures :: "string \<Rightarrow> string \<Rightarrow> string + string option list option"
  x_json_parse :: "string \<Rightarrow> string + json"
  x_template_check :: "string \<Rightarrow> string + unit"
  x_template_render :: "string \<Rightarrow> template_value \<Rightarrow> string + string"
  x_f64_to_string :: "f64 \<Rightarrow> string"
  x_parse_f64 :: "string \<Rightarrow> string + f64"
  x_debug_value :: "bb_value \<Rightarrow> string"
  x_debug_command :: "decision_command \<Rightarrow> string"

text \<open>
  A concrete instance for evaluating examples: patterns match literally and have no groups,
  templates have no placeholders, JSON is rejected.
\<close>

definition literal_externs :: externs where
  "literal_externs = \<lparr>
     x_regex_match = (\<lambda>pattern text. Inr (str_contains text pattern)),
     x_regex_captures = (\<lambda>pattern text. Inr (if str_contains text pattern then Some [Some pattern] else None)),
     x_json_parse = (\<lambda>_. Inl ''no json''),
     x_template_check = (\<lambda>_. Inr ()),
     x_template_render = (\<lambda>t _. Inr t),
     x_f64_to_string = (\<lambda>_. ''float''),
     x_parse_f64 = (\<lambda>_. Inl ''no float''),
     x_debug_value = (\<lambda>_. ''value''),
     x_debug_command = (\<lambda>_. ''command'')\<rparr>"

end
