(* ===== verification/Dsl_Eval.thy ===== *)
theory Dsl_Eval
  imports Dsl_Externs
begin

text \<open>
  Conditions: the \<open>Evaluator\<close> enum of \<open>decision-dsl/src/ast/eval.rs\<close>, the script language of its
  \<open>Script\<close> variant, and the evaluator registry. The script parser evaluates while it parses; its
  state is a cursor, the byte position together with the input that is left from there. The
  loops of the parser consume input, which is their termination argument.
\<close>

subsection \<open>Scalars\<close>

definition get_bb_value :: "blackboard \<Rightarrow> string list \<Rightarrow> runtime_error + bb_value" where
  "get_bb_value b path =
     (let p = str_join ''.'' path in ok_or (MissingVariable p) (get_path b p))"

fun value_as_string :: "externs \<Rightarrow> bb_value \<Rightarrow> runtime_error + string" where
  "value_as_string x (VString s) = Inr s"
| "value_as_string x (VInteger i) = Inr (int_to_string i)"
| "value_as_string x (VFloat f) = Inr (x_f64_to_string x f)"
| "value_as_string x (VBoolean b) = Inr (bool_to_string b)"
| "value_as_string x VNull = Inr []"
| "value_as_string x _ = Inl (FilterError ''expected scalar value'')"

definition unknown_operator :: "string \<Rightarrow> runtime_error" where
  "unknown_operator op = FilterError (''unknown operator: '' @ op)"

text \<open>The six comparisons of a type with a total order (strings, integers).\<close>

definition compare_ordered :: "'a::linorder \<Rightarrow> string \<Rightarrow> 'a \<Rightarrow> runtime_error + bool" where
  "compare_ordered a op b =
     (if op = ''=='' then Inr (a = b)
      else if op = ''!='' then Inr (a \<noteq> b)
      else if op = ''<'' then Inr (a < b)
      else if op = ''<='' then Inr (a \<le> b)
      else if op = ''>'' then Inr (b < a)
      else if op = ''>='' then Inr (b \<le> a)
      else Inl (unknown_operator op))"

definition compare_floats :: "f64 \<Rightarrow> string \<Rightarrow> f64 \<Rightarrow> runtime_error + bool" where
  "compare_floats a op b =
     (let nan = f64_is_nan a \<or> f64_is_nan b
      in if op = ''=='' then Inr (if nan then False else f64_diff_below_eps a b)
         else if op = ''!='' then Inr (if nan then True else f64_diff_from_eps a b)
         else if op = ''<'' then Inr (if nan then False else f64_less a b)
         else if op = ''<='' then Inr (if nan then False else f64_less_eq a b)
         else if op = ''>'' then Inr (if nan then False else f64_less b a)
         else if op = ''>='' then Inr (if nan then False else f64_less_eq b a)
         else Inl (unknown_operator op))"

definition compare_booleans :: "bool \<Rightarrow> string \<Rightarrow> bool \<Rightarrow> runtime_error + bool" where
  "compare_booleans a op b =
     (if op = ''=='' then Inr (a = b)
      else if op = ''!='' then Inr (a \<noteq> b)
      else Inl (FilterError (''operator '' @ op @ '' not supported for booleans'')))"

definition compare_mismatch :: "externs \<Rightarrow> bb_value \<Rightarrow> string \<Rightarrow> bb_value \<Rightarrow> runtime_error" where
  "compare_mismatch x l op r = FilterError (''type mismatch in comparison: '' @ x_debug_value x l @
     '' '' @ op @ '' '' @ x_debug_value x r)"

definition compare_values :: "externs \<Rightarrow> bb_value \<Rightarrow> string \<Rightarrow> bb_value \<Rightarrow> runtime_error + bool" where
  "compare_values x l op r = (case l of
      VString a \<Rightarrow> (case r of VString b \<Rightarrow> compare_ordered a op b | _ \<Rightarrow> Inl (compare_mismatch x l op r))
    | VInteger a \<Rightarrow> (case r of
          VInteger b \<Rightarrow> compare_ordered a op b
        | VFloat b \<Rightarrow> compare_floats (f64_of_i64 a) op b
        | _ \<Rightarrow> Inl (compare_mismatch x l op r))
    | VFloat a \<Rightarrow> (case r of
          VFloat b \<Rightarrow> compare_floats a op b
        | VInteger b \<Rightarrow> compare_floats a op (f64_of_i64 b)
        | _ \<Rightarrow> Inl (compare_mismatch x l op r))
    | VBoolean a \<Rightarrow> (case r of VBoolean b \<Rightarrow> compare_booleans a op b | _ \<Rightarrow> Inl (compare_mismatch x l op r))
    | _ \<Rightarrow> Inl (compare_mismatch x l op r))"

definition dangerous_keywords :: "string list" where
  "dangerous_keywords = [''delete'', ''drop'', ''rm -rf'', ''truncate table'', ''drop table'',
     ''drop database'', ''shutdown'', ''kill'', ''format'', ''destroy'']"

definition is_dangerous :: "string \<Rightarrow> bool" where
  "is_dangerous s = list_ex (\<lambda>kw. str_contains (to_lowercase s) kw) dangerous_keywords"

subsection \<open>Cursor\<close>

type_synonym cursor = "nat \<times> string"

definition is_ident_char :: "char \<Rightarrow> bool" where
  "is_ident_char c \<longleftrightarrow> is_alphanumeric c \<or> c = CHR ''_''"

definition is_ident_start :: "char \<Rightarrow> bool" where
  "is_ident_start c \<longleftrightarrow> is_alphabetic c \<or> c = CHR ''_''"

fun take_chars :: "(char \<Rightarrow> bool) \<Rightarrow> cursor \<Rightarrow> string \<times> cursor" where
  "take_chars p (pos, s) =
     (let w = takeWhile p s in (w, (pos + length w, dropWhile p s)))"

definition skip_ws :: "cursor \<Rightarrow> cursor" where
  "skip_ws c = snd (take_chars is_whitespace c)"

fun consume_at :: "string \<Rightarrow> cursor \<Rightarrow> bool \<times> cursor" where
  "consume_at s (pos, inp) =
     (if starts_with inp s then
        (if list_all is_ident_char s \<and>
            (case drop (length s) inp of ch # _ \<Rightarrow> is_ident_char ch | [] \<Rightarrow> False)
         then (False, (pos, inp))
         else (True, (pos + length s, drop (length s) inp)))
      else (False, (pos, inp)))"

definition consume :: "string \<Rightarrow> cursor \<Rightarrow> bool \<times> cursor" where
  "consume s c = consume_at s (skip_ws c)"

definition filter_error :: "string \<Rightarrow> runtime_error + 'a" where
  "filter_error msg = Inl (FilterError msg)"

subsection \<open>Tokens\<close>

definition parse_identifier :: "cursor \<Rightarrow> runtime_error + (string \<times> cursor)" where
  "parse_identifier c0 =
     (let c = skip_ws c0
      in case snd c of
           [] \<Rightarrow> filter_error ''unexpected end of input, expected identifier''
         | ch # _ \<Rightarrow>
             if is_ident_start ch then Inr (take_chars is_ident_char c)
             else filter_error (''expected identifier at: '' @ snd c))"

text \<open>
  The \<open>\u\<close> escape reads \<open>&self.input[self.pos..self.pos.min(self.pos + 4)]\<close> and decodes four
  hexadecimal digits; \<open>push\<close> appends the UTF-8 bytes of the character.
\<close>

definition hex_digit :: "char \<Rightarrow> nat option" where
  "hex_digit c =
     (if is_ascii_digit c then Some (char_code c - 48)
      else if 97 \<le> char_code c \<and> char_code c \<le> 102 then Some (char_code c - 87)
      else if 65 \<le> char_code c \<and> char_code c \<le> 70 then Some (char_code c - 55)
      else None)"

fun hex_value :: "nat \<Rightarrow> string \<Rightarrow> nat option" where
  "hex_value acc [] = Some acc"
| "hex_value acc (c # s) = (case hex_digit c of None \<Rightarrow> None | Some d \<Rightarrow> hex_value (16 * acc + d) s)"

definition from_str_radix_16 :: "string \<Rightarrow> nat option" where
  "from_str_radix_16 s =
     (let digits = (case s of c # t \<Rightarrow> if c = CHR ''+'' then t else s | [] \<Rightarrow> s)
      in if digits = [] then None
         else case hex_value 0 digits of Some n \<Rightarrow> if n < 2 ^ 32 then Some n else None | None \<Rightarrow> None)"

definition utf8 :: "nat \<Rightarrow> string option" where
  "utf8 n =
     (if 0xD800 \<le> n \<and> n \<le> 0xDFFF \<or> 0x10FFFF < n then None
      else Some (map char_of
        (if n < 0x80 then [n]
         else if n < 0x800 then [0xC0 + n div 64, 0x80 + n mod 64]
         else if n < 0x10000 then [0xE0 + n div 4096, 0x80 + n div 64 mod 64, 0x80 + n mod 64]
         else [0xF0 + n div 262144, 0x80 + n div 4096 mod 64, 0x80 + n div 64 mod 64, 0x80 + n mod 64])))"

definition unicode_escape :: "nat \<Rightarrow> string \<Rightarrow> runtime_error + string" where
  "unicode_escape pos rest =
     (let hex = take (min pos (pos + 4) - pos) rest
      in if length hex < 4 then filter_error ''invalid unicode escape: expected 4 hex digits''
         else case from_str_radix_16 hex of
             None \<Rightarrow> filter_error ''invalid unicode escape: bad hex digits''
           | Some code \<Rightarrow> (case utf8 code of
                 None \<Rightarrow> filter_error ''invalid unicode escape: invalid code point''
               | Some ch \<Rightarrow> Inr ch))"

definition simple_escape :: "char \<Rightarrow> char" where
  "simple_escape c =
     (if c = CHR ''n'' then CHR 0x0A else if c = CHR ''t'' then CHR 0x09
      else if c = CHR ''r'' then CHR 0x0D else c)"

function string_body :: "nat \<Rightarrow> string \<Rightarrow> string \<Rightarrow> runtime_error + (string \<times> cursor)" where
  "string_body pos [] acc = Inr (acc, (pos, []))"
| "string_body pos (c # s) acc =
     (if c = CHR 0x22 then Inr (acc, (pos, c # s))
      else if c = CHR 0x5C then
        (case s of
           [] \<Rightarrow> filter_error ''unterminated escape sequence''
         | d # t \<Rightarrow>
             if d = CHR ''u'' then
               result_bind (unicode_escape (pos + 2) t) (\<lambda>u. string_body (pos + 6) (drop 4 t) (acc @ u))
             else string_body (pos + 2) t (acc @ [simple_escape d]))
      else string_body (pos + 1) s (acc @ [c]))"
  by pat_completeness auto
termination by (relation "measure (\<lambda>(_, s, _). length s)") auto

definition parse_string :: "cursor \<Rightarrow> runtime_error + (string \<times> cursor)" where
  "parse_string c0 =
     (let (opened, c) = consume [CHR 0x22] (skip_ws c0)
      in if \<not> opened then filter_error ''expected string literal''
         else result_bind (string_body (fst c) (snd c) [])
           (\<lambda>(s, c). let (closed, c) = consume [CHR 0x22] c
             in if closed then Inr (s, c) else filter_error ''unterminated string literal''))"

text \<open>The \<open>ParseIntError\<close> texts, for a string of digits with an optional sign.\<close>

definition parse_i64_error :: "string \<Rightarrow> string" where
  "parse_i64_error s =
     (if s = [] then ''cannot parse integer from empty string''
      else if parse_nat (if hd s = CHR ''-'' then tl s else s) = None then ''invalid digit found in string''
      else if hd s = CHR ''-'' then ''number too small to fit in target type''
      else ''number too large to fit in target type'')"

definition parse_number :: "externs \<Rightarrow> cursor \<Rightarrow> runtime_error + (bb_value \<times> cursor)" where
  "parse_number x c0 =
     (let c = skip_ws c0;
          (neg, c1) = consume ''-'' c;
          (digits, c2) = take_chars (\<lambda>ch. is_ascii_digit ch \<or> ch = CHR ''.'') c1;
          s = take (fst c2 - fst c) (snd c)
      in if str_contains s ''.'' then
           (case x_parse_f64 x s of
              Inr f \<Rightarrow> Inr (VFloat f, c2)
            | Inl e \<Rightarrow> filter_error (''invalid float: '' @ e))
         else
           (case parse_i64 s of
              Some i \<Rightarrow> Inr (VInteger i, c2)
            | None \<Rightarrow> filter_error (''invalid integer: '' @ parse_i64_error s)))"


definition parse_literal :: "externs \<Rightarrow> cursor \<Rightarrow> runtime_error + (bb_value \<times> cursor)" where
  "parse_literal x c0 =
     (let (is_true, c1) = consume ''true'' (skip_ws c0)
      in if is_true then Inr (VBoolean True, c1)
         else let (is_false, c2) = consume ''false'' c1
           in if is_false then Inr (VBoolean False, c2)
              else (case snd c2 of
                  [] \<Rightarrow> filter_error ''unexpected end of input, expected literal''
                | ch # _ \<Rightarrow>
                    if ch = CHR 0x22 then result_map (\<lambda>(s, c). (VString s, c)) (parse_string c2)
                    else if is_ascii_digit ch \<or> ch = CHR ''-'' then parse_number x c2
                    else filter_error (''expected literal at: '' @ snd c2)))"

subsection \<open>The tokens consume input\<close>

definition left :: "cursor \<Rightarrow> nat" where
  "left c = length (snd c)"

lemma left_take_chars: "left (snd (take_chars p c)) \<le> left c"
  by (cases c) (simp add: left_def Let_def length_dropWhile_le)

lemma left_skip_ws: "left (skip_ws c) \<le> left c"
  by (simp add: skip_ws_def left_take_chars)

lemma left_consume_at: "left (snd (consume_at s c)) \<le> left c"
  by (cases c) (simp add: left_def)

lemma left_consume: "left (snd (consume s c)) \<le> left c"
  unfolding consume_def by (rule order_trans [OF left_consume_at left_skip_ws])

lemma consume_at_consumes: "fst (consume_at s c) \<Longrightarrow> s \<noteq> [] \<Longrightarrow> left (snd (consume_at s c)) < left c"
  by (cases c) (auto simp: left_def starts_with_iff split: if_splits)

lemma consume_consumes: "fst (consume s c) \<Longrightarrow> s \<noteq> [] \<Longrightarrow> left (snd (consume s c)) < left c"
  unfolding consume_def by (rule order.strict_trans2 [OF consume_at_consumes left_skip_ws])

lemma left_string_body: "string_body pos s acc = Inr (t, c) \<Longrightarrow> left c \<le> length s"
proof (induction pos s acc rule: string_body.induct)
  case (2 pos c s acc)
  then show ?case
    by (fastforce simp: left_def result_bind_Inr_iff filter_error_def split: if_splits list.splits)
qed (auto simp: left_def)

lemma parse_identifier_consumes: "parse_identifier c = Inr (w, c') \<Longrightarrow> left c' < left c"
proof -
  assume p: "parse_identifier c = Inr (w, c')"
  obtain pos s where sw: "skip_ws c = (pos, s)" by (cases "skip_ws c")
  from p sw obtain ch t where s: "s = ch # t" "is_ident_start ch" "take_chars is_ident_char (pos, s) = (w, c')"
    by (auto simp: parse_identifier_def filter_error_def Let_def split: list.splits if_splits)
  then have "is_ident_char ch" by (auto simp: is_ident_start_def is_ident_char_def is_alphanumeric_def)
  with s have "left c' < length s"
    using length_dropWhile_le [of is_ident_char t] by (auto simp: left_def Let_def)
  also have "length s \<le> left c" using left_skip_ws [of c] by (simp add: sw left_def)
  finally show ?thesis .
qed


subsection \<open>Paths and comparisons\<close>

function parse_path_loop :: "string list \<Rightarrow> cursor \<Rightarrow> runtime_error + (string list \<times> cursor)" where
  "parse_path_loop parts c =
     result_bind (parse_identifier (skip_ws c))
       (\<lambda>(ident, c1).
          let (dot, c2) = consume ''.'' (skip_ws c1)
          in if dot then parse_path_loop (parts @ [ident]) c2 else Inr (parts @ [ident], c2))"
  by pat_completeness auto

lemma path_iteration_consumes:
  assumes "parse_identifier (skip_ws c) = Inr (w, c1)" and "(b, c2) = consume s (skip_ws c1)"
  shows "left c2 < left c"
proof -
  have "left c2 \<le> left (skip_ws c1)" using left_consume [of s "skip_ws c1"] by (simp flip: assms(2))
  also have "\<dots> \<le> left c1" by (rule left_skip_ws)
  also have "\<dots> < left (skip_ws c)" using assms(1) by (rule parse_identifier_consumes)
  also have "\<dots> \<le> left c" by (rule left_skip_ws)
  finally show ?thesis .
qed

termination parse_path_loop
  by (relation "measure (\<lambda>(_, c). left c)") (auto intro: path_iteration_consumes)

declare parse_path_loop.simps [simp del]

definition parse_path :: "cursor \<Rightarrow> runtime_error + (string list \<times> cursor)" where
  "parse_path c = parse_path_loop [] c"

text \<open>\<open>is_dangerous(path)\<close> and \<open>path.contains("text")\<close>, after the name has been read.\<close>

definition dangerous_call :: "externs \<Rightarrow> blackboard \<Rightarrow> cursor \<Rightarrow> runtime_error + (bool \<times> cursor)" where
  "dangerous_call x b c0 =
     (let (opened, c1) = consume ''('' (skip_ws c0)
      in if \<not> opened then filter_error (''expected '' @ quoted ''('' @ '' after is_dangerous'')
         else result_bind (parse_path (skip_ws c1)) (\<lambda>(path, c2).
           let (closed, c3) = consume '')'' (skip_ws c2)
           in if \<not> closed then filter_error (''expected '' @ quoted '')'' @ '' after is_dangerous argument'')
              else result_bind (get_bb_value b path) (\<lambda>v.
                result_map (\<lambda>s. (is_dangerous s, c3)) (value_as_string x v))))"

definition contains_call ::
  "externs \<Rightarrow> blackboard \<Rightarrow> string list \<Rightarrow> cursor \<Rightarrow> runtime_error + (bool \<times> cursor)" where
  "contains_call x b path c0 =
     (let (opened, c1) = consume ''('' c0
      in if \<not> opened then filter_error (''expected '' @ quoted ''('' @ '' after contains'')
         else result_bind (parse_string (skip_ws c1)) (\<lambda>(needle, c2).
           let (closed, c3) = consume '')'' (skip_ws c2)
           in if \<not> closed then filter_error (''expected '' @ quoted '')'' @ '' after contains argument'')
              else result_bind (get_bb_value b path) (\<lambda>v.
                result_map (\<lambda>s. (str_contains s needle, c3)) (value_as_string x v))))"

text \<open>The \<open>loop\<close> after the first identifier: \<open>Inl\<close> is the early \<open>return\<close> of \<open>contains\<close>.\<close>

function access_loop ::
  "externs \<Rightarrow> blackboard \<Rightarrow> string list \<Rightarrow> cursor \<Rightarrow> runtime_error + ((bool + string list) \<times> cursor)"
where
  "access_loop x b path c =
     (let (dot, c1) = consume ''.'' c
      in if \<not> dot then Inr (Inr path, c1)
         else result_bind (parse_identifier (skip_ws c1)) (\<lambda>(ident, c2).
           if ident = ''contains''
           then result_map (\<lambda>(r, c3). (Inl r, c3)) (contains_call x b path (skip_ws c2))
           else access_loop x b (path @ [ident]) (skip_ws c2)))"
  by pat_completeness auto

lemma access_iteration_consumes:
  assumes "(dot, c1) = consume s c" and "parse_identifier (skip_ws c1) = Inr (w, c2)"
  shows "left (skip_ws c2) < left c"
proof -
  have "left (skip_ws c2) \<le> left c2" by (rule left_skip_ws)
  also have "\<dots> < left (skip_ws c1)" using assms(2) by (rule parse_identifier_consumes)
  also have "\<dots> \<le> left c1" by (rule left_skip_ws)
  also have "\<dots> \<le> left c" using left_consume [of s c] by (simp flip: assms(1))
  finally show ?thesis .
qed

termination access_loop
  by (relation "measure (\<lambda>(_, _, _, c). left c)") (auto intro: access_iteration_consumes)

declare access_loop.simps [simp del]

fun try_operators :: "string list \<Rightarrow> cursor \<Rightarrow> string option \<times> cursor" where
  "try_operators [] c = (None, c)"
| "try_operators (op # ops) c =
     (let (found, c1) = consume op c in if found then (Some op, c1) else try_operators ops c1)"

definition comparison_operators :: "string list" where
  "comparison_operators = [''=='', ''!='', ''<='', ''>='', ''<'', ''>'']"

definition comparison_tail ::
  "externs \<Rightarrow> blackboard \<Rightarrow> string list \<Rightarrow> cursor \<Rightarrow> runtime_error + (bool \<times> cursor)" where
  "comparison_tail x b path c0 =
     (case try_operators comparison_operators c0 of
        (None, c1) \<Rightarrow> filter_error (''expected operator, got: '' @ snd c1)
      | (Some op, c1) \<Rightarrow>
          result_bind (parse_literal x (skip_ws c1)) (\<lambda>(literal, c2).
            result_bind (get_bb_value b path) (\<lambda>v.
              result_map (\<lambda>r. (r, c2)) (compare_values x v op literal))))"

definition parse_comparison :: "externs \<Rightarrow> blackboard \<Rightarrow> cursor \<Rightarrow> runtime_error + (bool \<times> cursor)" where
  "parse_comparison x b c0 =
     (let (dangerous, c1) = consume ''is_dangerous'' (skip_ws c0)
      in if dangerous then dangerous_call x b c1
         else result_bind (parse_identifier c1) (\<lambda>(ident, c2).
           result_bind (access_loop x b [ident] (skip_ws c2)) (\<lambda>(r, c3).
             case r of Inl res \<Rightarrow> Inr (res, c3) | Inr path \<Rightarrow> comparison_tail x b path c3)))"

subsection \<open>Comparisons consume input\<close>

definition shrinks :: "(cursor \<Rightarrow> 'e + ('a \<times> cursor)) \<Rightarrow> bool" where
  "shrinks p \<longleftrightarrow> (\<forall>c v c'. p c = Inr (v, c') \<longrightarrow> left c' \<le> left c)"

lemma shrinksD: "shrinks p \<Longrightarrow> p c = Inr (v, c') \<Longrightarrow> left c' \<le> left c"
  unfolding shrinks_def by blast

lemma consume_le: "consume s c = (b, c') \<Longrightarrow> left c' \<le> left c"
  using left_consume [of s c] by simp

lemma skip_consume_le: "consume s (skip_ws c) = (b, c') \<Longrightarrow> left c' \<le> left c"
  using consume_le left_skip_ws order_trans by blast

lemma parse_string_Inr:
  assumes "parse_string c = Inr (v, c')"
  obtains t c2 where "string_body (fst (snd (consume [CHR 0x22] (skip_ws c))))
      (snd (snd (consume [CHR 0x22] (skip_ws c)))) [] = Inr (t, c2)"
    and "c' = snd (consume [CHR 0x22] c2)"
  using assms
  by (auto simp: parse_string_def filter_error_def result_bind_Inr_iff Let_def split_beta
      split: if_split_asm)

lemma shrinks_parse_string: "shrinks parse_string"
proof -
  have "left c' \<le> left c" if p: "parse_string c = Inr (v, c')" for c v c'
  proof -
    obtain c1 where o: "snd (consume [CHR 0x22] (skip_ws c)) = c1" by simp
    from p obtain t c2 where s: "string_body (fst c1) (snd c1) [] = Inr (t, c2)"
      and cl: "c' = snd (consume [CHR 0x22] c2)"
      unfolding o [symmetric] by (rule parse_string_Inr)
    have "left c' \<le> left c2" by (simp add: cl left_consume)
    also have "\<dots> \<le> left c1" using left_string_body [OF s] by (simp add: left_def)
    also have "\<dots> \<le> left (skip_ws c)" using left_consume [of "[CHR 0x22]" "skip_ws c"] by (simp add: o)
    also have "\<dots> \<le> left c" by (rule left_skip_ws)
    finally show ?thesis .
  qed
  then show ?thesis unfolding shrinks_def by blast
qed

lemma left_try_operators: "try_operators ops c = (r, c') \<Longrightarrow> left c' \<le> left c"
proof (induction ops arbitrary: c)
  case Nil
  then show ?case by simp
next
  case (Cons op ops)
  obtain b c1 where co: "consume op c = (b, c1)" by (cases "consume op c")
  have "left c1 \<le> left c" using co by (rule consume_le)
  with Cons co show ?case by (fastforce split: if_split_asm)
qed

lemma shrinks_parse_number: "shrinks (parse_number x)"
proof -
  have "left c' \<le> left c" if p: "parse_number x c = Inr (v, c')" for c v c'
  proof -
    obtain b1 c1 where o: "consume ''-'' (skip_ws c) = (b1, c1)" by (cases "consume ''-'' (skip_ws c)")
    obtain w c2 where t: "take_chars (\<lambda>ch. is_ascii_digit ch \<or> ch = CHR ''.'') c1 = (w, c2)"
      by (cases "take_chars (\<lambda>ch. is_ascii_digit ch \<or> ch = CHR ''.'') c1")
    from p o t have "c' = c2"
      by (auto simp: parse_number_def filter_error_def Let_def
          split: if_split_asm sum.split_asm option.split_asm)
    moreover have "left c2 \<le> left c1"
      using left_take_chars [of "\<lambda>ch. is_ascii_digit ch \<or> ch = CHR ''.''" c1] by (simp add: t)
    moreover have "left c1 \<le> left c" using o by (rule skip_consume_le)
    ultimately show ?thesis by simp
  qed
  then show ?thesis unfolding shrinks_def by blast
qed

lemma shrinks_parse_literal: "shrinks (parse_literal x)"
proof -
  have "left c' \<le> left c" if p: "parse_literal x c = Inr (v, c')" for c v c'
  proof -
    obtain b1 c1 where o1: "consume ''true'' (skip_ws c) = (b1, c1)" by (cases "consume ''true'' (skip_ws c)")
    obtain b2 c2 where o2: "consume ''false'' c1 = (b2, c2)" by (cases "consume ''false'' c1")
    have le1: "left c1 \<le> left c" using o1 by (rule skip_consume_le)
    have le2: "left c2 \<le> left c1" using o2 by (rule consume_le)
    have ps: "left c3 \<le> left c2" if "parse_string c2 = Inr (s, c3)" for s c3
      using shrinks_parse_string that by (rule shrinksD)
    have pn: "left c3 \<le> left c2" if "parse_number x c2 = Inr (n, c3)" for n c3
      using shrinks_parse_number that by (rule shrinksD)
    from p o1 o2 have "c' = c1 \<or> c' = c2 \<or> left c' \<le> left c2"
      by (auto simp: parse_literal_def filter_error_def split: if_split_asm list.split_asm dest: ps pn)
    with le1 le2 show ?thesis by auto
  qed
  then show ?thesis unfolding shrinks_def by blast
qed

lemma shrinks_parse_path_loop: "parse_path_loop parts c = Inr (v, c') \<Longrightarrow> left c' \<le> left c"
proof (induction parts c rule: parse_path_loop.induct)
  case (1 parts c)
  from "1.prems" obtain w c1 where i: "parse_identifier (skip_ws c) = Inr (w, c1)"
    and r: "if fst (consume ''.'' (skip_ws c1))
            then parse_path_loop (parts @ [w]) (snd (consume ''.'' (skip_ws c1))) = Inr (v, c')
            else c' = snd (consume ''.'' (skip_ws c1))"
    unfolding parse_path_loop.simps [of parts c] result_bind_Inr_iff
    by (auto simp: split_beta Let_def split: if_split_asm)
  obtain b c2 where d: "(b, c2) = consume ''.'' (skip_ws c1)" by (metis surj_pair)
  have lt: "left c2 < left c" using i d by (rule path_iteration_consumes)
  show ?case
  proof (cases b)
    case True
    then have "left c' \<le> left c2" using "1.IH" [OF i refl d] r by (simp flip: d)
    with lt show ?thesis by simp
  next
    case False
    with r lt show ?thesis by (simp flip: d)
  qed
qed

lemma shrinks_call:
  assumes "result_bind (p (skip_ws (snd (consume s c))))
      (\<lambda>(a, c2). let (closed, c3) = consume t (skip_ws c2)
        in if \<not> closed then Inl e else result_bind (g a) (\<lambda>v. result_map (\<lambda>r. (h a r, c3)) (k v)))
      = Inr (v, c')"
    and "shrinks p"
  shows "left c' \<le> left c"
proof -
  from assms(1) obtain a c2 where pa: "p (skip_ws (snd (consume s c))) = Inr (a, c2)"
    and c': "c' = snd (consume t (skip_ws c2))"
    by (auto simp: result_bind_Inr_iff split_beta Let_def split: if_split_asm)
  have "left c' \<le> left (skip_ws c2)" by (simp add: c' left_consume)
  also have "\<dots> \<le> left c2" by (rule left_skip_ws)
  also have "\<dots> \<le> left (skip_ws (snd (consume s c)))" using assms(2) pa by (rule shrinksD)
  also have "\<dots> \<le> left (snd (consume s c))" by (rule left_skip_ws)
  also have "\<dots> \<le> left c" by (rule left_consume)
  finally show ?thesis .
qed

lemma left_dangerous_call: "dangerous_call x b c = Inr (v, c') \<Longrightarrow> left c' \<le> left c"
proof -
  assume d: "dangerous_call x b c = Inr (v, c')"
  have "shrinks parse_path"
    by (simp add: shrinks_def parse_path_def shrinks_parse_path_loop del: split_paired_All)
  with d have "left c' \<le> left (skip_ws c)"
    unfolding dangerous_call_def filter_error_def
    by (cases "fst (consume ''('' (skip_ws c))")
       (auto simp: split_beta Let_def [of "consume ''('' _"] intro: shrinks_call)
  with left_skip_ws [of c] show ?thesis by simp
qed

lemma left_contains_call: "contains_call x b path c = Inr (v, c') \<Longrightarrow> left c' \<le> left c"
  using shrinks_parse_string unfolding contains_call_def filter_error_def
  by (cases "fst (consume ''('' c)")
     (auto simp: split_beta Let_def [of "consume ''('' _"] intro: shrinks_call)

lemma left_access_loop: "access_loop x b path c = Inr (v, c') \<Longrightarrow> left c' \<le> left c"
proof (induction x b path c rule: access_loop.induct)
  case (1 x b path c)
  obtain dot c1 where d: "(dot, c1) = consume ''.'' c" by (metis surj_pair)
  have le1: "left c1 \<le> left c" using left_consume [of "''.''" c] by (simp flip: d)
  show ?case
  proof (cases dot)
    case False
    with "1.prems" le1 show ?thesis by (subst (asm) access_loop.simps) (simp flip: d)
  next
    case True
    with "1.prems" d obtain w c2 where i: "parse_identifier (skip_ws c1) = Inr (w, c2)"
      and r: "if w = ''contains'' then (\<exists>u. contains_call x b path (skip_ws c2) = Inr (u, c'))
              else access_loop x b (path @ [w]) (skip_ws c2) = Inr (v, c')"
      unfolding access_loop.simps [of x b path c]
      by (auto simp: result_bind_Inr_iff simp flip: d split: if_split_asm)
    have "left c' \<le> left (skip_ws c2)"
    proof (cases "w = ''contains''")
      case True
      with r show ?thesis by (auto dest: left_contains_call)
    next
      case False
      then show ?thesis using "1.IH" [OF d refl _ i refl] r \<open>dot\<close> by simp
    qed
    with access_iteration_consumes [OF d i] show ?thesis by simp
  qed
qed

lemma left_comparison_tail: "comparison_tail x b path c = Inr (v, c') \<Longrightarrow> left c' \<le> left c"
proof -
  assume t: "comparison_tail x b path c = Inr (v, c')"
  obtain r c1 where op: "try_operators comparison_operators c = (r, c1)"
    by (cases "try_operators comparison_operators c")
  from t op obtain l where "parse_literal x (skip_ws c1) = Inr (l, c')"
    by (auto simp: comparison_tail_def filter_error_def result_bind_Inr_iff split: option.split_asm)
  then have "left c' \<le> left (skip_ws c1)" by (rule shrinksD [OF shrinks_parse_literal])
  also have "\<dots> \<le> left c1" by (rule left_skip_ws)
  also have "\<dots> \<le> left c" using op by (rule left_try_operators)
  finally show ?thesis .
qed

lemma parse_comparison_le: "parse_comparison x b c = Inr (v, c') \<Longrightarrow> left c' \<le> left c"
proof -
  assume p: "parse_comparison x b c = Inr (v, c')"
  obtain d c1 where d: "consume ''is_dangerous'' (skip_ws c) = (d, c1)"
    by (cases "consume ''is_dangerous'' (skip_ws c)")
  have le1: "left c1 \<le> left c" using d by (rule skip_consume_le)
  show ?thesis
  proof (cases d)
    case True
    with p d have "left c' \<le> left c1" by (simp add: parse_comparison_def left_dangerous_call)
    with le1 show ?thesis by simp
  next
    case False
    with p d obtain w c2 r c3 where i: "parse_identifier c1 = Inr (w, c2)"
      and a: "access_loop x b [w] (skip_ws c2) = Inr (r, c3)"
      and t: "(case r of Inl res \<Rightarrow> Inr (res, c3) | Inr path \<Rightarrow> comparison_tail x b path c3) = Inr (v, c')"
      by (auto simp: parse_comparison_def result_bind_Inr_iff)
    have "left c' \<le> left c3" using t by (auto split: sum.split_asm dest: left_comparison_tail)
    also have "\<dots> \<le> left (skip_ws c2)" using a by (rule left_access_loop)
    also have "\<dots> \<le> left c2" by (rule left_skip_ws)
    also have "\<dots> \<le> left c1" using parse_identifier_consumes [OF i] by simp
    finally show ?thesis using le1 by simp
  qed
qed

subsection \<open>Expressions\<close>

text \<open>\<open>&&\<close> and \<open>||\<close> have one precedence and both operands are always evaluated.\<close>

function expr_loop :: "externs \<Rightarrow> blackboard \<Rightarrow> bool \<Rightarrow> cursor \<Rightarrow> runtime_error + bool" where
  "expr_loop x b res c =
     (let (conj, c1) = consume ''&&'' (skip_ws c)
      in if conj then
           result_bind (parse_comparison x b c1) (\<lambda>(rhs, c2). expr_loop x b (res \<and> rhs) c2)
         else let (disj, c2) = consume ''||'' c1
           in if disj then
                result_bind (parse_comparison x b c2) (\<lambda>(rhs, c3). expr_loop x b (res \<or> rhs) c3)
              else Inr res)"
  by pat_completeness auto

lemma connective_consumes:
  assumes "(True, c1) = consume s c" and "s \<noteq> []" and "parse_comparison x b c1 = Inr (v, c2)"
  shows "left c2 < left c"
  using parse_comparison_le [OF assms(3)] consume_consumes [of s c] assms(2)
  by (simp flip: assms(1))

lemma expr_iteration_consumes:
  assumes "(True, c1) = consume ''&&'' (skip_ws c)" and "parse_comparison x b c1 = Inr (v, c2)"
  shows "left c2 < left c"
  using connective_consumes [OF assms(1) _ assms(2)] left_skip_ws [of c] by simp

lemma expr_iteration_consumes':
  assumes "(False, c1) = consume ''&&'' (skip_ws c)" and "(True, c2) = consume ''||'' c1"
    and "parse_comparison x b c2 = Inr (v, c3)"
  shows "left c3 < left c"
proof -
  have "left c3 < left c1" using connective_consumes [OF assms(2) _ assms(3)] by simp
  also have "\<dots> \<le> left c" using assms(1) [symmetric] by (rule skip_consume_le)
  finally show ?thesis .
qed

termination expr_loop
  by (relation "measure (\<lambda>(_, _, _, c). left c)")
     (auto intro: expr_iteration_consumes expr_iteration_consumes')

declare expr_loop.simps [simp del]

definition parse_expr :: "externs \<Rightarrow> blackboard \<Rightarrow> cursor \<Rightarrow> runtime_error + bool" where
  "parse_expr x b c =
     result_bind (parse_comparison x b c) (\<lambda>(res, c1). expr_loop x b res c1)"

definition evaluate_script :: "externs \<Rightarrow> string \<Rightarrow> blackboard \<Rightarrow> runtime_error + bool" where
  "evaluate_script x expr b = parse_expr x b (0, expr)"

subsection \<open>Evaluators\<close>

datatype evaluator =
    OutputContains (oc_pattern: string) (oc_case_sensitive: bool)
  | SituationIs string
  | ReflectionRoundUnder u8
  | VariableIs (vi_key: string) (vi_expected: bb_value)
  | RegexMatch string
  | Script string
  | OrOf "evaluator list"
  | AndOf "evaluator list"
  | NotOf evaluator
  | CustomEvaluator string "bb_value hashmap"

fun any_ok :: "('a \<Rightarrow> 'e + bool) \<Rightarrow> 'a list \<Rightarrow> 'e + bool" where
  "any_ok f [] = Inr False"
| "any_ok f (x # xs) = result_bind (f x) (\<lambda>b. if b then Inr True else any_ok f xs)"

fun all_ok :: "('a \<Rightarrow> 'e + bool) \<Rightarrow> 'a list \<Rightarrow> 'e + bool" where
  "all_ok f [] = Inr True"
| "all_ok f (x # xs) = result_bind (f x) (\<lambda>b. if \<not> b then Inr False else all_ok f xs)"

lemma any_all_cong [fundef_cong]:
  "xs = ys \<Longrightarrow> (\<And>x. x \<in> set ys \<Longrightarrow> f x = g x) \<Longrightarrow> any_ok f xs = any_ok g ys"
  "xs = ys \<Longrightarrow> (\<And>x. x \<in> set ys \<Longrightarrow> f x = g x) \<Longrightarrow> all_ok f xs = all_ok g ys"
  by (induction ys arbitrary: xs) (auto intro!: result_bind_cong)

fun evaluate :: "externs \<Rightarrow> evaluator \<Rightarrow> blackboard \<Rightarrow> runtime_error + bool" where
  "evaluate x (OutputContains pattern case_sensitive) b =
     (if case_sensitive then Inr (str_contains (bb_provider_output b) pattern)
      else Inr (str_contains (to_lowercase (bb_provider_output b)) (to_lowercase pattern)))"
| "evaluate x (SituationIs situation) b = Inr (bb_task_description b = situation)"
| "evaluate x (ReflectionRoundUnder m) b = Inr (bb_reflection_round b < m)"
| "evaluate x (VariableIs key expected) b =
     result_map (\<lambda>actual. bb_eq actual expected) (ok_or (MissingVariable key) (get_path b key))"
| "evaluate x (RegexMatch pattern) b =
     map_err (\<lambda>e. FilterError (''RegexMatch: '' @ e)) (x_regex_match x pattern (bb_provider_output b))"
| "evaluate x (Script expression) b = evaluate_script x expression b"
| "evaluate x (OrOf conditions) b = any_ok (\<lambda>c. evaluate x c b) conditions"
| "evaluate x (AndOf conditions) b = all_ok (\<lambda>c. evaluate x c b) conditions"
| "evaluate x (NotOf condition) b = result_map Not (evaluate x condition b)"
| "evaluate x (CustomEvaluator name params) b =
     Inl (FilterError (''custom evaluator '' @ quoted name @ '' not registered''))"

subsection \<open>Boolean laws\<close>

lemma any_ok_not: "any_ok (\<lambda>c. result_map Not (f c)) xs = result_map Not (all_ok f xs)"
  by (induction xs) (auto simp: result_bind_Inr_iff, case_tac "f a", auto)

lemma all_ok_not: "all_ok (\<lambda>c. result_map Not (f c)) xs = result_map Not (any_ok f xs)"
  by (induction xs) (auto simp: result_bind_Inr_iff, case_tac "f a", auto)

lemma any_ok_map: "any_ok f (map g xs) = any_ok (\<lambda>x. f (g x)) xs"
  by (induction xs) (auto intro: result_bind_cong)

lemma all_ok_map: "all_ok f (map g xs) = all_ok (\<lambda>x. f (g x)) xs"
  by (induction xs) (auto intro: result_bind_cong)

text \<open>The first condition that does not answer the neutral value decides; the rest is not evaluated.\<close>

lemma any_ok_first:
  "any_ok f xs = (case dropWhile (\<lambda>a. f a = Inr False) xs of [] \<Rightarrow> Inr False | y # _ \<Rightarrow> f y)"
proof (induction xs)
  case Nil
  then show ?case by simp
next
  case (Cons a xs)
  then show ?case by (cases "f a") auto
qed

lemma all_ok_first:
  "all_ok f xs = (case dropWhile (\<lambda>a. f a = Inr True) xs of [] \<Rightarrow> Inr True | y # _ \<Rightarrow> f y)"
proof (induction xs)
  case Nil
  then show ?case by simp
next
  case (Cons a xs)
  then show ?case by (cases "f a") auto
qed

subsection \<open>Comparisons across number types\<close>

lemma compare_mixed_exact:
  assumes "\<bar>i\<bar> < 2 ^ 53" "\<bar>j\<bar> < 2 ^ 53"
  shows "compare_values x (VInteger i) op (VFloat (f64_of_i64 j)) = compare_values x (VInteger i) op (VInteger j)"
    and "compare_values x (VFloat (f64_of_i64 i)) op (VInteger j) = compare_values x (VInteger i) op (VInteger j)"
proof -
  note n = f64_of_i64_finite(1) [OF assms(1)] f64_of_i64_finite(1) [OF assms(2)]
  note c = f64_of_i64_compare [OF assms] f64_of_i64_compare [OF assms(2,1)]
  have "compare_floats (f64_of_i64 i) op (f64_of_i64 j) = compare_ordered i op j"
    by (auto simp: compare_floats_def compare_ordered_def n c)
  then show "compare_values x (VInteger i) op (VFloat (f64_of_i64 j)) = compare_values x (VInteger i) op (VInteger j)"
    and "compare_values x (VFloat (f64_of_i64 i)) op (VInteger j) = compare_values x (VInteger i) op (VInteger j)"
    by (simp_all add: compare_values_def)
qed

lemma compare_same_infinity:
  assumes "f64_is_infinite a"
  shows "compare_floats a ''=='' a = Inr False" "compare_floats a ''!='' a = Inr False"
    "compare_floats a ''<='' a = Inr True"
  using assms
  by (auto simp: compare_floats_def f64_diff_below_eps_def f64_diff_from_eps_def f64_diff_is_nan_def
      f64_less_eq_def f64_is_nan_def f64_is_infinite_def)

subsection \<open>String literals\<close>

text \<open>The literal of a string: quotes, backslashes and the three control characters are escaped.\<close>

definition escape_char :: "char \<Rightarrow> string" where
  "escape_char c =
     (if c = CHR 0x22 \<or> c = CHR 0x5C then [CHR 0x5C, c]
      else if c = CHR 0x0A then [CHR 0x5C, CHR ''n'']
      else if c = CHR 0x09 then [CHR 0x5C, CHR ''t'']
      else if c = CHR 0x0D then [CHR 0x5C, CHR ''r'']
      else [c])"

definition string_literal :: "string \<Rightarrow> string" where
  "string_literal s = CHR 0x22 # concat (map escape_char s) @ [CHR 0x22]"

lemma escape_char_body:
  "string_body pos (escape_char c @ s) acc = string_body (pos + length (escape_char c)) s (acc @ [c])"
  by (simp add: escape_char_def simple_escape_def)

lemma string_body_escaped:
  "string_body pos (concat (map escape_char s) @ CHR 0x22 # rest) acc =
     Inr (acc @ s, (pos + length (concat (map escape_char s)), CHR 0x22 # rest))"
proof (induction s arbitrary: pos acc)
  case Nil
  then show ?case by simp
next
  case (Cons c s)
  show ?case by (simp only: list.map concat.simps append_assoc escape_char_body Cons.IH) simp
qed

lemma skip_ws_quote: "skip_ws (pos, CHR 0x22 # s) = (pos, CHR 0x22 # s)"
  by (simp add: skip_ws_def is_whitespace_def char_code_def)

lemma consume_quote: "consume [CHR 0x22] (pos, CHR 0x22 # s) = (True, (pos + 1, s))"
  by (simp add: consume_def skip_ws_quote starts_with_def is_ident_char_def is_alphanumeric_def
      is_alphabetic_def is_ascii_digit_def char_code_def)

lemma parse_string_literal:
  "parse_string (pos, string_literal s @ rest) =
     Inr (s, (pos + length (string_literal s), rest))"
  by (simp add: parse_string_def string_literal_def skip_ws_quote consume_quote string_body_escaped)

lemma unicode_escape_fails:
  "unicode_escape pos s = filter_error ''invalid unicode escape: expected 4 hex digits''"
  by (simp add: unicode_escape_def)

lemma string_body_unicode:
  "\<forall>c \<in> set pre. c \<noteq> CHR 0x22 \<and> c \<noteq> CHR 0x5C \<Longrightarrow>
   string_body pos (pre @ CHR 0x5C # CHR ''u'' # s) acc =
     filter_error ''invalid unicode escape: expected 4 hex digits''"
proof (induction pre arbitrary: pos acc)
  case Nil
  then show ?case by (simp add: unicode_escape_fails filter_error_def)
qed simp

subsection \<open>Properties\<close>

text \<open>
  The boolean evaluators obey De Morgan's laws, errors included: negating an \<open>Or\<close> is the \<open>And\<close> of the
  negations and the other way round, also in which condition's error is reported.
\<close>

theorem evaluators_de_morgan:
  "evaluate x (NotOf (OrOf cs)) b = evaluate x (AndOf (map NotOf cs)) b \<and>
   evaluate x (NotOf (AndOf cs)) b = evaluate x (OrOf (map NotOf cs)) b"
  by (simp add: all_ok_map any_ok_map all_ok_not any_ok_not)

text \<open>
  C37: The literal of a string is read back as the string, and the reader stops right behind it:
  quotes, backslashes, newlines, tabs and carriage returns survive their escapes.
\<close>

theorem string_literal_roundtrip:
  "parse_string (pos, string_literal s @ rest) = Inr (s, (pos + length (string_literal s), rest))"
  by (rule parse_string_literal)

text \<open>
  A unicode escape is never accepted: a literal whose first escape is a backslash and \<open>u\<close> is an
  error, whatever four digits follow.
\<close>

theorem unicode_escape_always_fails:
  assumes "\<forall>c \<in> set pre. c \<noteq> CHR 0x22 \<and> c \<noteq> CHR 0x5C"
  shows "parse_string (pos, CHR 0x22 # pre @ CHR 0x5C # CHR ''u'' # s) =
    filter_error ''invalid unicode escape: expected 4 hex digits''"
  by (simp add: parse_string_def skip_ws_quote consume_quote string_body_unicode [OF assms] filter_error_def)

theorem unicode_escape_always_fails_witness:
  "parse_string (0, CHR 0x22 # ''a'' @ CHR 0x5C # CHR ''u'' # ''0041'' @ [CHR 0x22]) =
    filter_error ''invalid unicode escape: expected 4 hex digits''"
  by (rule unicode_escape_always_fails) simp

text \<open>
  Numbers compare by value across the two number types: an integer and a float that stands for an
  integer compare like the integers, for every operator, as long as both are below \<open>2^53\<close>.
\<close>

theorem mixed_comparison_exact:
  assumes "\<bar>i\<bar> < 2 ^ 53" "\<bar>j\<bar> < 2 ^ 53"
  shows "compare_values x (VInteger i) op (VFloat (f64_of_i64 j)) = compare_values x (VInteger i) op (VInteger j) \<and>
    compare_values x (VFloat (f64_of_i64 i)) op (VInteger j) = compare_values x (VInteger i) op (VInteger j)"
  using compare_mixed_exact [OF assms] by blast

theorem mixed_comparison_exact_witness:
  "compare_values literal_externs (VInteger 3) ''<'' (VFloat (f64_of_i64 4)) = Inr True"
  using mixed_comparison_exact [of 3 4 literal_externs "''<''"] by (simp add: compare_values_def compare_ordered_def)

text \<open>
  On an infinity \<open>==\<close> and \<open>!=\<close> are both false against itself, because the difference that both
  compare with the tolerance is NaN; \<open><=\<close> is true.
\<close>

theorem infinity_neither_equal_nor_different:
  assumes "f64_is_infinite a"
  shows "compare_values x (VFloat a) ''=='' (VFloat a) = Inr False \<and>
    compare_values x (VFloat a) ''!='' (VFloat a) = Inr False \<and>
    compare_values x (VFloat a) ''<='' (VFloat a) = Inr True"
  using compare_same_infinity [OF assms] by (simp add: compare_values_def)

theorem infinity_neither_equal_nor_different_witness:
  "compare_values literal_externs (VFloat 0x7FF0000000000000) ''!='' (VFloat 0x7FF0000000000000) = Inr False"
proof -
  have "f64_is_infinite 0x7FF0000000000000" by (simp add: f64_is_infinite_def f64_exp_def f64_frac_def)
  from infinity_neither_equal_nor_different [OF this] show ?thesis by simp
qed

end
