(* ===== verification/Dsl_Output.thy ===== *)
theory Dsl_Output
  imports Dsl_Eval
begin

text \<open>
  Reading a model's reply: the \<open>OutputParser\<close> enum of \<open>decision-dsl/src/ast/parser_out.rs\<close>, the
  conversion of JSON values, and the two registries (\<open>EvaluatorRegistry\<close> of \<open>eval.rs\<close> and
  \<open>OutputParserRegistry\<close>), which share a shape: a table of named factories over a parameter map.
\<close>

datatype field_type = FtString | FtInteger | FtFloat | FtBoolean

record structured_field =
  sf_name :: string
  sf_field_type :: field_type
  sf_group :: nat

datatype output_parser =
    EnumParser (ep_values: "string list") (ep_case_sensitive: bool)
  | StructuredParser string "structured_field list"
  | JsonParser "json option"
  | CommandParser "(string \<times> decision_command) list"
  | CustomParser string "bb_value hashmap"

subsection \<open>JSON\<close>

definition insert_all :: "(string \<times> 'v) list \<Rightarrow> 'v hashmap \<Rightarrow> 'v hashmap" where
  "insert_all kvs m = fold (\<lambda>(k, v) m. AList.update k v m) kvs m"

fun json_to_blackboard :: "json \<Rightarrow> bb_value" where
  "json_to_blackboard (JString s) = VString s"
| "json_to_blackboard (JNumber i f) =
     (case i of Some n \<Rightarrow> VInteger n | None \<Rightarrow> VFloat (case f of Some d \<Rightarrow> d | None \<Rightarrow> 0))"
| "json_to_blackboard (JBool b) = VBoolean b"
| "json_to_blackboard (JArray arr) = VList (map json_to_blackboard arr)"
| "json_to_blackboard (JObject ob) = VMap (insert_all (map (\<lambda>(k, v). (k, json_to_blackboard v)) ob) [])"
| "json_to_blackboard JNull = VNull"

fun json_value_to_blackboard_map :: "json \<Rightarrow> runtime_error + bb_value hashmap" where
  "json_value_to_blackboard_map (JObject ob) =
     Inr (insert_all (map (\<lambda>(k, v). (k, json_to_blackboard v)) ob) [])"
| "json_value_to_blackboard_map _ = Inl (FilterError ''JSON parser expects a top-level object'')"

subsection \<open>Parsing a reply\<close>

definition for_field :: "string \<Rightarrow> string \<Rightarrow> string \<Rightarrow> runtime_error" where
  "for_field ty s name =
     FilterError (''cannot parse '' @ ty @ '' from '' @ quoted s @ '' for field '' @ quoted name)"

definition parse_field :: "externs \<Rightarrow> structured_field \<Rightarrow> string \<Rightarrow> runtime_error + bb_value" where
  "parse_field x f s = (case sf_field_type f of
      FtString \<Rightarrow> Inr (VString s)
    | FtInteger \<Rightarrow> result_map VInteger (ok_or (for_field ''integer'' s (sf_name f)) (parse_i64 s))
    | FtFloat \<Rightarrow> result_map VFloat (map_err (\<lambda>_. for_field ''float'' s (sf_name f)) (x_parse_f64 x s))
    | FtBoolean \<Rightarrow> result_map VBoolean (ok_or (for_field ''boolean'' s (sf_name f)) (parse_bool s)))"

text \<open>\<open>Captures::get\<close> is None for a group that does not exist or took no part in the match.\<close>

definition capture :: "string option list \<Rightarrow> nat \<Rightarrow> string option" where
  "capture caps i = (if i < length caps then caps ! i else None)"

fun parse_fields ::
  "externs \<Rightarrow> string option list \<Rightarrow> structured_field list \<Rightarrow> bb_value hashmap \<Rightarrow>
   runtime_error + bb_value hashmap"
where
  "parse_fields x caps [] m = Inr m"
| "parse_fields x caps (f # fs) m =
     result_bind
       (ok_or (FilterError (''capture group '' @ nat_to_string (sf_group f) @ '' not found for field ''
          @ quoted (sf_name f))) (capture caps (sf_group f)))
       (\<lambda>s. result_bind (parse_field x f s) (\<lambda>v. parse_fields x caps fs (AList.update (sf_name f) v m)))"

definition enum_matches :: "string list \<Rightarrow> bool \<Rightarrow> string \<Rightarrow> bool" where
  "enum_matches values case_sensitive trimmed =
     (if case_sensitive then list_ex (\<lambda>v. v = trimmed) values
      else list_ex (\<lambda>v. to_lowercase v = to_lowercase trimmed) values)"

definition parse_reply :: "externs \<Rightarrow> output_parser \<Rightarrow> string \<Rightarrow> runtime_error + bb_value hashmap" where
  "parse_reply x p raw = (case p of
      EnumParser values case_sensitive \<Rightarrow>
        (if enum_matches values case_sensitive (trim raw) then Inr [(''value'', VString (trim raw))]
         else Inl (FilterError (''input '' @ quoted (trim raw) @ '' did not match any enum value'')))
    | StructuredParser pattern specs \<Rightarrow>
        result_bind
          (map_err (\<lambda>e. FilterError (''invalid regex pattern: '' @ e)) (x_regex_captures x pattern raw))
          (\<lambda>m. result_bind (ok_or (FilterError ''input did not match structured pattern'') m)
            (\<lambda>caps. parse_fields x caps specs []))
    | JsonParser schema \<Rightarrow>
        result_bind (map_err (\<lambda>e. FilterError (''invalid JSON: '' @ e)) (x_json_parse x raw))
          json_value_to_blackboard_map
    | CommandParser mapping \<Rightarrow>
        result_map (\<lambda>cmd. [(''__command'', VCommand cmd)])
          (ok_or (FilterError (''unknown command key '' @ quoted (trim raw))) (map_of mapping (trim raw)))
    | CustomParser name params \<Rightarrow>
        Inl (FilterError (''custom parser '' @ quoted name @ '' cannot be evaluated without registry'')))"

subsection \<open>Registries\<close>

type_synonym ('e, 'a) registry = "(string \<times> (bb_value hashmap \<Rightarrow> 'e + 'a)) list"

definition register ::
  "string \<Rightarrow> (bb_value hashmap \<Rightarrow> 'e + 'a) \<Rightarrow> ('e, 'a) registry \<Rightarrow> ('e, 'a) registry" where
  "register name factory reg = AList.update name factory reg"

text \<open>\<open>EvaluatorRegistry\<close>: a required parameter of the right type, or an error.\<close>

fun as_string :: "bb_value \<Rightarrow> string option" where
  "as_string (VString s) = Some s"
| "as_string _ = None"

fun as_boolean :: "bb_value \<Rightarrow> bool option" where
  "as_boolean (VBoolean b) = Some b"
| "as_boolean _ = None"

fun as_integer :: "bb_value \<Rightarrow> int option" where
  "as_integer (VInteger i) = Some i"
| "as_integer _ = None"

definition param :: "(bb_value \<Rightarrow> 'a option) \<Rightarrow> string \<Rightarrow> bb_value hashmap \<Rightarrow> 'a option" where
  "param get key params = Option.bind (map_of params key) get"

definition requires :: "string \<Rightarrow> string \<Rightarrow> runtime_error" where
  "requires kind key = FilterError (kind @ '' requires '' @ quoted key @ '' param'')"

definition evaluator_builtins :: "(runtime_error, evaluator) registry" where
  "evaluator_builtins = [
    (''OutputContains'', \<lambda>params.
       result_map (\<lambda>p. OutputContains p (case param as_boolean ''caseSensitive'' params of Some b \<Rightarrow> b | None \<Rightarrow> False))
         (ok_or (requires ''OutputContains'' ''pattern'') (param as_string ''pattern'' params))),
    (''SituationIs'', \<lambda>params.
       result_map SituationIs
         (ok_or (requires ''SituationIs'' ''situationType'') (param as_string ''situationType'' params))),
    (''ReflectionRoundUnder'', \<lambda>params.
       result_map (\<lambda>i. ReflectionRoundUnder (word_of_int i))
         (ok_or (requires ''ReflectionRoundUnder'' ''max'') (param as_integer ''max'' params))),
    (''VariableIs'', \<lambda>params.
       result_bind (ok_or (requires ''VariableIs'' ''key'') (param as_string ''key'' params))
         (\<lambda>k. result_map (VariableIs k)
           (ok_or (requires ''VariableIs'' ''expected'') (map_of params ''expected'')))),
    (''RegexMatch'', \<lambda>params.
       result_map RegexMatch
         (ok_or (requires ''RegexMatch'' ''pattern'') (param as_string ''pattern'' params)))]"

definition create_evaluator ::
  "(runtime_error, evaluator) registry \<Rightarrow> string \<Rightarrow> (string \<times> bb_value) list \<Rightarrow> evaluator option" where
  "create_evaluator reg name params =
     Option.bind (map_of reg name)
       (\<lambda>factory. case factory (insert_all params []) of Inr e \<Rightarrow> Some e | Inl _ \<Rightarrow> None)"

text \<open>\<open>OutputParserRegistry\<close>: missing parameters get defaults.\<close>

definition field_type_of :: "string \<Rightarrow> field_type option" where
  "field_type_of s =
     (if s = ''string'' \<or> s = ''String'' then Some FtString
      else if s = ''integer'' \<or> s = ''Integer'' then Some FtInteger
      else if s = ''float'' \<or> s = ''Float'' then Some FtFloat
      else if s = ''boolean'' \<or> s = ''Boolean'' then Some FtBoolean
      else None)"

definition unwrap_or :: "'a \<Rightarrow> 'a option \<Rightarrow> 'a" where
  "unwrap_or d v = (case v of Some a \<Rightarrow> a | None \<Rightarrow> d)"

fun structured_field_of :: "bb_value \<Rightarrow> structured_field option" where
  "structured_field_of (VMap m) = Some \<lparr>
     sf_name = unwrap_or [] (param as_string ''name'' m),
     sf_field_type = unwrap_or FtString (Option.bind (param as_string ''type'' m) field_type_of),
     sf_group = nat (unwrap_or 0 (param as_integer ''group'' m) mod 2 ^ 64)\<rparr>"
| "structured_field_of _ = None"

fun list_filter_map :: "(bb_value \<Rightarrow> 'a option) \<Rightarrow> bb_value \<Rightarrow> 'a list option" where
  "list_filter_map f (VList l) = Some (List.map_filter f l)"
| "list_filter_map f _ = None"

definition parser_builtins :: "(parse_error, output_parser) registry" where
  "parser_builtins = [
    (''Enum'', \<lambda>params. Inr (EnumParser
       (unwrap_or [] (param (list_filter_map as_string) ''values'' params))
       (unwrap_or True (param as_boolean ''caseSensitive'' params)))),
    (''Structured'', \<lambda>params. Inr (StructuredParser
       (unwrap_or [] (param as_string ''pattern'' params))
       (unwrap_or [] (param (list_filter_map structured_field_of) ''fields'' params)))),
    (''Json'', \<lambda>params. Inr (JsonParser None)),
    (''Command'', \<lambda>params. Inr (CommandParser []))]"

definition create_parser ::
  "(parse_error, output_parser) registry \<Rightarrow> string \<Rightarrow> (string \<times> bb_value) list \<Rightarrow>
   parse_error + output_parser" where
  "create_parser reg name params =
     result_bind (ok_or (UnknownParserKind name) (map_of reg name)) (\<lambda>creator. creator (insert_all params []))"

subsection \<open>What a parser can return\<close>

lemma insert_all_lookup: "map_of (insert_all kvs m) k =
    (case map_of (rev kvs) k of Some v \<Rightarrow> Some v | None \<Rightarrow> map_of m k)"
  by (induction kvs arbitrary: m)
     (auto simp: insert_all_def update_conv' map_add_def split: option.splits)

lemma enum_reply:
  assumes "parse_reply x (EnumParser values cs) raw = Inr m"
  shows "m = [(''value'', VString (trim raw))]"
    and "\<exists>v \<in> set values. if cs then v = trim raw else to_lowercase v = to_lowercase (trim raw)"
  using assms by (auto simp: parse_reply_def enum_matches_def list_ex_iff split: if_splits)

lemma command_reply:
  "parse_reply x (CommandParser mapping) raw = Inr m \<longleftrightarrow>
     (\<exists>c. map_of mapping (trim raw) = Some c \<and> m = [(''__command'', VCommand c)])"
  by (cases "map_of mapping (trim raw)") (auto simp: parse_reply_def)





subsection \<open>Properties\<close>



end
