(* ===== verification/Dsl_Node.thy ===== *)
theory Dsl_Node
  imports Dsl_Output
begin

text \<open>
  Behaviour-tree nodes: \<open>decision-dsl/src/ast/node.rs\<close>. Each constructor has the fields of the
  node struct it wraps, the volatile ones (\<open>#[serde(skip)]\<close>) included. \<open>reset\<close> clears the volatile
  fields, so two nodes with equal \<open>reset\<close> are the same tree in different execution states.
\<close>

datatype node_status = Success | Failure | Running

fun status_debug :: "node_status \<Rightarrow> string" where
  "status_debug Success = ''Success''"
| "status_debug Failure = ''Failure''"
| "status_debug Running = ''Running''"

datatype parallel_policy = AllSuccess | AnySuccess | Majority

record set_mapping =
  sm_key :: string
  sm_field :: string

datatype node =
    Selector string "node list" (n_active_child: "nat option") (n_rule_name: "string option")
      (n_rule_priority: "u32 option") (n_matched: bool)
  | Sequence string "node list" (n_active_child: "nat option")
  | Parallel string parallel_policy "node list" (n_active_child: "nat option")
  | Inverter string node
  | Repeater string (n_max_attempts: u32) node (n_current: u32)
  | Cooldown string (n_duration_ms: u64) node (n_last_success: "instant option")
  | ReflectionGuard string (n_max_rounds: u8) node
  | ForceHuman string (n_reason: string) node
  | When string (n_condition: evaluator) node
  | Condition string evaluator
  | Action string decision_command "evaluator option"
  | Prompt string (n_model: "string option") (n_template: string) (n_parser: output_parser)
      (n_sets: "set_mapping list") (n_timeout_ms: u64) (n_pending: bool) (n_sent_at: "instant option")
  | SetVar string string bb_value
  | SubTree string (n_ref_name: string) (n_resolved_root: "node option")

fun node_name :: "node \<Rightarrow> string" where
  "node_name (Selector n _ _ _ _ _) = n"
| "node_name (Sequence n _ _) = n"
| "node_name (Parallel n _ _ _) = n"
| "node_name (Inverter n _) = n"
| "node_name (Repeater n _ _ _) = n"
| "node_name (Cooldown n _ _ _) = n"
| "node_name (ReflectionGuard n _ _) = n"
| "node_name (ForceHuman n _ _) = n"
| "node_name (When n _ _) = n"
| "node_name (Condition n _) = n"
| "node_name (Action n _ _) = n"
| "node_name (Prompt n _ _ _ _ _ _ _) = n"
| "node_name (SetVar n _ _) = n"
| "node_name (SubTree n _ _) = n"

fun node_children :: "node \<Rightarrow> node list" where
  "node_children (Selector _ cs _ _ _ _) = cs"
| "node_children (Sequence _ cs _) = cs"
| "node_children (Parallel _ _ cs _) = cs"
| "node_children (Inverter _ c) = [c]"
| "node_children (Repeater _ _ c _) = [c]"
| "node_children (Cooldown _ _ c _) = [c]"
| "node_children (ReflectionGuard _ _ c) = [c]"
| "node_children (ForceHuman _ _ c) = [c]"
| "node_children (When _ _ c) = [c]"
| "node_children (SubTree _ _ root) = (case root of Some r \<Rightarrow> [r] | None \<Rightarrow> [])"
| "node_children _ = []"

fun node_reset :: "node \<Rightarrow> node" where
  "node_reset (Selector n cs a rn rp m) = Selector n (map node_reset cs) None rn rp False"
| "node_reset (Sequence n cs a) = Sequence n (map node_reset cs) None"
| "node_reset (Parallel n p cs a) = Parallel n p (map node_reset cs) None"
| "node_reset (Inverter n c) = Inverter n (node_reset c)"
| "node_reset (Repeater n mx c cur) = Repeater n mx (node_reset c) 0"
| "node_reset (Cooldown n d c l) = Cooldown n d (node_reset c) None"
| "node_reset (ReflectionGuard n mx c) = ReflectionGuard n mx (node_reset c)"
| "node_reset (ForceHuman n r c) = ForceHuman n r (node_reset c)"
| "node_reset (When n e c) = When n e (node_reset c)"
| "node_reset (Condition n e) = Condition n e"
| "node_reset (Action n cmd w) = Action n cmd w"
| "node_reset (Prompt n m t p s tm pd sa) = Prompt n m t p s tm False None"
| "node_reset (SetVar n k v) = SetVar n k v"
| "node_reset (SubTree n r root) = SubTree n r (map_option node_reset root)"

text \<open>The height of the tree, which bounds the depth of the recursion of an execution.\<close>

fun node_height :: "node \<Rightarrow> nat" where
  "node_height (Selector n cs a rn rp m) = Suc (Max (set (0 # map node_height cs)))"
| "node_height (Sequence n cs a) = Suc (Max (set (0 # map node_height cs)))"
| "node_height (Parallel n p cs a) = Suc (Max (set (0 # map node_height cs)))"
| "node_height (Inverter n c) = Suc (node_height c)"
| "node_height (Repeater n mx c cur) = Suc (node_height c)"
| "node_height (Cooldown n d c l) = Suc (node_height c)"
| "node_height (ReflectionGuard n mx c) = Suc (node_height c)"
| "node_height (ForceHuman n r c) = Suc (node_height c)"
| "node_height (When n e c) = Suc (node_height c)"
| "node_height (SubTree n r root) = (case root of Some c \<Rightarrow> Suc (node_height c) | None \<Rightarrow> 1)"
| "node_height _ = 1"

lemma height_pos: "0 < node_height nd"
  by (cases nd) (auto split: option.split)

lemma height_children: "node_height nd = Suc (Max (set (0 # map node_height (node_children nd))))"
  by (cases nd) (auto split: option.split)

lemma height_le_iff: "node_height nd \<le> Suc n \<longleftrightarrow> (\<forall>c \<in> set (node_children nd). node_height c \<le> n)"
  unfolding height_children [of nd] by simp

lemma reset_idem [simp]: "node_reset (node_reset nd) = node_reset nd"
  by (induction nd) (auto simp: option.map_comp comp_def intro: option.map_cong)

lemma name_reset [simp]: "node_name (node_reset nd) = node_name nd"
  by (cases nd) simp_all

lemma children_reset: "node_children (node_reset nd) = map node_reset (node_children nd)"
  by (cases nd) (auto split: option.split)

lemma height_reset [simp]: "node_height (node_reset nd) = node_height nd"
proof (induction nd)
  case (SubTree n r root)
  then show ?case by (cases root) auto
qed (simp_all add: comp_def cong: map_cong)

lemma reset_eq_height: "node_reset a = node_reset b \<Longrightarrow> node_height a = node_height b"
  by (metis height_reset)

lemma reset_eq_name: "node_reset a = node_reset b \<Longrightarrow> node_name a = node_name b"
  by (metis name_reset)

end
