(* ===== verification/Dsl_Template.thy ===== *)
theory Dsl_Template
  imports Dsl_Externs
begin

text \<open>
  Templates: \<open>decision-dsl/src/ast/template.rs\<close>. The engine is a parameter; the two filters the
  code registers, the context it builds from the blackboard, and the rendering of every text
  field of a command are modelled. A command keeps its shape under rendering.
\<close>

subsection \<open>Filters\<close>

text \<open>
  \<open>slugify\<close>: lower case, characters outside \<open>[a-z0-9-]\<close> become dashes, double dashes are replaced
  once, dashes at the ends are removed. \<open>truncate\<close> cuts at a byte position.
\<close>

definition slugify :: "string \<Rightarrow> string" where
  "slugify v =
     trim_matches CHR ''-'' (replace_double CHR ''-''
       (map (\<lambda>c. if \<not> is_alphanumeric c \<and> c \<noteq> CHR ''-'' then CHR ''-'' else c) (to_lowercase v)))"

definition truncate_text :: "string \<Rightarrow> nat \<Rightarrow> string" where
  "truncate_text v n = (if length v \<le> n then v else take n v @ ''...'')"

subsection \<open>Context\<close>

fun template_value_of :: "bb_value \<Rightarrow> template_value" where
  "template_value_of (VString s) = TvString s"
| "template_value_of (VInteger i) = TvInteger i"
| "template_value_of (VFloat f) = TvFloat f"
| "template_value_of (VBoolean b) = TvBool b"
| "template_value_of (VList l) = TvList (map template_value_of l)"
| "template_value_of (VMap m) = TvMap (map (\<lambda>(k, v). (k, template_value_of v)) m)"
| "template_value_of (VCommand c) = TvString ''<command>''"
| "template_value_of VNull = TvNone"

definition tv_u8 :: "u8 \<Rightarrow> template_value" where
  "tv_u8 w = TvInteger (uint w)"

text \<open>The fields are inserted in order, then the scoped variables from the outer scope inwards.\<close>

definition field_context :: "blackboard \<Rightarrow> (string \<times> template_value) list" where
  "field_context b = [
     (''task_description'', TvString (bb_task_description b)),
     (''provider_output'', TvString (bb_provider_output b)),
     (''context_summary'', TvString (bb_context_summary b)),
     (''last_tool_call'',
        case bb_last_tool_call b of
          Some t \<Rightarrow> TvMap [(''name'', TvString (tcr_name t)), (''input'', TvString (tcr_input t)),
            (''output'', TvString (tcr_output t))]
        | None \<Rightarrow> TvNone),
     (''file_changes'', TvList (map (\<lambda>fc. TvMap [(''path'', TvString (fcr_path fc)),
        (''change_type'', TvString (fcr_change_type fc))]) (bb_file_changes b))),
     (''reflection_round'', tv_u8 (bb_reflection_round b)),
     (''max_reflection_rounds'', tv_u8 (bb_max_reflection_rounds b)),
     (''confidence_accumulator'', TvFloat (bb_confidence_accumulator b)),
     (''agent_id'', TvString (bb_agent_id b)),
     (''work_agent_id'', TvString (bb_work_agent_id b)),
     (''current_task_id'', TvString (bb_current_task_id b)),
     (''current_story_id'', TvString (bb_current_story_id b)),
     (''current_sprint'', tv_u8 (bb_current_sprint b)),
     (''total_sprints'', tv_u8 (bb_total_sprints b)),
     (''sprint_goal'', TvString (case current_sprint_goal b of Some s \<Rightarrow> s | None \<Rightarrow> [])),
     (''sprint_goals'', TvList (map (\<lambda>g. TvMap [(''sprint_number'', tv_u8 (sg_sprint_number g)),
        (''description'', TvString (sg_description g))]) (bb_sprint_goals b))),
     (''reflection_chain'', TvList (map (\<lambda>r. TvMap [(''sprint'', tv_u8 (re_sprint r)),
        (''result'', TvString (re_result r)), (''reasoning'', TvString (re_reasoning r))])
        (bb_reflection_chain b))),
     (''decision_chain'', TvList (map (\<lambda>d. TvMap [(''node_name'', TvString (dn_node_name d)),
        (''decision'', TvString (dn_decision d)), (''outcome'', TvString (dn_outcome d))])
        (bb_decision_chain b))),
     (''llm_responses'', TvMap (map (\<lambda>(k, v). (k, TvString v)) (bb_llm_responses b)))]"

definition to_template_context :: "blackboard \<Rightarrow> template_value" where
  "to_template_context b =
     TvMap (fold (\<lambda>(k, v) ctx. AList.update k (template_value_of v) ctx) (iter_variables b)
       (field_context b))"

definition render_prompt_template :: "externs \<Rightarrow> string \<Rightarrow> template_value \<Rightarrow> runtime_error + string" where
  "render_prompt_template x template ctx =
     (case x_template_check x template of
        Inl e \<Rightarrow>
          Inl (FilterError (''template syntax error in '' @
            quoted (if length template > 100 then take 100 template @ ''...'' else template) @ '': '' @ e))
      | Inr _ \<Rightarrow>
          map_err (\<lambda>e. FilterError (''template render error: '' @ e)) (x_template_render x template ctx))"

subsection \<open>Commands\<close>

text \<open>\<open>match opt { Some(s) => Some(render(s)?), None => None }\<close>\<close>

fun render_opt :: "(string \<Rightarrow> runtime_error + string) \<Rightarrow> string option \<Rightarrow> runtime_error + string option" where
  "render_opt r None = Inr None"
| "render_opt r (Some s) = result_map Some (r s)"

text \<open>The first error of the fields, in the order the code renders them.\<close>

definition render2 ::
  "(string \<Rightarrow> runtime_error + string) \<Rightarrow> (string \<Rightarrow> string \<Rightarrow> 'c) \<Rightarrow> string \<Rightarrow> string \<Rightarrow> runtime_error + 'c"
where
  "render2 r f s t = result_bind (r s) (\<lambda>s. result_map (f s) (r t))"

fun render_agent :: "(string \<Rightarrow> runtime_error + string) \<Rightarrow> agent_command \<Rightarrow> runtime_error + agent_command" where
  "render_agent r ApproveAndContinue = Inr ApproveAndContinue"
| "render_agent r (Reflect prompt) = result_map Reflect (r prompt)"
| "render_agent r (SendInstruction prompt target) = render2 r SendInstruction prompt target"
| "render_agent r (TerminateAgent reason) = result_map TerminateAgent (r reason)"
| "render_agent r WakeUp = Inr WakeUp"

fun render_git :: "(string \<Rightarrow> runtime_error + string) \<Rightarrow> git_command \<Rightarrow> runtime_error + git_command" where
  "render_git r (Commit message wip) = result_map (\<lambda>m. Commit m wip) (r message)"
| "render_git r (Stash description untracked) = result_map (\<lambda>d. Stash d untracked) (r description)"
| "render_git r Discard = Inr Discard"
| "render_git r (CreateBranch name base) = render2 r CreateBranch name base"
| "render_git r (Rebase base) = result_map Rebase (r base)"

fun render_task :: "(string \<Rightarrow> runtime_error + string) \<Rightarrow> task_command \<Rightarrow> runtime_error + task_command" where
  "render_task r ConfirmCompletion = Inr ConfirmCompletion"
| "render_task r (StopIfComplete reason) = result_map StopIfComplete (r reason)"
| "render_task r (PrepareStart task_id description) = render2 r PrepareStart task_id description"

fun render_human :: "(string \<Rightarrow> runtime_error + string) \<Rightarrow> human_command \<Rightarrow> runtime_error + human_command" where
  "render_human r (Escalate reason context) =
     result_bind (render_opt r context) (\<lambda>c. result_map (\<lambda>m. Escalate m c) (r reason))"
| "render_human r (SelectOption option_id) = result_map SelectOption (r option_id)"
| "render_human r SkipDecision = Inr SkipDecision"

fun render_provider ::
  "(string \<Rightarrow> runtime_error + string) \<Rightarrow> provider_command \<Rightarrow> runtime_error + provider_command" where
  "render_provider r (RetryTool tool args attempts) =
     result_bind (render_opt r args) (\<lambda>a. result_map (\<lambda>t. RetryTool t a attempts) (r tool))"
| "render_provider r (SwitchProvider p) = result_map SwitchProvider (r p)"
| "render_provider r (SuggestCommit message mandatory reason) =
     render2 r (\<lambda>m why. SuggestCommit m mandatory why) message reason"
| "render_provider r (PreparePr title description base draft) =
     result_bind (r title) (\<lambda>t. render2 r (\<lambda>d bs. PreparePr t d bs draft) description base)"

definition render_with ::
  "(string \<Rightarrow> runtime_error + string) \<Rightarrow> decision_command \<Rightarrow> runtime_error + decision_command" where
  "render_with r cmd = (case cmd of
      AgentCmd c \<Rightarrow> result_map AgentCmd (render_agent r c)
    | GitCmd c extra \<Rightarrow>
        result_bind (render_opt r extra) (\<lambda>e. result_map (\<lambda>g. GitCmd g e) (render_git r c))
    | TaskCmd c \<Rightarrow> result_map TaskCmd (render_task r c)
    | HumanCmd c \<Rightarrow> result_map HumanCmd (render_human r c)
    | ProviderCmd c \<Rightarrow> result_map ProviderCmd (render_provider r c))"

definition render_command_templates ::
  "externs \<Rightarrow> decision_command \<Rightarrow> blackboard \<Rightarrow> runtime_error + decision_command" where
  "render_command_templates x cmd b =
     render_with (\<lambda>s. render_prompt_template x s (to_template_context b)) cmd"

subsection \<open>Rendering keeps the command\<close>

text \<open>The texts of a command, in the order they are rendered.\<close>

definition opt_list :: "'a option \<Rightarrow> 'a list" where
  "opt_list v = (case v of None \<Rightarrow> [] | Some a \<Rightarrow> [a])"

lemma opt_list_simps [simp]: "opt_list None = []" "opt_list (Some a) = [a]"
  by (simp_all add: opt_list_def)

fun command_texts :: "decision_command \<Rightarrow> string list" where
  "command_texts (AgentCmd c) = (case c of
      Reflect p \<Rightarrow> [p] | SendInstruction p t \<Rightarrow> [p, t] | TerminateAgent r \<Rightarrow> [r] | _ \<Rightarrow> [])"
| "command_texts (GitCmd c e) = opt_list e @ (case c of
      Commit m w \<Rightarrow> [m] | Stash d u \<Rightarrow> [d] | Discard \<Rightarrow> [] | CreateBranch n b \<Rightarrow> [n, b] | Rebase b \<Rightarrow> [b])"
| "command_texts (TaskCmd c) = (case c of
      ConfirmCompletion \<Rightarrow> [] | StopIfComplete r \<Rightarrow> [r] | PrepareStart t d \<Rightarrow> [t, d])"
| "command_texts (HumanCmd c) = (case c of
      Escalate r ctx \<Rightarrow> opt_list ctx @ [r] | SelectOption i \<Rightarrow> [i] | SkipDecision \<Rightarrow> [])"
| "command_texts (ProviderCmd c) = (case c of
      RetryTool t a n \<Rightarrow> opt_list a @ [t] | SwitchProvider p \<Rightarrow> [p]
    | SuggestCommit m mand r \<Rightarrow> [m, r] | PreparePr t d b dr \<Rightarrow> [t, d, b])"

text \<open>The command with its texts blanked: its constructors, flags and numbers.\<close>

fun command_shape :: "decision_command \<Rightarrow> decision_command" where
  "command_shape (AgentCmd c) = AgentCmd (case c of
      Reflect p \<Rightarrow> Reflect [] | SendInstruction p t \<Rightarrow> SendInstruction [] []
    | TerminateAgent r \<Rightarrow> TerminateAgent [] | _ \<Rightarrow> c)"
| "command_shape (GitCmd c e) = GitCmd (case c of
      Commit m w \<Rightarrow> Commit [] w | Stash d u \<Rightarrow> Stash [] u | Discard \<Rightarrow> Discard
    | CreateBranch n b \<Rightarrow> CreateBranch [] [] | Rebase b \<Rightarrow> Rebase []) (map_option (\<lambda>_. []) e)"
| "command_shape (TaskCmd c) = TaskCmd (case c of
      ConfirmCompletion \<Rightarrow> c | StopIfComplete r \<Rightarrow> StopIfComplete [] | PrepareStart t d \<Rightarrow> PrepareStart [] [])"
| "command_shape (HumanCmd c) = HumanCmd (case c of
      Escalate r ctx \<Rightarrow> Escalate [] (map_option (\<lambda>_. []) ctx) | SelectOption i \<Rightarrow> SelectOption []
    | SkipDecision \<Rightarrow> SkipDecision)"
| "command_shape (ProviderCmd c) = ProviderCmd (case c of
      RetryTool t a n \<Rightarrow> RetryTool [] (map_option (\<lambda>_. []) a) n | SwitchProvider p \<Rightarrow> SwitchProvider []
    | SuggestCommit m mand r \<Rightarrow> SuggestCommit [] mand [] | PreparePr t d b dr \<Rightarrow> PreparePr [] [] [] dr)"

lemmas render_defs = render_with_def render2_def

text \<open>
  Rendering a command is rendering its texts, in order: it fails exactly as the first text that
  fails, and otherwise the texts of the result are the rendered texts.
\<close>

lemma render_with_texts: "result_map command_texts (render_with r c) = collect_results r (command_texts c)"
proof (cases c)
  case (AgentCmd a)
  then show ?thesis by (cases a) (simp_all add: render_defs result_norm)
next
  case (GitCmd g e)
  then show ?thesis by (cases e; cases g) (simp_all add: render_defs result_norm)
next
  case (TaskCmd t)
  then show ?thesis by (cases t) (simp_all add: render_defs result_norm)
next
  case (HumanCmd h)
  then show ?thesis by (cases h; cases "he_context h") (simp_all add: render_defs result_norm)
next
  case (ProviderCmd p)
  then show ?thesis by (cases p; cases "rt_args p") (simp_all add: render_defs result_norm)
qed

lemma render_opt_shape: "render_opt r o1 = Inr o2 \<Longrightarrow> map_option (\<lambda>_. []) o2 = map_option (\<lambda>_. []) o1"
  by (cases o1) auto

lemma render_with_shape:
  assumes "render_with r c = Inr c'"
  shows "command_shape c' = command_shape c"
proof (cases c)
  case (AgentCmd a)
  then show ?thesis using assms by (cases a) (auto simp: render_defs result_bind_Inr_iff)
next
  case (GitCmd g e)
  then show ?thesis using assms
    by (cases g) (auto simp: render_defs result_bind_Inr_iff dest: render_opt_shape)
next
  case (TaskCmd t)
  then show ?thesis using assms by (cases t) (auto simp: render_defs result_bind_Inr_iff)
next
  case (HumanCmd h)
  then show ?thesis using assms
    by (cases h) (auto simp: render_defs result_bind_Inr_iff dest: render_opt_shape)
next
  case (ProviderCmd p)
  then show ?thesis using assms
    by (cases p) (auto simp: render_defs result_bind_Inr_iff dest: render_opt_shape)
qed

subsection \<open>The filters\<close>

lemma truncate_text_length: "length (truncate_text v n) \<le> n + 3"
  by (simp add: truncate_text_def)

subsection \<open>Properties\<close>

text \<open>
  Rendering a command renders its texts and nothing else: the command keeps its shape, its texts are
  the renderings of its texts in order, and it fails exactly as the first text that fails.
\<close>

theorem rendering_renders_texts:
  "result_map command_texts (render_command_templates x cmd b) =
     collect_results (\<lambda>s. render_prompt_template x s (to_template_context b)) (command_texts cmd) \<and>
   (case render_command_templates x cmd b of Inl _ \<Rightarrow> True | Inr c \<Rightarrow> command_shape c = command_shape cmd)"
  using render_with_texts [of "\<lambda>s. render_prompt_template x s (to_template_context b)" cmd]
    render_with_shape [of "\<lambda>s. render_prompt_template x s (to_template_context b)" cmd]
  by (simp add: render_command_templates_def split: sum.split)

end
