(* ===== verification/Dsl_Runtime.thy ===== *)
theory Dsl_Runtime
  imports Dsl_Node Dsl_Template
begin

text \<open>
  The interpreter of behaviour trees: \<open>decision-dsl/src/ast/runtime.rs\<close>. A tick threads the
  blackboard, the session of the host (an abstract state \<open>'s\<close> with the operations of the \<open>Session\<close>
  trait), the number of clock readings made so far and the tracer; it returns the status or the
  failure, the node with its updated volatile fields, and the state, also when it fails. The
  \<open>tick_*\<close> and \<open>resume_*\<close> functions take the tick of a child as a parameter; \<open>tick\<close> ties the knot by
  recursion on a fuel that bounds the depth of the Rust call stack, and \<open>node_tick\<close> uses the height
  of the tree, which is enough (theory \<open>Dsl_Adequacy\<close>). \<open>u8\<close> and \<open>u32\<close> additions wrap, as in a release build.
\<close>

subsection \<open>Tracer\<close>

datatype trace_entry =
    TrEnter (te_name: string) (te_child_index: nat) (te_depth: nat)
  | TrExit string node_status nat
  | TrEval string string bool
  | TrAction string string
  | TrPromptSent string
  | TrPromptSuccess string string
  | TrPromptFailure string string
  | TrEnterSubTree string string
  | TrExitSubTree string string node_status
  | TrRuleMatched string u32
  | TrRuleSkipped string string

record tracer =
  tr_entries :: "trace_entry list"
  tr_path_stack :: "nat list"
  tr_running_path :: "nat list"
  tr_depth :: nat

definition tracer_new :: tracer where
  "tracer_new = \<lparr>tr_entries = [], tr_path_stack = [], tr_running_path = [], tr_depth = 0\<rparr>"

definition trace :: "trace_entry \<Rightarrow> tracer \<Rightarrow> tracer" where
  "trace e t = t\<lparr>tr_entries := tr_entries t @ [e]\<rparr>"

definition trace_enter :: "string \<Rightarrow> nat \<Rightarrow> tracer \<Rightarrow> tracer" where
  "trace_enter nm i t = t\<lparr>tr_path_stack := tr_path_stack t @ [i],
     tr_entries := tr_entries t @ [TrEnter nm i (tr_depth t)], tr_depth := tr_depth t + 1\<rparr>"

definition trace_exit :: "string \<Rightarrow> node_status \<Rightarrow> tracer \<Rightarrow> tracer" where
  "trace_exit nm s t =
     (let t1 = t\<lparr>tr_depth := tr_depth t - 1, tr_path_stack := butlast (tr_path_stack t),
        tr_entries := tr_entries t @ [TrExit nm s 0]\<rparr>
      in if s = Running then t1\<lparr>tr_running_path := tr_path_stack t1\<rparr> else t1)"

subsection \<open>Host: session and clock\<close>

record 's session_ops =
  so_send :: "string \<Rightarrow> 's \<Rightarrow> (session_error + unit) \<times> 's"
  so_send_with_hint :: "string \<Rightarrow> string \<Rightarrow> 's \<Rightarrow> (session_error + unit) \<times> 's"
  so_is_ready :: "'s \<Rightarrow> bool"
  so_receive :: "'s \<Rightarrow> (session_error + string) \<times> 's"

record 's env =
  e_externs :: externs
  e_session :: "'s session_ops"
  e_clock :: "nat \<Rightarrow> instant"

record 's rt =
  rt_bb :: blackboard
  rt_session :: 's
  rt_readings :: nat
  rt_tracer :: tracer

text \<open>\<open>RtPanic\<close> is an index out of bounds or, with too little fuel, a stack overflow.\<close>

datatype fail = RtErr runtime_error | RtPanic

type_synonym 's outcome = "(fail + node_status) \<times> node \<times> 's rt"
type_synonym 's ticker = "node \<Rightarrow> 's rt \<Rightarrow> 's outcome"

definition on_bb :: "(blackboard \<Rightarrow> blackboard) \<Rightarrow> 's rt \<Rightarrow> 's rt" where
  "on_bb f st = st\<lparr>rt_bb := f (rt_bb st)\<rparr>"

definition on_tracer :: "(tracer \<Rightarrow> tracer) \<Rightarrow> 's rt \<Rightarrow> 's rt" where
  "on_tracer f st = st\<lparr>rt_tracer := f (rt_tracer st)\<rparr>"

definition clock_now :: "'s env \<Rightarrow> 's rt \<Rightarrow> instant \<times> 's rt" where
  "clock_now env st = (e_clock env (rt_readings st), st\<lparr>rt_readings := Suc (rt_readings st)\<rparr>)"

definition from_millis :: "u64 \<Rightarrow> nat" where
  "from_millis ms = unat ms * 1000000"

subsection \<open>Composites\<close>

text \<open>
  The loop of \<open>Selector\<close> and \<open>Sequence\<close> over the children from index \<open>i\<close> on: a child with status
  \<open>cont\<close> (\<open>Failure\<close> resp. \<open>Success\<close>) lets the loop go on, any other status stops it.
\<close>

fun composite_loop ::
  "'s ticker \<Rightarrow> string \<Rightarrow> node_status \<Rightarrow> nat \<Rightarrow> node list \<Rightarrow> 's rt \<Rightarrow>
   (fail + (nat \<times> node_status) option) \<times> node list \<times> 's rt"
where
  "composite_loop tk nm cont i [] st = (Inr None, [], st)"
| "composite_loop tk nm cont i (c # cs) st =
     (case tk c (on_tracer (trace_enter nm i) st) of
        (Inl e, c', st1) \<Rightarrow> (Inl e, c' # cs, st1)
      | (Inr s, c', st1) \<Rightarrow>
          let st2 = on_tracer (trace_exit nm s) st1
          in if s = cont then
               (case composite_loop tk nm cont (Suc i) cs st2 of (r, cs', st3) \<Rightarrow> (r, c' # cs', st3))
             else (Inr (Some (i, s)), c' # cs, st2))"

text \<open>\<open>for i in active_child.unwrap_or(0)..children.len()\<close>\<close>

definition composite_tick ::
  "'s ticker \<Rightarrow> string \<Rightarrow> node_status \<Rightarrow> nat option \<Rightarrow> node list \<Rightarrow> 's rt \<Rightarrow>
   (fail + (nat \<times> node_status) option) \<times> node list \<times> 's rt"
where
  "composite_tick tk nm cont active cs st =
     (let start = unwrap_or 0 active
      in case composite_loop tk nm cont start (drop start cs) st of
           (r, cs', st') \<Rightarrow> (r, take start cs @ cs', st'))"

text \<open>
  The resumed child \<open>path[depth]\<close> first (an index out of range panics), its later siblings after it.
\<close>

definition composite_resume ::
  "(nat list \<Rightarrow> nat \<Rightarrow> 's ticker) \<Rightarrow> 's ticker \<Rightarrow> string \<Rightarrow> node_status \<Rightarrow> nat list \<Rightarrow> nat \<Rightarrow>
   node list \<Rightarrow> 's rt \<Rightarrow> (fail + (nat \<times> node_status) option) \<times> node list \<times> 's rt"
where
  "composite_resume rs tk nm cont path depth cs st =
     (let idx = path ! depth; st0 = on_tracer (trace_enter nm idx) st
      in if length cs \<le> idx then (Inl RtPanic, cs, st0)
         else case (if length path \<le> Suc depth then tk else rs path (Suc depth)) (cs ! idx) st0 of
             (Inl e, c', st1) \<Rightarrow> (Inl e, cs[idx := c'], st1)
           | (Inr s, c', st1) \<Rightarrow>
               let st2 = on_tracer (trace_exit nm s) st1
               in if s = cont then
                    (case composite_loop tk nm cont (Suc idx) (drop (Suc idx) cs) st2 of
                       (r, cs', st3) \<Rightarrow> (r, take idx cs @ c' # cs', st3))
                  else (Inr (Some (idx, s)), cs[idx := c'], st2))"

text \<open>\<open>RuleMatched\<close> once per cycle, then one \<open>RuleSkipped\<close> per child after the matching one.\<close>

definition trace_rule ::
  "string option \<Rightarrow> u32 option \<Rightarrow> bool \<Rightarrow> nat \<Rightarrow> tracer \<Rightarrow> tracer" where
  "trace_rule rn rp mt skipped t = (case rn of
      None \<Rightarrow> t
    | Some rule \<Rightarrow>
        fold trace (replicate skipped (TrRuleSkipped rule ''lower priority rule not evaluated''))
          (if mt then t else trace (TrRuleMatched rule (unwrap_or 0 rp)) t))"

definition selector_finish ::
  "string \<Rightarrow> nat option \<Rightarrow> string option \<Rightarrow> u32 option \<Rightarrow> bool \<Rightarrow>
   (fail + (nat \<times> node_status) option) \<times> node list \<times> 's rt \<Rightarrow> 's outcome"
where
  "selector_finish nm active rn rp mt res = (case res of (r, cs, st) \<Rightarrow> (case r of
      Inl e \<Rightarrow> (Inl e, Selector nm cs active rn rp mt, st)
    | Inr None \<Rightarrow> (Inr Failure, Selector nm cs None rn rp mt, st)
    | Inr (Some (i, s)) \<Rightarrow>
        if s = Success then
          (Inr Success, Selector nm cs None rn rp (mt \<or> rn \<noteq> None),
           on_tracer (trace_rule rn rp mt (length cs - Suc i)) st)
        else (Inr Running, Selector nm cs (Some i) rn rp mt, st)))"

definition sequence_finish ::
  "string \<Rightarrow> nat option \<Rightarrow> (fail + (nat \<times> node_status) option) \<times> node list \<times> 's rt \<Rightarrow> 's outcome"
where
  "sequence_finish nm active res = (case res of (r, cs, st) \<Rightarrow> (case r of
      Inl e \<Rightarrow> (Inl e, Sequence nm cs active, st)
    | Inr None \<Rightarrow> (Inr Success, Sequence nm cs None, st)
    | Inr (Some (i, s)) \<Rightarrow>
        if s = Running then (Inr Running, Sequence nm cs (Some i), st)
        else (Inr Failure, Sequence nm cs None, st)))"

text \<open>\<open>Parallel\<close> ticks every child and counts the statuses.\<close>

fun parallel_loop ::
  "(nat \<Rightarrow> 's ticker) \<Rightarrow> string \<Rightarrow> nat \<Rightarrow> node list \<Rightarrow> 's rt \<Rightarrow>
   (fail + node_status list) \<times> node list \<times> 's rt"
where
  "parallel_loop f nm i [] st = (Inr [], [], st)"
| "parallel_loop f nm i (c # cs) st =
     (case f i c (on_tracer (trace_enter nm i) st) of
        (Inl e, c', st1) \<Rightarrow> (Inl e, c' # cs, st1)
      | (Inr s, c', st1) \<Rightarrow>
          (case parallel_loop f nm (Suc i) cs (on_tracer (trace_exit nm s) st1) of
             (r, cs', st2) \<Rightarrow> (result_map (\<lambda>ss. s # ss) r, c' # cs', st2)))"

definition count_status :: "node_status \<Rightarrow> node_status list \<Rightarrow> nat" where
  "count_status s ss = length (filter (\<lambda>t. t = s) ss)"

definition parallel_status :: "parallel_policy \<Rightarrow> node_status list \<Rightarrow> node_status" where
  "parallel_status policy ss =
     (let total = length ss; successes = count_status Success ss;
          failures = count_status Failure ss; running = count_status Running ss
      in case policy of
           AllSuccess \<Rightarrow>
             (if successes = total then Success else if failures > 0 then Failure
              else if running > 0 then Running else Failure)
         | AnySuccess \<Rightarrow>
             (if successes > 0 then Success else if failures = total then Failure
              else if running > 0 then Running else Failure)
         | Majority \<Rightarrow>
             (if successes \<ge> total div 2 + 1 then Success else if failures > total div 2 then Failure
              else if running > 0 then Running else Failure))"

fun empty_parallel_status :: "parallel_policy \<Rightarrow> node_status" where
  "empty_parallel_status AllSuccess = Success"
| "empty_parallel_status AnySuccess = Failure"
| "empty_parallel_status Majority = Failure"

definition parallel_with ::
  "(nat \<Rightarrow> 's ticker) \<Rightarrow> string \<Rightarrow> parallel_policy \<Rightarrow> node list \<Rightarrow> nat option \<Rightarrow> 's rt \<Rightarrow> 's outcome"
where
  "parallel_with f nm policy cs active st =
     (if cs = [] then (Inr (empty_parallel_status policy), Parallel nm policy cs None, st)
      else case parallel_loop f nm 0 cs st of
          (Inl e, cs', st') \<Rightarrow> (Inl e, Parallel nm policy cs' active, st')
        | (Inr ss, cs', st') \<Rightarrow> (Inr (parallel_status policy ss), Parallel nm policy cs' None, st'))"

subsection \<open>Decorators\<close>

text \<open>
  \<open>run\<close> is how the child is run: its \<open>tick\<close> in the \<open>tick_*\<close> function, its \<open>resume_at\<close> with the
  same path and depth in the \<open>resume_*\<close> function.
\<close>

fun invert :: "node_status \<Rightarrow> node_status" where
  "invert Success = Failure"
| "invert Failure = Success"
| "invert Running = Running"

definition inverter_with :: "'s ticker \<Rightarrow> string \<Rightarrow> node \<Rightarrow> 's rt \<Rightarrow> 's outcome" where
  "inverter_with run nm c st =
     (case run c st of (r, c', st') \<Rightarrow> (result_map invert r, Inverter nm c', st'))"

function repeater_loop ::
  "'s ticker \<Rightarrow> u32 \<Rightarrow> u32 \<Rightarrow> node \<Rightarrow> 's rt \<Rightarrow> (fail + node_status) \<times> node \<times> u32 \<times> 's rt" where
  "repeater_loop tk mx cur c st =
     (if cur < mx then
        (case tk c st of
           (Inl e, c', st') \<Rightarrow> (Inl e, c', cur, st')
         | (Inr s, c', st') \<Rightarrow>
             if s = Running then (Inr Running, c', cur, st')
             else if mx \<le> cur + 1 then (Inr s, c', 0, st')
             else repeater_loop tk mx (cur + 1) c' st')
      else (Inr Success, c, 0, st))"
  by pat_completeness auto

lemma unat_inc_less: "cur < mx \<Longrightarrow> unat (cur + 1) = Suc (unat cur)" for cur mx :: u32
proof -
  assume l: "cur < mx"
  then have "cur \<noteq> - 1" by (metis word_not_simps(3))
  then show ?thesis by (simp add: unat_eq_zero word_not_simps unatSuc eq_neg_iff_add_eq_0 add.commute)
qed

termination repeater_loop
  by (relation "measure (\<lambda>(_, mx, cur, _, _). unat mx - unat cur)")
     (auto simp: unat_inc_less word_less_nat_alt)

declare repeater_loop.simps [simp del]

definition repeater_tick :: "'s ticker \<Rightarrow> string \<Rightarrow> u32 \<Rightarrow> node \<Rightarrow> u32 \<Rightarrow> 's rt \<Rightarrow> 's outcome" where
  "repeater_tick tk nm mx c cur st =
     (if mx = 0 then (Inr Failure, Repeater nm mx c cur, st)
      else case repeater_loop tk mx cur c st of
          (r, c', cur', st') \<Rightarrow> (r, Repeater nm mx c' cur', st'))"

definition repeater_resume ::
  "'s ticker \<Rightarrow> 's ticker \<Rightarrow> string \<Rightarrow> u32 \<Rightarrow> node \<Rightarrow> u32 \<Rightarrow> 's rt \<Rightarrow> 's outcome" where
  "repeater_resume run tk nm mx c cur st =
     (if mx = 0 then (Inr Failure, Repeater nm mx c cur, st)
      else case run c st of
          (Inl e, c', st') \<Rightarrow> (Inl e, Repeater nm mx c' cur, st')
        | (Inr s, c', st') \<Rightarrow>
            if s = Running then (Inr Running, Repeater nm mx c' cur, st')
            else if mx \<le> cur + 1 then (Inr s, Repeater nm mx c' 0, st')
            else repeater_tick tk nm mx c' (cur + 1) st')"

definition cooldown_run ::
  "'s env \<Rightarrow> 's ticker \<Rightarrow> string \<Rightarrow> u64 \<Rightarrow> node \<Rightarrow> instant option \<Rightarrow> 's rt \<Rightarrow> 's outcome" where
  "cooldown_run env run nm d c prev st =
     (case run c st of
        (Inr Success, c', st') \<Rightarrow>
          (case clock_now env st' of (now, st2) \<Rightarrow> (Inr Success, Cooldown nm d c' (Some now), st2))
      | (r, c', st') \<Rightarrow> (r, Cooldown nm d c' prev, st'))"

definition cooldown_with ::
  "'s env \<Rightarrow> 's ticker \<Rightarrow> string \<Rightarrow> u64 \<Rightarrow> node \<Rightarrow> instant option \<Rightarrow> 's rt \<Rightarrow> 's outcome" where
  "cooldown_with env run nm d c prev st = (case prev of
      None \<Rightarrow> cooldown_run env run nm d c prev st
    | Some l \<Rightarrow>
        (case clock_now env st of (now, st1) \<Rightarrow>
           if now - l < from_millis d then (Inr Failure, Cooldown nm d c prev, st1)
           else cooldown_run env run nm d c prev st1))"

definition bump_reflection :: "blackboard \<Rightarrow> blackboard" where
  "bump_reflection b = b\<lparr>bb_reflection_round := bb_reflection_round b + 1\<rparr>"

definition reflection_guard_with :: "'s ticker \<Rightarrow> string \<Rightarrow> u8 \<Rightarrow> node \<Rightarrow> 's rt \<Rightarrow> 's outcome" where
  "reflection_guard_with run nm mx c st =
     (if mx \<le> bb_reflection_round (rt_bb st) then (Inr Failure, ReflectionGuard nm mx c, st)
      else case run c st of (r, c', st') \<Rightarrow>
        (r, ReflectionGuard nm mx c', if r = Inr Success then on_bb bump_reflection st' else st'))"

definition force_human_with :: "'s ticker \<Rightarrow> string \<Rightarrow> string \<Rightarrow> node \<Rightarrow> 's rt \<Rightarrow> 's outcome" where
  "force_human_with run nm why c st =
     (case run c st of (r, c', st') \<Rightarrow>
        (r, ForceHuman nm why c',
         if r = Inr Success then on_bb (push_command (HumanCmd (Escalate why None))) st' else st'))"

definition when_with :: "'s env \<Rightarrow> 's ticker \<Rightarrow> string \<Rightarrow> evaluator \<Rightarrow> node \<Rightarrow> 's rt \<Rightarrow> 's outcome" where
  "when_with env run nm cond c st =
     (case evaluate (e_externs env) cond (rt_bb st) of
        Inl e \<Rightarrow> (Inl (RtErr e), When nm cond c, st)
      | Inr False \<Rightarrow> (Inr Failure, When nm cond c, st)
      | Inr True \<Rightarrow> (case run c st of (r, c', st') \<Rightarrow> (r, When nm cond c', st')))"

definition subtree_with :: "'s ticker \<Rightarrow> string \<Rightarrow> string \<Rightarrow> node option \<Rightarrow> 's rt \<Rightarrow> 's outcome" where
  "subtree_with run nm rf root st0 =
     (let st = on_tracer (trace (TrEnterSubTree nm rf)) st0
      in case push_scope (rt_bb st) of
           (Inl _, _) \<Rightarrow> (Inl (RtErr ScopeDepthExceeded), SubTree nm rf root, st)
         | (Inr _, b) \<Rightarrow>
             let st1 = st\<lparr>rt_bb := b\<rparr>
             in (case root of
                   None \<Rightarrow> (Inl (RtErr (SubTreeNotResolved rf)), SubTree nm rf root, on_bb pop_scope st1)
                 | Some c \<Rightarrow>
                     (case run c st1 of
                        (Inl e, c', st2) \<Rightarrow> (Inl e, SubTree nm rf (Some c'), st2)
                      | (Inr s, c', st2) \<Rightarrow>
                          (Inr s, SubTree nm rf (Some c'),
                           on_tracer (trace (TrExitSubTree nm rf s)) (on_bb pop_scope st2)))))"

subsection \<open>Leaves\<close>

definition condition_tick :: "'s env \<Rightarrow> string \<Rightarrow> evaluator \<Rightarrow> 's rt \<Rightarrow> 's outcome" where
  "condition_tick env nm ev st =
     (case evaluate (e_externs env) ev (rt_bb st) of
        Inl e \<Rightarrow> (Inl (RtErr e), Condition nm ev, st)
      | Inr b \<Rightarrow> (Inr (if b then Success else Failure), Condition nm ev, st))"

definition action_emit :: "'s env \<Rightarrow> string \<Rightarrow> decision_command \<Rightarrow> evaluator option \<Rightarrow> 's rt \<Rightarrow> 's outcome" where
  "action_emit env nm cmd wh st =
     (case render_command_templates (e_externs env) cmd (rt_bb st) of
        Inl e \<Rightarrow> (Inl (RtErr e), Action nm cmd wh, st)
      | Inr rendered \<Rightarrow>
          (Inr Success, Action nm cmd wh,
           on_tracer (trace (TrAction nm (x_debug_command (e_externs env) rendered)))
             (on_bb (push_command rendered) st)))"

definition action_tick :: "'s env \<Rightarrow> string \<Rightarrow> decision_command \<Rightarrow> evaluator option \<Rightarrow> 's rt \<Rightarrow> 's outcome" where
  "action_tick env nm cmd wh st = (case wh of
      None \<Rightarrow> action_emit env nm cmd wh st
    | Some ev \<Rightarrow>
        (case evaluate (e_externs env) ev (rt_bb st) of
           Inl e \<Rightarrow> (Inl (RtErr e), Action nm cmd wh, st)
         | Inr b \<Rightarrow> if b then action_emit env nm cmd wh st else (Inr Failure, Action nm cmd wh, st)))"

definition session_fail :: "session_error \<Rightarrow> fail" where
  "session_fail e = RtErr (runtime_error_of_session e)"

text \<open>First tick of a \<open>Prompt\<close>: render and send.\<close>

definition prompt_send ::
  "'s env \<Rightarrow> string \<Rightarrow> string option \<Rightarrow> string \<Rightarrow> output_parser \<Rightarrow> set_mapping list \<Rightarrow> u64 \<Rightarrow>
   instant option \<Rightarrow> 's rt \<Rightarrow> 's outcome"
where
  "prompt_send env nm md tp ps sts tmo sa st =
     (case render_prompt_template (e_externs env) tp (to_template_context (rt_bb st)) of
        Inl e \<Rightarrow> (Inl (RtErr e), Prompt nm md tp ps sts tmo False sa, st)
      | Inr rendered \<Rightarrow>
          let st1 = on_tracer (trace (TrPromptSent nm)) st
          in case (case md of
                     Some m \<Rightarrow> so_send_with_hint (e_session env) rendered m (rt_session st1)
                   | None \<Rightarrow> so_send (e_session env) rendered (rt_session st1)) of
               (Inl e, se) \<Rightarrow>
                 (Inl (session_fail e), Prompt nm md tp ps sts tmo False sa, st1\<lparr>rt_session := se\<rparr>)
             | (Inr _, se) \<Rightarrow>
                 (case clock_now env (st1\<lparr>rt_session := se\<rparr>) of (now, st2) \<Rightarrow>
                    (Inr Running, Prompt nm md tp ps sts tmo True (Some now), st2)))"

fun apply_sets :: "set_mapping list \<Rightarrow> bb_value hashmap \<Rightarrow> blackboard \<Rightarrow> blackboard" where
  "apply_sets [] vals b = b"
| "apply_sets (m # ms) vals b =
     apply_sets ms vals
       (case map_of vals (sm_field m) of Some v \<Rightarrow> bb_set (sm_key m) v b | None \<Rightarrow> b)"

definition push_parsed_command :: "bb_value hashmap \<Rightarrow> blackboard \<Rightarrow> blackboard" where
  "push_parsed_command vals b =
     (case map_of vals ''__command'' of Some (VCommand c) \<Rightarrow> push_command c b | _ \<Rightarrow> b)"

text \<open>A reply has arrived: store it, parse it, emit and set what it holds.\<close>

definition prompt_reply ::
  "'s env \<Rightarrow> string \<Rightarrow> output_parser \<Rightarrow> set_mapping list \<Rightarrow> string \<Rightarrow> 's rt \<Rightarrow> node_status \<times> 's rt"
where
  "prompt_reply env nm ps sts reply st =
     (let st1 = on_tracer (trace (TrPromptSuccess nm reply)) (on_bb (store_llm_response nm reply) st)
      in case parse_reply (e_externs env) ps reply of
           Inr vals \<Rightarrow> (Success, on_bb (\<lambda>b. apply_sets sts vals (push_parsed_command vals b)) st1)
         | Inl e \<Rightarrow> (Failure, on_tracer (trace (TrPromptFailure nm (runtime_error_display e))) st1))"

definition prompt_poll ::
  "'s env \<Rightarrow> string \<Rightarrow> string option \<Rightarrow> string \<Rightarrow> output_parser \<Rightarrow> set_mapping list \<Rightarrow> u64 \<Rightarrow>
   instant option \<Rightarrow> 's rt \<Rightarrow> 's outcome"
where
  "prompt_poll env nm md tp ps sts tmo sa st =
     (if \<not> so_is_ready (e_session env) (rt_session st)
      then (Inr Running, Prompt nm md tp ps sts tmo True sa, st)
      else case so_receive (e_session env) (rt_session st) of
          (Inl e, se) \<Rightarrow> (Inl (session_fail e), Prompt nm md tp ps sts tmo True sa, st\<lparr>rt_session := se\<rparr>)
        | (Inr reply, se) \<Rightarrow>
            (case prompt_reply env nm ps sts reply (st\<lparr>rt_session := se\<rparr>) of (s, st') \<Rightarrow>
               (Inr s, Prompt nm md tp ps sts tmo False None, st')))"

definition prompt_tick ::
  "'s env \<Rightarrow> string \<Rightarrow> string option \<Rightarrow> string \<Rightarrow> output_parser \<Rightarrow> set_mapping list \<Rightarrow> u64 \<Rightarrow> bool \<Rightarrow>
   instant option \<Rightarrow> 's rt \<Rightarrow> 's outcome"
where
  "prompt_tick env nm md tp ps sts tmo pd sa st =
     (if \<not> pd then prompt_send env nm md tp ps sts tmo sa st
      else case sa of
          None \<Rightarrow> prompt_poll env nm md tp ps sts tmo sa st
        | Some t \<Rightarrow>
            (case clock_now env st of (now, st1) \<Rightarrow>
               if from_millis tmo < now - t
               then (Inr Failure, Prompt nm md tp ps sts tmo False None,
                     on_tracer (trace (TrPromptFailure nm ''timeout'')) st1)
               else prompt_poll env nm md tp ps sts tmo sa st1))"

definition set_var_tick :: "string \<Rightarrow> string \<Rightarrow> bb_value \<Rightarrow> 's rt \<Rightarrow> 's outcome" where
  "set_var_tick nm key v st = (Inr Success, SetVar nm key v, on_bb (bb_set key v) st)"

subsection \<open>Nodes\<close>

text \<open>The functions of the source by their names: \<open>tick_*\<close> and \<open>resume_*\<close> share the definitions above.\<close>

abbreviation tick_selector ::
  "'s ticker \<Rightarrow> string \<Rightarrow> node list \<Rightarrow> nat option \<Rightarrow> string option \<Rightarrow> u32 option \<Rightarrow> bool \<Rightarrow> 's rt \<Rightarrow> 's outcome" where
  "tick_selector tk nm cs ac rn rp mt st \<equiv> selector_finish nm ac rn rp mt (composite_tick tk nm Failure ac cs st)"

abbreviation resume_selector ::
  "(nat list \<Rightarrow> nat \<Rightarrow> 's ticker) \<Rightarrow> 's ticker \<Rightarrow> nat list \<Rightarrow> nat \<Rightarrow> string \<Rightarrow> node list \<Rightarrow> nat option \<Rightarrow>
   string option \<Rightarrow> u32 option \<Rightarrow> bool \<Rightarrow> 's rt \<Rightarrow> 's outcome" where
  "resume_selector rs tk path depth nm cs ac rn rp mt st \<equiv>
     selector_finish nm ac rn rp mt (composite_resume rs tk nm Failure path depth cs st)"

abbreviation tick_sequence :: "'s ticker \<Rightarrow> string \<Rightarrow> node list \<Rightarrow> nat option \<Rightarrow> 's rt \<Rightarrow> 's outcome" where
  "tick_sequence tk nm cs ac st \<equiv> sequence_finish nm ac (composite_tick tk nm Success ac cs st)"

abbreviation resume_sequence ::
  "(nat list \<Rightarrow> nat \<Rightarrow> 's ticker) \<Rightarrow> 's ticker \<Rightarrow> nat list \<Rightarrow> nat \<Rightarrow> string \<Rightarrow> node list \<Rightarrow> nat option \<Rightarrow>
   's rt \<Rightarrow> 's outcome" where
  "resume_sequence rs tk path depth nm cs ac st \<equiv>
     sequence_finish nm ac (composite_resume rs tk nm Success path depth cs st)"

abbreviation tick_parallel ::
  "'s ticker \<Rightarrow> string \<Rightarrow> parallel_policy \<Rightarrow> node list \<Rightarrow> nat option \<Rightarrow> 's rt \<Rightarrow> 's outcome" where
  "tick_parallel tk nm policy cs ac st \<equiv> parallel_with (\<lambda>_. tk) nm policy cs ac st"

abbreviation resume_parallel ::
  "(nat list \<Rightarrow> nat \<Rightarrow> 's ticker) \<Rightarrow> 's ticker \<Rightarrow> nat list \<Rightarrow> nat \<Rightarrow> string \<Rightarrow> parallel_policy \<Rightarrow> node list \<Rightarrow>
   nat option \<Rightarrow> 's rt \<Rightarrow> 's outcome" where
  "resume_parallel rs tk path depth nm policy cs ac st \<equiv>
     parallel_with (\<lambda>i. if i = path ! depth \<and> Suc depth < length path then rs path (Suc depth) else tk)
       nm policy cs ac st"

abbreviation tick_inverter :: "'s ticker \<Rightarrow> string \<Rightarrow> node \<Rightarrow> 's rt \<Rightarrow> 's outcome" where
  "tick_inverter tk nm c st \<equiv> inverter_with tk nm c st"

abbreviation resume_inverter ::
  "(nat list \<Rightarrow> nat \<Rightarrow> 's ticker) \<Rightarrow> nat list \<Rightarrow> nat \<Rightarrow> string \<Rightarrow> node \<Rightarrow> 's rt \<Rightarrow> 's outcome" where
  "resume_inverter rs path depth nm c st \<equiv> inverter_with (rs path depth) nm c st"

abbreviation resume_repeater ::
  "(nat list \<Rightarrow> nat \<Rightarrow> 's ticker) \<Rightarrow> 's ticker \<Rightarrow> nat list \<Rightarrow> nat \<Rightarrow> string \<Rightarrow> u32 \<Rightarrow> node \<Rightarrow> u32 \<Rightarrow> 's rt \<Rightarrow>
   's outcome" where
  "resume_repeater rs tk path depth nm mx c cur st \<equiv> repeater_resume (rs path depth) tk nm mx c cur st"

abbreviation tick_cooldown ::
  "'s env \<Rightarrow> 's ticker \<Rightarrow> string \<Rightarrow> u64 \<Rightarrow> node \<Rightarrow> instant option \<Rightarrow> 's rt \<Rightarrow> 's outcome" where
  "tick_cooldown env tk nm d c prev st \<equiv> cooldown_with env tk nm d c prev st"

abbreviation resume_cooldown ::
  "'s env \<Rightarrow> (nat list \<Rightarrow> nat \<Rightarrow> 's ticker) \<Rightarrow> nat list \<Rightarrow> nat \<Rightarrow> string \<Rightarrow> u64 \<Rightarrow> node \<Rightarrow> instant option \<Rightarrow>
   's rt \<Rightarrow> 's outcome" where
  "resume_cooldown env rs path depth nm d c prev st \<equiv> cooldown_with env (rs path depth) nm d c prev st"

abbreviation tick_reflection_guard :: "'s ticker \<Rightarrow> string \<Rightarrow> u8 \<Rightarrow> node \<Rightarrow> 's rt \<Rightarrow> 's outcome" where
  "tick_reflection_guard tk nm mx c st \<equiv> reflection_guard_with tk nm mx c st"

abbreviation resume_reflection_guard ::
  "(nat list \<Rightarrow> nat \<Rightarrow> 's ticker) \<Rightarrow> nat list \<Rightarrow> nat \<Rightarrow> string \<Rightarrow> u8 \<Rightarrow> node \<Rightarrow> 's rt \<Rightarrow> 's outcome" where
  "resume_reflection_guard rs path depth nm mx c st \<equiv> reflection_guard_with (rs path depth) nm mx c st"

abbreviation tick_force_human :: "'s ticker \<Rightarrow> string \<Rightarrow> string \<Rightarrow> node \<Rightarrow> 's rt \<Rightarrow> 's outcome" where
  "tick_force_human tk nm why c st \<equiv> force_human_with tk nm why c st"

abbreviation resume_force_human ::
  "(nat list \<Rightarrow> nat \<Rightarrow> 's ticker) \<Rightarrow> nat list \<Rightarrow> nat \<Rightarrow> string \<Rightarrow> string \<Rightarrow> node \<Rightarrow> 's rt \<Rightarrow> 's outcome" where
  "resume_force_human rs path depth nm why c st \<equiv> force_human_with (rs path depth) nm why c st"

abbreviation tick_when :: "'s env \<Rightarrow> 's ticker \<Rightarrow> string \<Rightarrow> evaluator \<Rightarrow> node \<Rightarrow> 's rt \<Rightarrow> 's outcome" where
  "tick_when env tk nm cond c st \<equiv> when_with env tk nm cond c st"

abbreviation resume_when ::
  "'s env \<Rightarrow> (nat list \<Rightarrow> nat \<Rightarrow> 's ticker) \<Rightarrow> nat list \<Rightarrow> nat \<Rightarrow> string \<Rightarrow> evaluator \<Rightarrow> node \<Rightarrow> 's rt \<Rightarrow>
   's outcome" where
  "resume_when env rs path depth nm cond c st \<equiv> when_with env (rs path depth) nm cond c st"

abbreviation tick_subtree :: "'s ticker \<Rightarrow> string \<Rightarrow> string \<Rightarrow> node option \<Rightarrow> 's rt \<Rightarrow> 's outcome" where
  "tick_subtree tk nm rf root st \<equiv> subtree_with tk nm rf root st"

abbreviation resume_subtree ::
  "(nat list \<Rightarrow> nat \<Rightarrow> 's ticker) \<Rightarrow> nat list \<Rightarrow> nat \<Rightarrow> string \<Rightarrow> string \<Rightarrow> node option \<Rightarrow> 's rt \<Rightarrow> 's outcome" where
  "resume_subtree rs path depth nm rf root st \<equiv> subtree_with (rs path depth) nm rf root st"

definition tick_node :: "'s env \<Rightarrow> 's ticker \<Rightarrow> 's ticker" where
  "tick_node env tk nd st = (case nd of
      Selector nm cs ac rn rp mt \<Rightarrow> tick_selector tk nm cs ac rn rp mt st
    | Sequence nm cs ac \<Rightarrow> tick_sequence tk nm cs ac st
    | Parallel nm policy cs ac \<Rightarrow> tick_parallel tk nm policy cs ac st
    | Inverter nm c \<Rightarrow> tick_inverter tk nm c st
    | Repeater nm mx c cur \<Rightarrow> repeater_tick tk nm mx c cur st
    | Cooldown nm d c prev \<Rightarrow> tick_cooldown env tk nm d c prev st
    | ReflectionGuard nm mx c \<Rightarrow> tick_reflection_guard tk nm mx c st
    | ForceHuman nm why c \<Rightarrow> tick_force_human tk nm why c st
    | When nm cond c \<Rightarrow> tick_when env tk nm cond c st
    | Condition nm ev \<Rightarrow> condition_tick env nm ev st
    | Action nm cmd wh \<Rightarrow> action_tick env nm cmd wh st
    | Prompt nm md tp ps sts tmo pd sa \<Rightarrow> prompt_tick env nm md tp ps sts tmo pd sa st
    | SetVar nm key v \<Rightarrow> set_var_tick nm key v st
    | SubTree nm rf root \<Rightarrow> tick_subtree tk nm rf root st)"

fun tick :: "'s env \<Rightarrow> nat \<Rightarrow> 's ticker" where
  "tick env 0 nd st = (Inl RtPanic, nd, st)"
| "tick env (Suc n) nd st = tick_node env (tick env n) nd st"

definition resume_node ::
  "'s env \<Rightarrow> 's ticker \<Rightarrow> (nat list \<Rightarrow> nat \<Rightarrow> 's ticker) \<Rightarrow> nat list \<Rightarrow> nat \<Rightarrow> 's ticker" where
  "resume_node env tk rs path depth nd st = (case nd of
      Selector nm cs ac rn rp mt \<Rightarrow> resume_selector rs tk path depth nm cs ac rn rp mt st
    | Sequence nm cs ac \<Rightarrow> resume_sequence rs tk path depth nm cs ac st
    | Parallel nm policy cs ac \<Rightarrow> resume_parallel rs tk path depth nm policy cs ac st
    | Inverter nm c \<Rightarrow> resume_inverter rs path depth nm c st
    | Repeater nm mx c cur \<Rightarrow> resume_repeater rs tk path depth nm mx c cur st
    | Cooldown nm d c prev \<Rightarrow> resume_cooldown env rs path depth nm d c prev st
    | ReflectionGuard nm mx c \<Rightarrow> resume_reflection_guard rs path depth nm mx c st
    | ForceHuman nm why c \<Rightarrow> resume_force_human rs path depth nm why c st
    | When nm cond c \<Rightarrow> resume_when env rs path depth nm cond c st
    | SubTree nm rf root \<Rightarrow> resume_subtree rs path depth nm rf root st
    | _ \<Rightarrow> tick_node env tk nd st)"

fun resume_at :: "'s env \<Rightarrow> nat \<Rightarrow> nat list \<Rightarrow> nat \<Rightarrow> 's ticker" where
  "resume_at env 0 path depth nd st = (Inl RtPanic, nd, st)"
| "resume_at env (Suc n) path depth nd st =
     (if length path \<le> depth then tick_node env (tick env n) nd st
      else resume_node env (tick env n) (resume_at env n) path depth nd st)"

text \<open>The tick and the resumption of a tree, with as much stack as its height needs.\<close>

definition node_tick :: "'s env \<Rightarrow> 's ticker" where
  "node_tick env nd st = tick env (node_height nd) nd st"

definition node_resume :: "'s env \<Rightarrow> nat list \<Rightarrow> nat \<Rightarrow> 's ticker" where
  "node_resume env path depth nd st = resume_at env (node_height nd) path depth nd st"

subsection \<open>Executor\<close>

record executor =
  ex_running_path :: "nat list"
  ex_is_running :: bool

definition executor_new :: executor where
  "executor_new = \<lparr>ex_running_path = [], ex_is_running = False\<rparr>"

definition executor_reset :: "executor \<Rightarrow> executor" where
  "executor_reset ex = ex\<lparr>ex_is_running := False, ex_running_path := []\<rparr>"

record tick_result =
  tk_status :: node_status
  tk_commands :: "decision_command list"
  tk_trace :: "trace_entry list"

text \<open>
  \<open>Executor::tick\<close> on the root of a tree: a fresh tracer, a tick or a resumption, the running path
  of the tracer remembered, the commands drained. An error leaves the executor as it was.
\<close>

definition executor_tick ::
  "'s env \<Rightarrow> executor \<Rightarrow> node \<Rightarrow> 's rt \<Rightarrow> (fail + tick_result) \<times> executor \<times> node \<times> 's rt" where
  "executor_tick env ex root st0 =
     (let st = st0\<lparr>rt_tracer := tracer_new\<rparr>
      in case (if ex_is_running ex then node_resume env (ex_running_path ex) 0 root st
               else node_tick env root st) of
           (Inl e, root', st') \<Rightarrow> (Inl e, ex, root', st')
         | (Inr s, root', st') \<Rightarrow>
             let ex' = (if s = Running
                        then \<lparr>ex_running_path = tr_running_path (rt_tracer st'), ex_is_running = True\<rparr>
                        else \<lparr>ex_running_path = [], ex_is_running = False\<rparr>);
                 (cmds, b) = drain_commands (rt_bb st')
             in (Inr \<lparr>tk_status = s, tk_commands = cmds, tk_trace = tr_entries (rt_tracer st')\<rparr>,
                 ex', root', st'\<lparr>rt_bb := b\<rparr>))"

subsection \<open>The mock session\<close>

record mock_session =
  ms_replies :: "string list"
  ms_ready :: bool
  ms_sent_messages :: "string list"

definition mock_new :: mock_session where
  "mock_new = \<lparr>ms_replies = [], ms_ready = False, ms_sent_messages = []\<rparr>"

definition mock_push_reply :: "string \<Rightarrow> mock_session \<Rightarrow> mock_session" where
  "mock_push_reply r m = m\<lparr>ms_replies := ms_replies m @ [r]\<rparr>"

definition mock_set_ready :: "bool \<Rightarrow> mock_session \<Rightarrow> mock_session" where
  "mock_set_ready b m = m\<lparr>ms_ready := b\<rparr>"

definition mock_with_reply :: "string \<Rightarrow> mock_session" where
  "mock_with_reply r = mock_set_ready True (mock_push_reply r mock_new)"

definition mock_send :: "string \<Rightarrow> mock_session \<Rightarrow> (session_error + unit) \<times> mock_session" where
  "mock_send msg m = (Inr (), m\<lparr>ms_sent_messages := ms_sent_messages m @ [msg]\<rparr>)"

definition mock_receive :: "mock_session \<Rightarrow> (session_error + string) \<times> mock_session" where
  "mock_receive m0 =
     (let m = mock_set_ready False m0
      in case ms_replies m of
           [] \<Rightarrow> (Inl \<lparr>se_kind = UnexpectedFormat, se_message = ''no reply queued''\<rparr>, m)
         | r # rs \<Rightarrow> (Inr r, m\<lparr>ms_replies := rs\<rparr>))"

definition mock_session_ops :: "mock_session session_ops" where
  "mock_session_ops = \<lparr>so_send = mock_send, so_send_with_hint = (\<lambda>msg _. mock_send msg),
     so_is_ready = ms_ready, so_receive = mock_receive\<rparr>"

subsection \<open>A concrete host\<close>

text \<open>The host of the examples: a mock session and a clock that advances one second per reading.\<close>

definition sample_env :: "mock_session env" where
  "sample_env = \<lparr>e_externs = literal_externs, e_session = mock_session_ops, e_clock = (\<lambda>k. k * 1000000000)\<rparr>"

definition sample_rt :: "mock_session rt" where
  "sample_rt = \<lparr>rt_bb = bb_default, rt_session = mock_new, rt_readings = 0, rt_tracer = tracer_new\<rparr>"

end
