(* ===== verification/Dsl_Adequacy.thy ===== *)
theory Dsl_Adequacy
  imports Dsl_Runtime
begin

text \<open>
  Two facts about the interpreter that all later proofs use. A tick changes only the volatile
  fields of the tree: \<open>node_reset\<close> of the node is the same before and after. And the fuel of a
  tick, the height of the tree, is enough: \<open>node_tick\<close> and \<open>node_resume\<close> satisfy the equations of
  the recursive Rust functions, with no trace of fuel.
\<close>

subsection \<open>The tree keeps its shape\<close>

definition keeps :: "'s ticker \<Rightarrow> bool" where
  "keeps tk \<longleftrightarrow> (\<forall>nd st r nd' st'. tk nd st = (r, nd', st') \<longrightarrow> node_reset nd' = node_reset nd)"

lemma keepsD: "keeps tk \<Longrightarrow> tk nd st = (r, nd', st') \<Longrightarrow> node_reset nd' = node_reset nd"
  unfolding keeps_def by blast

lemma keepsI: "(\<And>nd st. node_reset (fst (snd (tk nd st))) = node_reset nd) \<Longrightarrow> keeps tk"
  unfolding keeps_def by (metis fst_conv snd_conv)

lemma keeps_node: "keeps tk \<Longrightarrow> node_reset (fst (snd (tk nd st))) = node_reset nd"
  using keepsD [of tk nd st "fst (tk nd st)" "fst (snd (tk nd st))" "snd (snd (tk nd st))"] by simp

lemma keeps_composite_loop:
  "keeps tk \<Longrightarrow> composite_loop tk nm cont i cs st = (r, cs', st') \<Longrightarrow> map node_reset cs' = map node_reset cs"
proof (induction cs arbitrary: i st r cs' st')
  case Nil
  then show ?case by simp
next
  case (Cons c cs)
  obtain r1 c1 st1 where t: "tk c (on_tracer (trace_enter nm i) st) = (r1, c1, st1)"
    by (metis prod_cases3)
  note k = keepsD [OF Cons.prems(1) t]
  show ?case using Cons t k by (auto simp: Let_def split: sum.split_asm if_split_asm prod.split_asm)
qed

lemma keeps_composite_tick:
  assumes "keeps tk" and "composite_tick tk nm cont ac cs st = (r, cs', st')"
  shows "map node_reset cs' = map node_reset cs"
proof -
  let ?n = "unwrap_or 0 ac"
  from assms(2) obtain ds where l: "composite_loop tk nm cont ?n (drop ?n cs) st = (r, ds, st')"
    and cs': "cs' = take ?n cs @ ds"
    by (auto simp: composite_tick_def Let_def split: prod.split_asm)
  from keeps_composite_loop [OF assms(1) l] show ?thesis
    unfolding cs' by (metis append_take_drop_id map_append)
qed

lemma map_reset_update:
  "i < length cs \<Longrightarrow> node_reset c' = node_reset (cs ! i) \<Longrightarrow> map node_reset (cs[i := c']) = map node_reset cs"
  by (metis list_update_id map_update)

lemma keeps_composite_resume:
  assumes "\<And>p d. keeps (rs p d)" "keeps tk" "composite_resume rs tk nm cont path depth cs st = (r, cs', st')"
  shows "map node_reset cs' = map node_reset cs"
proof -
  define idx where "idx = path ! depth"
  define run where "run = (if length path \<le> Suc depth then tk else rs path (Suc depth))"
  have kr: "keeps run" using assms by (simp add: run_def)
  show ?thesis
  proof (cases "length cs \<le> idx")
    case True
    with assms(3) show ?thesis by (simp add: composite_resume_def idx_def)
  next
    case False
    obtain r1 c1 st1 where t: "run (cs ! idx) (on_tracer (trace_enter nm idx) st) = (r1, c1, st1)"
      by (metis prod_cases3)
    note k = keepsD [OF kr t]
    have up: "map node_reset (cs[idx := c1]) = map node_reset cs"
      using False k by (simp add: map_reset_update)
    have spl: "map node_reset (take idx cs @ c1 # ds) = map node_reset cs"
      if "map node_reset ds = map node_reset (drop (Suc idx) cs)" for ds
      using False k that id_take_nth_drop [of idx cs]
      by (metis list.simps(9) map_append not_le)
    show ?thesis
    proof (cases r1)
      case (Inl e)
      with assms(3) False t up show ?thesis
        by (auto simp: composite_resume_def Let_def simp flip: idx_def run_def)
    next
      case (Inr s)
      obtain r2 ds st2 where l: "composite_loop tk nm cont (Suc idx) (drop (Suc idx) cs)
          (on_tracer (trace_exit nm s) st1) = (r2, ds, st2)" by (metis prod_cases3)
      note kl = keeps_composite_loop [OF assms(2) l]
      from assms(3) False t Inr l have "cs' = (if s = cont then take idx cs @ c1 # ds else cs[idx := c1])"
        by (auto simp: composite_resume_def Let_def simp flip: idx_def run_def)
      with up spl [OF kl] show ?thesis by simp
    qed
  qed
qed

lemma keeps_parallel_loop:
  "(\<And>i. keeps (f i)) \<Longrightarrow> parallel_loop f nm i cs st = (r, cs', st') \<Longrightarrow> map node_reset cs' = map node_reset cs"
proof (induction cs arbitrary: i st r cs' st')
  case Nil
  then show ?case by simp
next
  case (Cons c cs)
  obtain r1 c1 st1 where t: "f i c (on_tracer (trace_enter nm i) st) = (r1, c1, st1)"
    by (metis prod_cases3)
  note k = keepsD [OF Cons.prems(1) t]
  show ?case using Cons t k by (auto split: sum.split_asm prod.split_asm)
qed

lemma keeps_repeater_loop:
  "keeps tk \<Longrightarrow> repeater_loop tk mx cur c st = (r, c', cur', st') \<Longrightarrow> node_reset c' = node_reset c"
proof (induction tk mx cur c st rule: repeater_loop.induct)
  case (1 tk mx cur c st)
  obtain r1 c1 st1 where t: "tk c st = (r1, c1, st1)" by (metis prod_cases3)
  note k = keepsD [OF "1.prems"(1) t]
  show ?case
  proof (cases "cur < mx")
    case False
    with "1.prems" show ?thesis by (subst (asm) repeater_loop.simps) simp
  next
    case True
    show ?thesis
    proof (cases "\<exists>s. r1 = Inr s \<and> s \<noteq> Running \<and> \<not> mx \<le> cur + 1")
      case rec: True
      then obtain s where s: "r1 = Inr s" "s \<noteq> Running" "\<not> mx \<le> cur + 1" by blast
      then have "repeater_loop tk mx (cur + 1) c1 st1 = (r, c', cur', st')"
        using "1.prems"(2) True t by (subst (asm) repeater_loop.simps) simp
      from "1.IH" [OF True t [symmetric] s(1) refl s(2,3) "1.prems"(1) this] k show ?thesis by simp
    next
      case False
      with "1.prems"(2) True t k show ?thesis
        by (subst (asm) repeater_loop.simps) (auto split: sum.split_asm if_split_asm)
    qed
  qed
qed

lemmas composite_finish_defs = selector_finish_def sequence_finish_def

lemmas decorator_defs = inverter_with_def repeater_tick_def repeater_resume_def cooldown_with_def
  cooldown_run_def reflection_guard_with_def force_human_with_def when_with_def subtree_with_def

lemmas leaf_defs = condition_tick_def action_tick_def action_emit_def prompt_tick_def prompt_send_def
  prompt_poll_def set_var_tick_def

lemma reset_selector_finish:
  "map node_reset (fst (snd res)) = map node_reset cs \<Longrightarrow>
   node_reset (fst (snd (selector_finish nm ac rn rp mt res))) = node_reset (Selector nm cs ac rn rp mt)"
  by (auto simp: selector_finish_def split: prod.split sum.split option.split)

lemma reset_sequence_finish:
  "map node_reset (fst (snd res)) = map node_reset cs \<Longrightarrow>
   node_reset (fst (snd (sequence_finish nm ac res))) = node_reset (Sequence nm cs ac)"
  by (auto simp: sequence_finish_def split: prod.split sum.split option.split)

lemma reset_parallel_with:
  assumes "\<And>i. keeps (f i)"
  shows "node_reset (fst (snd (parallel_with f nm policy cs ac st))) = node_reset (Parallel nm policy cs ac)"
proof -
  obtain r cs' st' where l: "parallel_loop f nm 0 cs st = (r, cs', st')" by (metis prod_cases3)
  from keeps_parallel_loop [OF assms l] show ?thesis
    by (simp add: parallel_with_def l split: sum.split)
qed

lemma reset_repeater_tick:
  assumes "keeps tk"
  shows "node_reset (fst (snd (repeater_tick tk nm mx c cur st))) = node_reset (Repeater nm mx c cur)"
proof -
  obtain r c' cur' st' where l: "repeater_loop tk mx cur c st = (r, c', cur', st')" by (metis prod_cases4)
  from keeps_repeater_loop [OF assms l] show ?thesis by (simp add: repeater_tick_def l)
qed

lemma reset_decorators:
  assumes "keeps run"
  shows "node_reset (fst (snd (inverter_with run nm c st))) = node_reset (Inverter nm c)"
    and "node_reset (fst (snd (cooldown_with env run nm d c l st))) = node_reset (Cooldown nm d c l)"
    and "node_reset (fst (snd (reflection_guard_with run nm rounds c st))) = node_reset (ReflectionGuard nm rounds c)"
    and "node_reset (fst (snd (force_human_with run nm why c st))) = node_reset (ForceHuman nm why c)"
    and "node_reset (fst (snd (when_with env run nm cond c st))) = node_reset (When nm cond c)"
    and "node_reset (fst (snd (subtree_with run nm rf root st))) = node_reset (SubTree nm rf root)"
  using keepsD [OF assms]
  by (auto simp: decorator_defs Let_def clock_now_def split: prod.split sum.split node_status.split
      option.split bool.split)

lemma reset_repeater_resume:
  assumes "keeps run" "keeps tk"
  shows "node_reset (fst (snd (repeater_resume run tk nm mx c cur st))) = node_reset (Repeater nm mx c cur)"
proof -
  obtain r c' st' where l: "run c st = (r, c', st')" by (metis prod_cases3)
  from keepsD [OF assms(1) l] reset_repeater_tick [OF assms(2), of nm mx c'] show ?thesis
    by (auto simp: repeater_resume_def l split: sum.split)
qed

lemma reset_leaves:
  "node_reset (fst (snd (condition_tick env nm ev st))) = Condition nm ev"
  "node_reset (fst (snd (action_tick env nm cmd wh st))) = Action nm cmd wh"
  "node_reset (fst (snd (prompt_tick env nm md tp ps sts tmo pd sa st))) = Prompt nm md tp ps sts tmo False None"
  "node_reset (fst (snd (set_var_tick nm key v st))) = SetVar nm key v"
  by (auto simp: leaf_defs Let_def clock_now_def split: prod.split sum.split option.split)

lemma keeps_tick_node:
  assumes "keeps tk"
  shows "keeps (tick_node env tk)"
proof (rule keepsI)
  fix nd st
  have c: "map node_reset (fst (snd (composite_tick tk nm cont ac cs st))) = map node_reset cs" for nm cont ac cs
    by (metis assms keeps_composite_tick prod.collapse)
  show "node_reset (fst (snd (tick_node env tk nd st))) = node_reset nd"
    by (cases nd) (simp_all add: tick_node_def reset_selector_finish [OF c] reset_sequence_finish [OF c]
      reset_parallel_with [OF assms] reset_repeater_tick [OF assms] reset_decorators [OF assms] reset_leaves)
qed

lemma keeps_resume_node:
  assumes "keeps tk" "\<And>p d. keeps (rs p d)"
  shows "keeps (resume_node env tk rs path depth)"
proof (rule keepsI)
  fix nd st
  have c: "map node_reset (fst (snd (composite_resume rs tk nm cont path depth cs st))) = map node_reset cs"
    for nm cont cs
    by (metis assms keeps_composite_resume prod.collapse)
  have p: "keeps (if i = path ! depth \<and> Suc depth < length path then rs path (Suc depth) else tk)" for i
    using assms by simp
  have l: "node_reset (fst (snd (tick_node env tk nd st))) = node_reset nd"
    by (rule keeps_node [OF keeps_tick_node [OF assms(1)]])
  show "node_reset (fst (snd (resume_node env tk rs path depth nd st))) = node_reset nd"
    using l by (cases nd) (simp_all add: resume_node_def reset_selector_finish [OF c]
      reset_sequence_finish [OF c] reset_parallel_with [OF p] reset_repeater_resume [OF assms(2,1)]
      reset_decorators [OF assms(2)])
qed

lemma keeps_tick: "keeps (tick env n)"
proof (induction n)
  case 0
  show ?case by (rule keepsI) simp
next
  case (Suc n)
  have "tick env (Suc n) = tick_node env (tick env n)" by (intro ext) simp
  with keeps_tick_node [OF Suc] show ?case by simp
qed

lemma keeps_resume_at: "keeps (resume_at env n path depth)"
proof (induction n arbitrary: path depth)
  case 0
  show ?case by (rule keepsI) simp
next
  case (Suc n)
  note r = keeps_node [OF keeps_resume_node [OF keeps_tick [of env n] Suc]]
  note t = keeps_node [OF keeps_tick_node [OF keeps_tick [of env n]]]
  show ?case by (rule keepsI) (simp add: r t)
qed

subsection \<open>Fuel does not matter above the height\<close>

definition agree :: "nat \<Rightarrow> 's ticker \<Rightarrow> 's ticker \<Rightarrow> bool" where
  "agree m tk tk' \<longleftrightarrow> (\<forall>nd st. node_height nd \<le> m \<longrightarrow> tk nd st = tk' nd st)"

lemma agreeD: "agree m tk tk' \<Longrightarrow> node_height nd \<le> m \<Longrightarrow> tk nd st = tk' nd st"
  by (simp add: agree_def)

lemma agree_composite_loop:
  "agree m tk tk' \<Longrightarrow> (\<And>c. c \<in> set cs \<Longrightarrow> node_height c \<le> m) \<Longrightarrow>
   composite_loop tk nm cont i cs st = composite_loop tk' nm cont i cs st"
proof (induction cs arbitrary: i st)
  case Nil
  then show ?case by simp
next
  case (Cons c cs)
  have r: "composite_loop tk nm cont (Suc i) cs = composite_loop tk' nm cont (Suc i) cs"
    using Cons by (intro ext) simp
  have c: "tk c = tk' c" using Cons.prems agreeD by (intro ext) fastforce
  show ?case unfolding composite_loop.simps r c ..
qed

lemma agree_composite_tick:
  "agree m tk tk' \<Longrightarrow> (\<And>c. c \<in> set cs \<Longrightarrow> node_height c \<le> m) \<Longrightarrow>
   composite_tick tk nm cont ac cs st = composite_tick tk' nm cont ac cs st"
  using agree_composite_loop [of m tk tk' "drop (unwrap_or 0 ac) cs" nm cont "unwrap_or 0 ac" st]
  by (simp add: composite_tick_def in_set_dropD)

lemma agree_composite_resume:
  assumes "agree m tk tk'" "\<And>p d. agree m (rs p d) (rs' p d)" "\<And>c. c \<in> set cs \<Longrightarrow> node_height c \<le> m"
  shows "composite_resume rs tk nm cont path depth cs st = composite_resume rs' tk' nm cont path depth cs st"
proof (cases "length cs \<le> path ! depth")
  case True
  then show ?thesis by (simp add: composite_resume_def)
next
  case False
  then have h: "node_height (cs ! (path ! depth)) \<le> m" by (intro assms(3)) simp
  have l: "composite_loop tk nm cont i (drop i cs) = composite_loop tk' nm cont i (drop i cs)" for i
    using assms by (intro ext agree_composite_loop) (auto dest: in_set_dropD)
  have c: "(if length path \<le> Suc depth then tk else rs path (Suc depth)) (cs ! (path ! depth)) =
      (if length path \<le> Suc depth then tk' else rs' path (Suc depth)) (cs ! (path ! depth))"
    using agreeD [OF assms(1) h] agreeD [OF assms(2) h] by (intro ext) simp
  show ?thesis unfolding composite_resume_def Let_def l c ..
qed

lemma agree_parallel_loop:
  "(\<And>i. agree m (f i) (f' i)) \<Longrightarrow> (\<And>c. c \<in> set cs \<Longrightarrow> node_height c \<le> m) \<Longrightarrow>
   parallel_loop f nm i cs st = parallel_loop f' nm i cs st"
proof (induction cs arbitrary: i st)
  case Nil
  then show ?case by simp
next
  case (Cons c cs)
  have r: "parallel_loop f nm (Suc i) cs = parallel_loop f' nm (Suc i) cs"
    using Cons by (intro ext) simp
  have c: "f i c = f' i c" using Cons.prems agreeD by (intro ext) fastforce
  show ?case unfolding parallel_loop.simps r c ..
qed

lemma agree_parallel_with:
  "(\<And>i. agree m (f i) (f' i)) \<Longrightarrow> (\<And>c. c \<in> set cs \<Longrightarrow> node_height c \<le> m) \<Longrightarrow>
   parallel_with f nm policy cs ac st = parallel_with f' nm policy cs ac st"
  using agree_parallel_loop [of m f f' cs] by (simp add: parallel_with_def)

lemma agree_repeater_loop:
  "agree m tk tk' \<Longrightarrow> keeps tk \<Longrightarrow> node_height c \<le> m \<Longrightarrow>
   repeater_loop tk mx cur c st = repeater_loop tk' mx cur c st"
proof (induction tk mx cur c st rule: repeater_loop.induct)
  case (1 tk mx cur c st)
  obtain r1 c1 st1 where t: "tk c st = (r1, c1, st1)" by (metis prod_cases3)
  have t': "tk' c st = (r1, c1, st1)" using agreeD [OF "1.prems"(1,3)] t by simp
  have h: "node_height c1 \<le> m" using keepsD [OF "1.prems"(2) t] "1.prems"(3) reset_eq_height by metis
  have "repeater_loop tk mx (cur + 1) c1 st1 = repeater_loop tk' mx (cur + 1) c1 st1"
    if "cur < mx" "r1 = Inr s" "s \<noteq> Running" "\<not> mx \<le> cur + 1" for s
    using "1.IH" [OF that(1) t [symmetric] that(2) refl that(3,4) "1.prems"(1,2) h] .
  then show ?case
    by (subst (1 2) repeater_loop.simps) (auto simp: t t' split: sum.split)
qed

lemma agree_repeater_tick:
  "agree m tk tk' \<Longrightarrow> keeps tk \<Longrightarrow> node_height c \<le> m \<Longrightarrow>
   repeater_tick tk nm mx c cur st = repeater_tick tk' nm mx c cur st"
  by (simp add: repeater_tick_def agree_repeater_loop)

lemma agree_repeater_resume:
  assumes "agree m run run'" "agree m tk tk'" "keeps run" "keeps tk" "node_height c \<le> m"
  shows "repeater_resume run tk nm mx c cur st = repeater_resume run' tk' nm mx c cur st"
proof -
  obtain r1 c1 st1 where t: "run c st = (r1, c1, st1)" by (metis prod_cases3)
  have "node_height c1 \<le> m" using keepsD [OF assms(3) t] assms(5) reset_eq_height by metis
  then have "repeater_tick tk nm mx c1 k st1 = repeater_tick tk' nm mx c1 k st1" for k
    using assms by (intro agree_repeater_tick)
  moreover have "run' c st = (r1, c1, st1)" using agreeD [OF assms(1,5), of st] t by simp
  ultimately show ?thesis by (simp add: repeater_resume_def t split: sum.split)
qed

lemma agree_decorators:
  assumes "agree m run run'" "node_height c \<le> m"
  shows "inverter_with run nm c st = inverter_with run' nm c st"
    and "cooldown_with env run nm d c l st = cooldown_with env run' nm d c l st"
    and "reflection_guard_with run nm mx c st = reflection_guard_with run' nm mx c st"
    and "force_human_with run nm why c st = force_human_with run' nm why c st"
    and "when_with env run nm cond c st = when_with env run' nm cond c st"
proof -
  have e: "run c = run' c" using agreeD [OF assms] by (rule ext)
  show "inverter_with run nm c st = inverter_with run' nm c st"
    and "cooldown_with env run nm d c l st = cooldown_with env run' nm d c l st"
    and "reflection_guard_with run nm mx c st = reflection_guard_with run' nm mx c st"
    and "force_human_with run nm why c st = force_human_with run' nm why c st"
    and "when_with env run nm cond c st = when_with env run' nm cond c st"
    unfolding inverter_with_def cooldown_with_def cooldown_run_def reflection_guard_with_def
      force_human_with_def when_with_def e by (rule refl)+
qed

lemma agree_subtree:
  "agree m run run' \<Longrightarrow> (\<And>c. root = Some c \<Longrightarrow> node_height c \<le> m) \<Longrightarrow>
   subtree_with run nm rf root st = subtree_with run' nm rf root st"
proof (cases root)
  case None
  show ?thesis unfolding subtree_with_def None option.case ..
next
  case (Some c)
  assume "agree m run run'" "\<And>c. root = Some c \<Longrightarrow> node_height c \<le> m"
  with Some have e: "run c = run' c" by (intro ext) (simp add: agree_def)
  show ?thesis unfolding subtree_with_def Some option.case e ..
qed

lemma agree_tick_node:
  assumes "agree m tk tk'" "keeps tk"
  shows "agree (Suc m) (tick_node env tk) (tick_node env tk')"
  unfolding agree_def
proof (intro allI impI)
  fix nd st
  assume "node_height nd \<le> Suc m"
  then have h: "\<And>c. c \<in> set (node_children nd) \<Longrightarrow> node_height c \<le> m" by (simp add: height_le_iff)
  show "tick_node env tk nd st = tick_node env tk' nd st"
  proof (cases "\<exists>nm rf root. nd = SubTree nm rf root")
    case True
    then show ?thesis using h by (auto simp: tick_node_def intro!: agree_subtree [OF assms(1)])
  next
    case False
    then show ?thesis
      using h by (cases nd) (simp_all add: tick_node_def agree_composite_tick [OF assms(1)]
        agree_parallel_with [OF assms(1)] agree_repeater_tick [OF assms] agree_decorators [OF assms(1)])
  qed
qed

lemma agree_resume_node:
  assumes "agree m tk tk'" "\<And>p d. agree m (rs p d) (rs' p d)" "keeps tk" "\<And>p d. keeps (rs p d)"
  shows "agree (Suc m) (resume_node env tk rs path depth) (resume_node env tk' rs' path depth)"
  unfolding agree_def
proof (intro allI impI)
  fix nd st
  assume hn: "node_height nd \<le> Suc m"
  then have h: "\<And>c. c \<in> set (node_children nd) \<Longrightarrow> node_height c \<le> m" by (simp add: height_le_iff)
  have p: "agree m (if i = path ! depth \<and> Suc depth < length path then rs path (Suc depth) else tk)
    (if i = path ! depth \<and> Suc depth < length path then rs' path (Suc depth) else tk')" for i
    using assms by simp
  note l = agreeD [OF agree_tick_node [OF assms(1,3)] hn]
  show "resume_node env tk rs path depth nd st = resume_node env tk' rs' path depth nd st"
  proof (cases "\<exists>nm rf root. nd = SubTree nm rf root")
    case True
    then show ?thesis using h by (auto simp: resume_node_def intro!: agree_subtree [OF assms(2)])
  next
    case False
    then show ?thesis
      using h l by (cases nd) (simp_all add: resume_node_def agree_composite_resume [OF assms(1,2)]
        agree_parallel_with [OF p] agree_repeater_resume [OF assms(2,1,4,3)] agree_decorators [OF assms(2)])
  qed
qed

lemma tick_fuel: "node_height nd \<le> n \<Longrightarrow> node_height nd \<le> k \<Longrightarrow> tick env n nd st = tick env k nd st"
proof (induction n arbitrary: k nd st)
  case 0
  then show ?case using height_pos [of nd] by simp
next
  case (Suc n)
  obtain j where k: "k = Suc j" using Suc.prems height_pos [of nd] by (cases k) auto
  have "agree (min n j) (tick env n) (tick env j)"
    unfolding agree_def using Suc.IH by simp
  then have "agree (Suc (min n j)) (tick_node env (tick env n)) (tick_node env (tick env j))"
    using keeps_tick by (rule agree_tick_node)
  moreover have "node_height nd \<le> Suc (min n j)" using Suc.prems k by simp
  ultimately show ?case using agreeD by (simp add: k)
qed

lemma resume_fuel:
  "node_height nd \<le> n \<Longrightarrow> node_height nd \<le> k \<Longrightarrow>
   resume_at env n path depth nd st = resume_at env k path depth nd st"
proof (induction n arbitrary: k nd st path depth)
  case 0
  then show ?case using height_pos [of nd] by simp
next
  case (Suc n)
  obtain j where k: "k = Suc j" using Suc.prems height_pos [of nd] by (cases k) auto
  have t: "agree (min n j) (tick env n) (tick env j)"
    unfolding agree_def by (auto intro: tick_fuel)
  have r: "agree (min n j) (resume_at env n p d) (resume_at env j p d)" for p d
    unfolding agree_def using Suc.IH by simp
  have h: "node_height nd \<le> Suc (min n j)" using Suc.prems k by simp
  show ?case
    using agreeD [OF agree_tick_node [OF t keeps_tick] h]
      agreeD [OF agree_resume_node [OF t r keeps_tick keeps_resume_at] h]
    by (simp add: k)
qed

subsection \<open>The equations of the recursive functions\<close>

lemma node_tick_eq: "node_tick env nd st = tick_node env (node_tick env) nd st"
proof -
  obtain h where h: "node_height nd = Suc h" using height_pos [of nd] by (cases "node_height nd") auto
  have "agree h (tick env h) (node_tick env)"
    unfolding agree_def node_tick_def by (auto intro: tick_fuel)
  from agreeD [OF agree_tick_node [OF this keeps_tick], of nd env st]
  have "tick_node env (tick env h) nd st = tick_node env (node_tick env) nd st" by (simp add: h)
  then show ?thesis unfolding node_tick_def [of env nd st] h tick.simps .
qed

lemma node_resume_eq:
  "node_resume env path depth nd st =
     (if length path \<le> depth then node_tick env nd st
      else resume_node env (node_tick env) (node_resume env) path depth nd st)"
proof -
  obtain h where h: "node_height nd = Suc h" using height_pos [of nd] by (cases "node_height nd") auto
  have t: "agree h (tick env h) (node_tick env)"
    unfolding agree_def node_tick_def by (auto intro: tick_fuel)
  have r: "agree h (resume_at env h p d) (node_resume env p d)" for p d
    unfolding agree_def node_resume_def by (auto intro: resume_fuel)
  have hn: "node_height nd \<le> Suc h" by (simp add: h)
  have a: "resume_node env (tick env h) (resume_at env h) path depth nd st =
      resume_node env (node_tick env) (node_resume env) path depth nd st"
    by (rule agreeD [OF agree_resume_node [OF t r keeps_tick keeps_resume_at] hn])
  have "node_tick env nd st = tick_node env (tick env h) nd st"
    unfolding node_tick_def h tick.simps ..
  with a show ?thesis unfolding node_resume_def [of env path depth nd st] h resume_at.simps by simp
qed

lemma keeps_node_tick: "keeps (node_tick env)"
  by (rule keepsI) (simp add: node_tick_def keeps_node [OF keeps_tick])

lemma keeps_node_resume: "keeps (node_resume env path depth)"
  by (rule keepsI) (simp add: node_resume_def keeps_node [OF keeps_resume_at])

end
