(* ===== verification/Dsl_Laws.thy ===== *)
theory Dsl_Laws
  imports Dsl_Adequacy
begin

text \<open>
  What a tick may do to the state. The locale \<open>tick_relation\<close> lists the primitive effects of the
  interpreter (tracer brackets, scopes, blackboard writes, session and clock) and what a relation
  between the states before and after must allow; its lemmas say that then every tick and every
  resumption is in the relation. Its interpretations give the laws of the interpreter: command
  buffer and trace only grow, tracer and scopes are balanced when a tick succeeds, the context
  fields of the blackboard are untouched, and a tick does not run out of stack.
\<close>

lemma on_bb_comp: "on_bb f (on_bb g st) = on_bb (\<lambda>b. f (g b)) st"
  by (simp add: on_bb_def)

locale tick_relation =
  fixes env :: "'s env"
    and B :: "'s rt \<Rightarrow> 's rt \<Rightarrow> bool"
    and F :: "fail \<Rightarrow> 's rt \<Rightarrow> 's rt \<Rightarrow> bool"
  assumes B_refl: "B st st"
    and B_trans: "B st1 st2 \<Longrightarrow> B st2 st3 \<Longrightarrow> B st1 st3"
    and F_here: "F (RtErr e) st st"
    and F_after: "B st1 st2 \<Longrightarrow> F f st2 st3 \<Longrightarrow> F f st1 st3"
    and bracket: "B (on_tracer (trace_enter nm i) st) st' \<Longrightarrow> B st (on_tracer (trace_exit nm s) st')"
    and bracket_fail: "F f (on_tracer (trace_enter nm i) st) st' \<Longrightarrow> F f st st'"
    and scope: "push_scope (rt_bb st) = (Inr (), b) \<Longrightarrow> B (st\<lparr>rt_bb := b\<rparr>) st' \<Longrightarrow> B st (on_bb pop_scope st')"
    and scope_fail: "push_scope (rt_bb st) = (Inr (), b) \<Longrightarrow> F f (st\<lparr>rt_bb := b\<rparr>) st' \<Longrightarrow> F f st st'"
    and on_trace: "B st (on_tracer (trace te) st)"
    and on_set: "B st (on_bb (bb_set key v) st)"
    and on_command: "B st (on_bb (push_command cmd) st)"
    and on_response: "B st (on_bb (store_llm_response key reply) st)"
    and on_round: "B st (on_bb bump_reflection st)"
    and on_session: "B st (st\<lparr>rt_session := se\<rparr>)"
    and on_clock: "B st (st\<lparr>rt_readings := Suc (rt_readings st)\<rparr>)"
begin

fun out :: "fail + 'a \<Rightarrow> 's rt \<Rightarrow> 's rt \<Rightarrow> bool" where
  "out (Inl f) st st' = F f st st'"
| "out (Inr a) st st' = B st st'"

definition good :: "'s ticker \<Rightarrow> bool" where
  "good tk \<longleftrightarrow> (\<forall>nd st r nd' st'. tk nd st = (r, nd', st') \<longrightarrow> out r st st')"

lemma goodD: "good tk \<Longrightarrow> tk nd st = (r, nd', st') \<Longrightarrow> out r st st'"
  unfolding good_def by blast

lemma goodI: "(\<And>nd st. out (fst (tk nd st)) st (snd (snd (tk nd st)))) \<Longrightarrow> good tk"
  unfolding good_def by (metis fst_conv snd_conv)

lemma out_after: "B st1 st2 \<Longrightarrow> out r st2 st3 \<Longrightarrow> out r st1 st3"
  by (cases r) (auto intro: B_trans F_after)

lemma out_bracket: "out r (on_tracer (trace_enter nm i) st) st' \<Longrightarrow> r = Inl f \<Longrightarrow> F f st st'"
  by (auto intro: bracket_fail)

lemma out_map [simp]: "out (result_map g r) = out r"
  by (intro ext) (cases r; simp)

lemma B_clock_now: "clock_now env st = (now, st') \<Longrightarrow> B st st'"
  by (auto simp: clock_now_def intro: on_clock)

subsection \<open>Composites\<close>

lemma out_composite_loop:
  "good tk \<Longrightarrow> composite_loop tk nm cont i cs st = (r, cs', st') \<Longrightarrow> out r st st'"
proof (induction cs arbitrary: i st r cs' st')
  case Nil
  then show ?case by (auto intro: B_refl)
next
  case (Cons c cs)
  obtain r1 c1 st1 where t: "tk c (on_tracer (trace_enter nm i) st) = (r1, c1, st1)" by (metis prod_cases3)
  note o = goodD [OF Cons.prems(1) t]
  show ?case
  proof (cases r1)
    case (Inl f)
    with Cons.prems t o show ?thesis by (auto intro: bracket_fail)
  next
    case (Inr s)
    with o have b: "B st (on_tracer (trace_exit nm s) st1)" by (auto intro: bracket)
    show ?thesis
    proof (cases "s = cont")
      case True
      obtain r2 ds st2 where l: "composite_loop tk nm cont (Suc i) cs (on_tracer (trace_exit nm s) st1) = (r2, ds, st2)"
        by (metis prod_cases3)
      have "r = r2 \<and> st' = st2" using Cons.prems(2) t Inr True l by simp
      with out_after [OF b Cons.IH [OF Cons.prems(1) l]] show ?thesis by simp
    next
      case False
      with Cons.prems(2) t Inr have "r = Inr (Some (i, s)) \<and> st' = on_tracer (trace_exit nm s) st1" by simp
      with b show ?thesis by simp
    qed
  qed
qed

lemma out_composite_tick:
  "good tk \<Longrightarrow> composite_tick tk nm cont ac cs st = (r, cs', st') \<Longrightarrow> out r st st'"
  by (auto simp: composite_tick_def Let_def split: prod.split_asm dest: out_composite_loop)

lemma out_parallel_loop:
  "(\<And>i. good (f i)) \<Longrightarrow> parallel_loop f nm i cs st = (r, cs', st') \<Longrightarrow> out r st st'"
proof (induction cs arbitrary: i st r cs' st')
  case Nil
  then show ?case by (auto intro: B_refl)
next
  case (Cons c cs)
  obtain r1 c1 st1 where t: "f i c (on_tracer (trace_enter nm i) st) = (r1, c1, st1)" by (metis prod_cases3)
  note o = goodD [OF Cons.prems(1) t]
  show ?case
  proof (cases r1)
    case (Inl e)
    with Cons.prems t o show ?thesis by (auto intro: bracket_fail)
  next
    case (Inr s)
    with o have b: "B st (on_tracer (trace_exit nm s) st1)" by (auto intro: bracket)
    obtain r2 ds st2 where l: "parallel_loop f nm (Suc i) cs (on_tracer (trace_exit nm s) st1) = (r2, ds, st2)"
      by (metis prod_cases3)
    have "r = result_map (\<lambda>ss. s # ss) r2 \<and> st' = st2" using Cons.prems(2) t Inr l by simp
    with out_after [OF b Cons.IH [OF Cons.prems(1) l]] show ?thesis by simp
  qed
qed

lemma B_trace_rule: "B st (on_tracer (trace_rule rn rp mt k) st)"
proof -
  have f: "B st (on_tracer (fold trace es) st)" for es st
  proof (induction es arbitrary: st)
    case Nil
    have "on_tracer (fold trace []) st = st" by (simp add: on_tracer_def)
    then show ?case by (metis B_refl)
  next
    case (Cons e es)
    have e: "on_tracer (fold trace (e # es)) st = on_tracer (fold trace es) (on_tracer (trace e) st)"
      by (simp add: on_tracer_def)
    show ?case unfolding e by (rule B_trans [OF on_trace Cons])
  qed
  show ?thesis
  proof (cases rn)
    case None
    then have "on_tracer (trace_rule rn rp mt k) st = st" by (simp add: trace_rule_def on_tracer_def)
    then show ?thesis by (simp add: B_refl)
  next
    case (Some rule)
    let ?es = "(if mt then [] else [TrRuleMatched rule (unwrap_or 0 rp)])
      @ replicate k (TrRuleSkipped rule ''lower priority rule not evaluated'')"
    have e: "on_tracer (trace_rule rn rp mt k) st = on_tracer (fold trace ?es) st"
      by (simp add: trace_rule_def Some on_tracer_def)
    show ?thesis unfolding e by (rule f)
  qed
qed

lemma out_selector_finish:
  "out r st st' \<Longrightarrow> selector_finish nm ac rn rp mt (r, cs, st') = (r', nd', st'') \<Longrightarrow> out r' st st''"
  by (auto simp: selector_finish_def split: sum.split_asm option.split_asm prod.split_asm if_split_asm
      intro: B_trans [OF _ B_trace_rule])

lemma out_sequence_finish:
  "out r st st' \<Longrightarrow> sequence_finish nm ac (r, cs, st') = (r', nd', st'') \<Longrightarrow> out r' st st''"
  by (auto simp: sequence_finish_def split: sum.split_asm option.split_asm prod.split_asm if_split_asm)

lemma out_parallel_with:
  assumes "\<And>i. good (f i)" and "parallel_with f nm policy cs ac st = (r, nd', st')"
  shows "out r st st'"
proof -
  obtain r1 cs1 st1 where l: "parallel_loop f nm 0 cs st = (r1, cs1, st1)" by (metis prod_cases3)
  show ?thesis
    using assms(2) out_parallel_loop [OF assms(1) l]
    by (auto simp: parallel_with_def l B_refl split: sum.split_asm if_split_asm)
qed

subsection \<open>Decorators\<close>

lemma out_repeater_loop:
  "good tk \<Longrightarrow> repeater_loop tk mx cur c st = (r, c', cur', st') \<Longrightarrow> out r st st'"
proof (induction tk mx cur c st rule: repeater_loop.induct)
  case (1 tk mx cur c st)
  obtain r1 c1 st1 where t: "tk c st = (r1, c1, st1)" by (metis prod_cases3)
  note o = goodD [OF "1.prems"(1) t]
  show ?case
  proof (cases "\<exists>s. cur < mx \<and> r1 = Inr s \<and> s \<noteq> Running \<and> \<not> mx \<le> cur + 1")
    case True
    then obtain s where s: "cur < mx" "r1 = Inr s" "s \<noteq> Running" "\<not> mx \<le> cur + 1" by blast
    then have "repeater_loop tk mx (cur + 1) c1 st1 = (r, c', cur', st')"
      using "1.prems"(2) t by (subst (asm) repeater_loop.simps) simp
    from "1.IH" [OF s(1) t [symmetric] s(2) refl s(3,4) "1.prems"(1) this]
    show ?thesis using o s(2) by (auto intro: out_after)
  next
    case False
    with "1.prems"(2) t o show ?thesis
      by (subst (asm) repeater_loop.simps) (auto split: sum.split_asm if_split_asm intro: B_refl)
  qed
qed

lemma out_repeater_tick:
  "good tk \<Longrightarrow> repeater_tick tk nm mx c cur st = (r, nd', st') \<Longrightarrow> out r st st'"
  by (auto simp: repeater_tick_def B_refl split: if_split_asm prod.split_asm dest: out_repeater_loop)

lemma out_cooldown_run:
  assumes "good run" "cooldown_run env run nm d c l st = (r, nd', st')"
  shows "out r st st'"
proof -
  obtain r1 c1 st1 where t: "run c st = (r1, c1, st1)" by (metis prod_cases3)
  obtain now st2 where n: "clock_now env st1 = (now, st2)" by (cases "clock_now env st1")
  show ?thesis
    using goodD [OF assms(1) t] assms(2) B_clock_now [OF n]
    by (auto simp: cooldown_run_def t n split: sum.split_asm node_status.split_asm intro: B_trans)
qed

lemma out_cooldown_with:
  assumes "good run" "cooldown_with env run nm d c l st = (r, nd', st')"
  shows "out r st st'"
proof (cases l)
  case None
  with assms show ?thesis by (auto simp: cooldown_with_def dest: out_cooldown_run)
next
  case (Some prev)
  obtain now st1 where n: "clock_now env st = (now, st1)" by (cases "clock_now env st")
  show ?thesis
    using assms(2) B_clock_now [OF n] out_cooldown_run [OF assms(1)]
    by (auto simp: cooldown_with_def Some n split: if_split_asm intro: out_after)
qed

lemma out_decorators:
  assumes "good run"
  shows "inverter_with run nm c st = (r, nd', st') \<Longrightarrow> out r st st'"
    and "reflection_guard_with run nm rounds c st = (r, nd', st') \<Longrightarrow> out r st st'"
    and "force_human_with run nm why c st = (r, nd', st') \<Longrightarrow> out r st st'"
    and "when_with env run nm cond c st = (r, nd', st') \<Longrightarrow> out r st st'"
proof -
  obtain r1 c1 st1 where t: "run c st = (r1, c1, st1)" by (metis prod_cases3)
  note o = goodD [OF assms t]
  show "out r st st'" if "inverter_with run nm c st = (r, nd', st')"
    using that o by (auto simp: inverter_with_def t)
  show "out r st st'" if "reflection_guard_with run nm rounds c st = (r, nd', st')"
    using that o by (auto simp: reflection_guard_with_def t B_refl split: if_split_asm
        intro: B_trans on_round)
  show "out r st st'" if "force_human_with run nm why c st = (r, nd', st')"
    using that o by (auto simp: force_human_with_def t split: if_split_asm intro: B_trans on_command)
  show "out r st st'" if "when_with env run nm cond c st = (r, nd', st')"
    using that o by (auto simp: when_with_def t B_refl F_here split: sum.split_asm bool.split_asm)
qed

lemma out_subtree_with:
  assumes "good run" "subtree_with run nm rf root st = (r, nd', st')"
  shows "out r st st'"
proof -
  define s0 where "s0 = on_tracer (trace (TrEnterSubTree nm rf)) st"
  have b0: "B st s0" by (simp add: s0_def on_trace)
  obtain p b where p: "push_scope (rt_bb s0) = (p, b)" by (cases "push_scope (rt_bb s0)")
  show ?thesis
  proof (cases p)
    case (Inl e)
    with assms(2) p have "r = Inl (RtErr ScopeDepthExceeded) \<and> st' = s0"
      by (simp add: subtree_with_def Let_def flip: s0_def)
    with F_after [OF b0 F_here] show ?thesis by simp
  next
    case (Inr u)
    then have p: "push_scope (rt_bb s0) = (Inr (), b)" using p by simp
    define s1 where "s1 = s0\<lparr>rt_bb := b\<rparr>"
    show ?thesis
    proof (cases root)
      case None
      with assms(2) p have "r = Inl (RtErr (SubTreeNotResolved rf)) \<and> st' = on_bb pop_scope s1"
        by (simp add: subtree_with_def Let_def s1_def flip: s0_def)
      moreover have "B s0 (on_bb pop_scope s1)" using scope [OF p] B_refl by (simp add: s1_def)
      ultimately show ?thesis using F_after [OF B_trans [OF b0] F_here] by simp
    next
      case (Some c)
      obtain r1 c1 s2 where t: "run c s1 = (r1, c1, s2)" by (metis prod_cases3)
      note o = goodD [OF assms(1) t]
      show ?thesis
      proof (cases r1)
        case (Inl f)
        with assms(2) p Some t have "r = Inl f \<and> st' = s2"
          by (simp add: subtree_with_def Let_def flip: s0_def s1_def)
        moreover have "F f s0 s2" using scope_fail [OF p] o Inl by (simp add: s1_def)
        ultimately show ?thesis using F_after [OF b0] by simp
      next
        case (Inr s)
        with assms(2) p Some t
        have "r = Inr s \<and> st' = on_tracer (trace (TrExitSubTree nm rf s)) (on_bb pop_scope s2)"
          by (simp add: subtree_with_def Let_def flip: s0_def s1_def)
        moreover have "B s0 (on_bb pop_scope s2)" using scope [OF p] o Inr by (simp add: s1_def)
        ultimately show ?thesis using B_trans [OF B_trans [OF b0] on_trace] by simp
      qed
    qed
  qed
qed

subsection \<open>Leaves\<close>

lemma B_apply_sets: "B st (on_bb (apply_sets ms vals) st)"
proof (induction ms arbitrary: st)
  case Nil
  have "on_bb (apply_sets [] vals) st = st" by (simp add: on_bb_def)
  then show ?case by (metis B_refl)
next
  case (Cons m ms)
  let ?g = "\<lambda>b. case map_of vals (sm_field m) of Some v \<Rightarrow> bb_set (sm_key m) v b | None \<Rightarrow> b"
  have "on_bb (apply_sets (m # ms) vals) st = on_bb (apply_sets ms vals) (on_bb ?g st)"
    by (simp add: on_bb_def)
  moreover have "B st (on_bb ?g st)"
  proof (cases "map_of vals (sm_field m)")
    case None
    then have "on_bb ?g st = st" by (simp add: on_bb_def)
    then show ?thesis by (metis B_refl)
  qed (simp add: on_set)
  ultimately show ?case using B_trans [OF _ Cons] by metis
qed

lemma B_parsed_command: "B st (on_bb (push_parsed_command vals) st)"
proof (cases "\<exists>c. map_of vals ''__command'' = Some (VCommand c)")
  case True
  then obtain c where "map_of vals ''__command'' = Some (VCommand c)" by blast
  then have "on_bb (push_parsed_command vals) st = on_bb (push_command c) st"
    by (simp add: push_parsed_command_def on_bb_def)
  then show ?thesis by (metis on_command)
next
  case False
  then have "on_bb (push_parsed_command vals) st = st"
    by (auto simp: push_parsed_command_def on_bb_def split: option.split bb_value.split)
  then show ?thesis by (metis B_refl)
qed

lemma B_prompt_reply:
  assumes "prompt_reply env' nm ps sts reply st = (s, st')"
  shows "B st st'"
proof -
  define s1 where "s1 = on_tracer (trace (TrPromptSuccess nm reply)) (on_bb (store_llm_response nm reply) st)"
  have b: "B st s1" unfolding s1_def by (rule B_trans [OF on_response on_trace])
  show ?thesis
  proof (cases "parse_reply (e_externs env') ps reply")
    case (Inl e)
    with assms have "st' = on_tracer (trace (TrPromptFailure nm (runtime_error_display e))) s1"
      by (simp add: prompt_reply_def s1_def)
    then show ?thesis using B_trans [OF b on_trace] by simp
  next
    case (Inr vals)
    with assms have "st' = on_bb (apply_sets sts vals) (on_bb (push_parsed_command vals) s1)"
      by (simp add: prompt_reply_def Let_def on_bb_comp flip: s1_def)
    then show ?thesis using B_trans [OF b B_trans [OF B_parsed_command B_apply_sets]] by simp
  qed
qed

lemma out_prompt_poll:
  assumes "prompt_poll env nm md tp ps sts tmo sa st = (r, nd', st')"
  shows "out r st st'"
proof (cases "so_is_ready (e_session env) (rt_session st)")
  case False
  with assms show ?thesis by (auto simp: prompt_poll_def B_refl)
next
  case True
  obtain r1 se where t: "so_receive (e_session env) (rt_session st) = (r1, se)"
    by (cases "so_receive (e_session env) (rt_session st)")
  show ?thesis
  proof (cases r1)
    case (Inl e)
    with assms True t show ?thesis
      by (auto simp: prompt_poll_def session_fail_def intro: F_after [OF on_session F_here])
  next
    case (Inr reply)
    obtain s st2 where p: "prompt_reply env nm ps sts reply (st\<lparr>rt_session := se\<rparr>) = (s, st2)"
      by (cases "prompt_reply env nm ps sts reply (st\<lparr>rt_session := se\<rparr>)")
    with assms True t Inr have "r = Inr s \<and> st' = st2" by (simp add: prompt_poll_def)
    with B_trans [OF on_session B_prompt_reply [OF p]] show ?thesis by simp
  qed
qed

lemma out_prompt_send:
  assumes "prompt_send env nm md tp ps sts tmo sa st = (r, nd', st')"
  shows "out r st st'"
proof (cases "render_prompt_template (e_externs env) tp (to_template_context (rt_bb st))")
  case (Inl e)
  with assms show ?thesis by (auto simp: prompt_send_def F_here)
next
  case (Inr rendered)
  define s1 where "s1 = on_tracer (trace (TrPromptSent nm)) st"
  obtain r1 se where t: "(case md of
      Some m \<Rightarrow> so_send_with_hint (e_session env) rendered m (rt_session s1)
    | None \<Rightarrow> so_send (e_session env) rendered (rt_session s1)) = (r1, se)" by (metis surj_pair)
  have b: "B st (s1\<lparr>rt_session := se\<rparr>)" using B_trans [OF on_trace on_session] by (simp add: s1_def)
  obtain now st2 where n: "clock_now env (s1\<lparr>rt_session := se\<rparr>) = (now, st2)" by (metis surj_pair)
  show ?thesis
  proof (cases r1)
    case (Inl e)
    with assms Inr t have "r = Inl (session_fail e) \<and> st' = s1\<lparr>rt_session := se\<rparr>"
      by (simp add: prompt_send_def Let_def flip: s1_def)
    with F_after [OF b F_here] show ?thesis by (simp add: session_fail_def)
  next
    case (Inr u)
    with assms \<open>_ = Inr rendered\<close> t n have "r = Inr Running \<and> st' = st2"
      by (simp add: prompt_send_def Let_def flip: s1_def)
    with B_trans [OF b B_clock_now [OF n]] show ?thesis by simp
  qed
qed

lemma out_prompt_tick:
  assumes "prompt_tick env nm md tp ps sts tmo pd sa st = (r, nd', st')"
  shows "out r st st'"
proof (cases "pd \<and> sa \<noteq> None")
  case False
  with assms show ?thesis
    by (auto simp: prompt_tick_def split: if_split_asm dest: out_prompt_send out_prompt_poll)
next
  case True
  then obtain t where sa: "pd" "sa = Some t" by auto
  obtain now st1 where n: "clock_now env st = (now, st1)" by (metis surj_pair)
  note b = B_clock_now [OF n]
  show ?thesis
    using assms B_trans [OF b on_trace] out_after [OF b out_prompt_poll]
    by (auto simp: prompt_tick_def sa n split: if_split_asm)
qed

lemma out_leaves:
  "condition_tick env nm ev st = (r, nd', st') \<Longrightarrow> out r st st'"
  "action_tick env nm cmd wh st = (r, nd', st') \<Longrightarrow> out r st st'"
  "set_var_tick nm key v st = (r, nd', st') \<Longrightarrow> out r st st'"
proof -
  show "out r st st'" if "condition_tick env nm ev st = (r, nd', st')"
    using that by (auto simp: condition_tick_def B_refl F_here split: sum.split_asm)
  have e: "out r st st'" if "action_emit env nm cmd wh st = (r, nd', st')"
    using that B_trans [OF on_command on_trace]
    by (auto simp: action_emit_def F_here split: sum.split_asm)
  show "out r st st'" if "action_tick env nm cmd wh st = (r, nd', st')"
    using that e
    by (auto simp: action_tick_def B_refl F_here split: option.split_asm sum.split_asm if_split_asm)
  show "out r st st'" if "set_var_tick nm key v st = (r, nd', st')"
    using that by (auto simp: set_var_tick_def on_set)
qed

subsection \<open>Nodes\<close>

lemma good_tick_node: "good tk \<Longrightarrow> good (tick_node env tk)"
  unfolding good_def [of "tick_node env tk"]
proof (intro allI impI)
  fix nd st r nd' st'
  assume g: "good tk" and t: "tick_node env tk nd st = (r, nd', st')"
  have sel: "out r st st'" if "selector_finish nm ac rn rp mt (composite_tick tk nm cont ac cs st) = (r, nd', st')"
    for nm ac rn rp mt cont cs
    using that out_composite_tick [OF g] out_selector_finish by (metis prod_cases3)
  have sq: "out r st st'" if "sequence_finish nm ac (composite_tick tk nm cont ac cs st) = (r, nd', st')"
    for nm ac cont cs
    using that out_composite_tick [OF g] out_sequence_finish by (metis prod_cases3)
  show "out r st st'"
    using t by (cases nd) (auto simp: tick_node_def g dest!: sel sq out_parallel_with [rotated]
      out_repeater_tick [OF g] out_cooldown_with [OF g] out_decorators [OF g] out_subtree_with [OF g]
      out_leaves out_prompt_tick)
qed

lemma out_node_tick: "node_tick env nd st = (r, nd', st') \<Longrightarrow> out r st st'"
proof (induction "node_height nd" arbitrary: nd st r nd' st' rule: less_induct)
  case less
  obtain h where h: "node_height nd = Suc h" using height_pos [of nd] by (cases "node_height nd") auto
  define tk where "tk = (\<lambda>c s. if node_height c \<le> h then node_tick env c s else (Inr Success, c, s))"
  have "good tk" unfolding good_def tk_def using less.hyps by (auto simp: h B_refl less_Suc_eq_le)
  then have g: "good (tick_node env tk)" by (rule good_tick_node)
  have "agree h (node_tick env) tk" by (simp add: agree_def tk_def)
  then have "tick_node env (node_tick env) nd st = tick_node env tk nd st"
    by (rule agreeD [OF agree_tick_node [OF _ keeps_node_tick]]) (simp add: h)
  with less.prems show ?case using goodD [OF g] by (simp add: node_tick_eq [of env nd])
qed

lemma good_node_tick: "good (node_tick env)"
  unfolding good_def by (blast intro: out_node_tick)

end

text \<open>Resumption may in addition panic, on a path that leaves the tree.\<close>

locale resume_relation = tick_relation +
  assumes F_panic: "F RtPanic st st"
begin

lemma out_composite_resume:
  assumes "good tk" "\<And>p d. good (rs p d)"
    and "composite_resume rs tk nm cont path depth cs st = (r, cs', st')"
  shows "out r st st'"
proof -
  define idx where "idx = path ! depth"
  define run where "run = (if length path \<le> Suc depth then tk else rs path (Suc depth))"
  have gr: "good run" using assms by (simp add: run_def)
  show ?thesis
  proof (cases "length cs \<le> idx")
    case True
    with assms(3) show ?thesis
      by (auto simp: composite_resume_def Let_def simp flip: idx_def intro: bracket_fail [OF F_panic])
  next
    case False
    obtain r1 c1 st1 where t: "run (cs ! idx) (on_tracer (trace_enter nm idx) st) = (r1, c1, st1)"
      by (metis prod_cases3)
    note o = goodD [OF gr t]
    show ?thesis
    proof (cases r1)
      case (Inl f)
      with assms(3) False t o show ?thesis
        by (auto simp: composite_resume_def Let_def simp flip: idx_def run_def intro: bracket_fail)
    next
      case (Inr s)
      with o have b: "B st (on_tracer (trace_exit nm s) st1)" by (auto intro: bracket)
      obtain r2 ds st2 where l: "composite_loop tk nm cont (Suc idx) (drop (Suc idx) cs)
          (on_tracer (trace_exit nm s) st1) = (r2, ds, st2)" by (metis prod_cases3)
      from assms(3) False t Inr l have
        "if s = cont then r = r2 \<and> st' = st2 else r = Inr (Some (idx, s)) \<and> st' = on_tracer (trace_exit nm s) st1"
        by (auto simp: composite_resume_def Let_def simp flip: idx_def run_def)
      then show ?thesis using b out_after [OF b out_composite_loop [OF assms(1) l]]
        by (auto split: if_split_asm)
    qed
  qed
qed

lemma out_repeater_resume:
  assumes "good run" "good tk" "repeater_resume run tk nm mx c cur st = (r, nd', st')"
  shows "out r st st'"
proof -
  obtain r1 c1 st1 where t: "run c st = (r1, c1, st1)" by (metis prod_cases3)
  note o = goodD [OF assms(1) t]
  show ?thesis using assms(3) o out_repeater_tick [OF assms(2)]
    by (auto simp: repeater_resume_def t B_refl split: if_split_asm sum.split_asm intro: out_after)
qed

lemma good_resume_node:
  assumes g: "good tk" and gr: "\<And>p d. good (rs p d)"
  shows "good (resume_node env tk rs path depth)"
  unfolding good_def
proof (intro allI impI)
  fix nd st r nd' st'
  assume t: "resume_node env tk rs path depth nd st = (r, nd', st')"
  have sel: "out r st st'"
    if f: "selector_finish nm ac rn rp mt (composite_resume rs tk nm cont path depth cs st) = (r, nd', st')"
    for nm ac rn rp mt cont cs
  proof -
    obtain r1 ds st1 where l: "composite_resume rs tk nm cont path depth cs st = (r1, ds, st1)"
      by (metis prod_cases3)
    show ?thesis by (rule out_selector_finish [OF out_composite_resume [OF g gr l] f [unfolded l]])
  qed
  have sq: "out r st st'"
    if f: "sequence_finish nm ac (composite_resume rs tk nm cont path depth cs st) = (r, nd', st')"
    for nm ac cont cs
  proof -
    obtain r1 ds st1 where l: "composite_resume rs tk nm cont path depth cs st = (r1, ds, st1)"
      by (metis prod_cases3)
    show ?thesis by (rule out_sequence_finish [OF out_composite_resume [OF g gr l] f [unfolded l]])
  qed
  have lf: "out r st st'" if "tick_node env tk nd0 st = (r, nd', st')" for nd0
    by (rule goodD [OF good_tick_node [OF g] that])
  have p: "good (if i = path ! depth \<and> Suc depth < length path then rs path (Suc depth) else tk)" for i
    using g gr by simp
  show "out r st st'"
  proof (cases nd)
    case (Parallel nm policy cs ac)
    with t have "parallel_with (\<lambda>i. if i = path ! depth \<and> Suc depth < length path
        then rs path (Suc depth) else tk) nm policy cs ac st = (r, nd', st')"
      by (simp add: resume_node_def)
    with p show ?thesis by (rule out_parallel_with)
  qed (use t in \<open>auto simp: resume_node_def dest!: lf sel sq out_repeater_resume [OF gr g]
      out_cooldown_with [OF gr] out_decorators [OF gr] out_subtree_with [OF gr]\<close>)
qed

lemma out_node_resume: "node_resume env path depth nd st = (r, nd', st') \<Longrightarrow> out r st st'"
proof (induction "node_height nd" arbitrary: nd st r nd' st' path depth rule: less_induct)
  case less
  obtain h where h: "node_height nd = Suc h" using height_pos [of nd] by (cases "node_height nd") auto
  define rs where "rs = (\<lambda>p d c s. if node_height c \<le> h then node_resume env p d c s else (Inr Success, c, s))"
  have "good (rs p d)" for p d
    unfolding good_def rs_def using less.hyps by (auto simp: h B_refl less_Suc_eq_le)
  then have g: "good (resume_node env (node_tick env) rs path depth)"
    by (rule good_resume_node [OF good_node_tick])
  have r: "agree h (node_resume env p d) (rs p d)" for p d by (simp add: agree_def rs_def)
  have t: "agree h (node_tick env) (node_tick env)" by (simp add: agree_def)
  have hn: "node_height nd \<le> Suc h" by (simp add: h)
  have "resume_node env (node_tick env) (node_resume env) path depth nd st =
      resume_node env (node_tick env) rs path depth nd st"
    by (rule agreeD [OF agree_resume_node [OF t r keeps_node_tick keeps_node_resume] hn])
  with less.prems have "if length path \<le> depth then node_tick env nd st = (r, nd', st')
      else resume_node env (node_tick env) rs path depth nd st = (r, nd', st')"
    by (simp add: node_resume_eq [of env path] split: if_split_asm)
  then show ?case using goodD [OF g, of nd st r nd' st'] out_node_tick [of nd st r nd' st']
    by (simp split: if_split_asm)
qed

end

subsection \<open>The laws\<close>

lemmas state_effect_defs = on_tracer_def on_bb_def trace_def trace_enter_def trace_exit_def bb_write_defs
  bump_reflection_def

text \<open>Commands and trace are only appended to, and clock readings only made, even when a tick fails.\<close>

definition grows :: "'s rt \<Rightarrow> 's rt \<Rightarrow> bool" where
  "grows st st' \<longleftrightarrow> prefix (bb_commands (rt_bb st)) (bb_commands (rt_bb st')) \<and>
     prefix (tr_entries (rt_tracer st)) (tr_entries (rt_tracer st')) \<and> rt_readings st \<le> rt_readings st'"

lemma grows_trans: "grows st1 st2 \<Longrightarrow> grows st2 st3 \<Longrightarrow> grows st1 st3"
  by (auto simp: grows_def intro: prefix_order.trans)

interpretation growth: resume_relation env grows "\<lambda>_. grows" for env
proof
  show "grows st1 st3" if "grows st1 st2" "grows st2 st3" for st1 st2 st3 :: "'s rt"
    using that by (rule grows_trans)
  show "grows st1 st3" if "grows st1 st2" "grows st2 st3" for st1 st2 st3 :: "'s rt"
    using that by (rule grows_trans)
  fix st st' :: "'s rt" and nm i s b
  show "grows st (on_tracer (trace_exit nm s) st')" if "grows (on_tracer (trace_enter nm i) st) st'"
    using that by (auto simp: grows_def state_effect_defs Let_def prefix_def)
  show "grows st st'" if "grows (on_tracer (trace_enter nm i) st) st'"
    using that by (auto simp: grows_def state_effect_defs Let_def prefix_def)
  show "grows st (on_bb pop_scope st')" if "push_scope (rt_bb st) = (Inr (), b)" "grows (st\<lparr>rt_bb := b\<rparr>) st'"
    using that by (auto simp: grows_def state_effect_defs split: if_split_asm)
  show "grows st st'" if "push_scope (rt_bb st) = (Inr (), b)" "grows (st\<lparr>rt_bb := b\<rparr>) st'"
    using that by (auto simp: grows_def state_effect_defs split: if_split_asm)
qed (auto simp: grows_def state_effect_defs Let_def)

text \<open>The fields of the blackboard that describe the situation are read-only for a tree.\<close>

definition situation :: "blackboard \<Rightarrow> blackboard" where
  "situation b = b\<lparr>bb_reflection_round := 0, bb_scopes := [], bb_commands := [], bb_llm_responses := []\<rparr>"

definition same_situation :: "'s rt \<Rightarrow> 's rt \<Rightarrow> bool" where
  "same_situation st st' \<longleftrightarrow> situation (rt_bb st') = situation (rt_bb st)"

interpretation frame: resume_relation env same_situation "\<lambda>_. same_situation" for env
  by unfold_locales
     (auto simp: same_situation_def situation_def state_effect_defs Let_def split: if_split_asm)

text \<open>When a tick succeeds, tracer stack, depth and the enclosing scopes are what they were.\<close>

definition balanced :: "'s rt \<Rightarrow> 's rt \<Rightarrow> bool" where
  "balanced st st' \<longleftrightarrow>
     tr_path_stack (rt_tracer st') = tr_path_stack (rt_tracer st) \<and>
     tr_depth (rt_tracer st') = tr_depth (rt_tracer st) \<and>
     (has_scope (rt_bb st) \<longrightarrow> length (bb_scopes (rt_bb st')) = length (bb_scopes (rt_bb st)) \<and>
        butlast (bb_scopes (rt_bb st')) = butlast (bb_scopes (rt_bb st)))"

lemma balanced_scope:
  assumes "push_scope (rt_bb st) = (Inr (), b)" "balanced (st\<lparr>rt_bb := b\<rparr>) st'" "has_scope (rt_bb st)"
  shows "bb_scopes (pop_scope (rt_bb st')) = bb_scopes (rt_bb st)"
  using assms by (auto simp: balanced_def push_scope_def pop_scope_def has_scope_def split: if_split_asm)

interpretation balance: resume_relation env balanced "\<lambda>_ _ _. True" for env
proof
  fix st st' st1 st2 st3 :: "'s rt" and nm i s b
  show "balanced st1 st3" if "balanced st1 st2" "balanced st2 st3"
    using that by (auto simp: balanced_def has_scope_def)
  show "balanced st (on_tracer (trace_exit nm s) st')" if "balanced (on_tracer (trace_enter nm i) st) st'"
    using that by (auto simp: balanced_def on_tracer_def trace_enter_def trace_exit_def Let_def)
  show "balanced st (on_bb pop_scope st')" if "push_scope (rt_bb st) = (Inr (), b)" "balanced (st\<lparr>rt_bb := b\<rparr>) st'"
    using that balanced_scope [OF that]
    by (auto simp: balanced_def on_bb_def push_scope_def split: if_split_asm)
qed (auto simp: balanced_def has_scope_def state_effect_defs Let_def)



text \<open>The scopes of the blackboard stay between one and \<open>MAX_SCOPE_DEPTH\<close>, also when a tick fails.\<close>

definition scopes_safe :: "'s rt \<Rightarrow> 's rt \<Rightarrow> bool" where
  "scopes_safe st st' \<longleftrightarrow> (scopes_ok (rt_bb st) \<longrightarrow> scopes_ok (rt_bb st'))"

interpretation bounded: resume_relation env scopes_safe "\<lambda>_. scopes_safe" for env
  by unfold_locales
     (auto simp: scopes_safe_def scopes_ok_def state_effect_defs Let_def MAX_SCOPE_DEPTH_def split: if_split_asm)

subsection \<open>Properties\<close>



end
