(* ===== verification/Dsl_Document.thy ===== *)
theory Dsl_Document
  imports Dsl_Node
begin

text \<open>
  Documents and their translation to behaviour trees: \<open>decision-dsl/src/ast/document.rs\<close> and
  \<open>decision-dsl/src/ast/desugar.rs\<close>. The registry that the Rust functions pass along is never
  read and is left out. The structs that refer to each other are mutually recursive datatypes.
\<close>

record metadata =
  md_name :: string
  md_description :: "string option"

datatype tree_kind = KindBehaviorTree | KindSubTree

record tree =
  tree_api_version :: string
  tree_kind :: tree_kind
  tree_metadata :: metadata
  tree_root :: node

record dsl_bundle =
  bn_trees :: "tree hashmap"
  bn_subtrees :: "tree hashmap"

definition bundle_default :: dsl_bundle where
  "bundle_default = \<lparr>bn_trees = [], bn_subtrees = []\<rparr>"

datatype on_error = OnSkip | OnEscalate | OnRetry

datatype switch_on =
    OnPrompt (so_model: "string option") (so_timeout_ms: "u64 option") (so_template: string)
      (so_parser: output_parser) (so_result_key: "string option")
  | OnVariable string

datatype pipeline_step = GuardStep evaluator | ActionStep decision_command

datatype then_spec =
    InlineCommand decision_command
  | ThenSwitch switch_spec
  | ThenWhen when_spec
  | ThenPipeline string "pipeline_step list"
  | ThenSubTree string
and switch_case = SwitchCase string then_spec
and switch_spec = SwitchSpec string switch_on "switch_case list" "then_spec option"
and when_spec = WhenSpec string evaluator then_spec "on_error option"

record rule_spec =
  rs_priority :: u32
  rs_name :: string
  rs_condition :: "evaluator option"
  rs_action :: then_spec
  rs_cooldown_ms :: "u64 option"
  rs_reflection_max_rounds :: "u8 option"
  rs_on_error :: "on_error option"

datatype dsl_document =
    DocDecisionRules string metadata "rule_spec list"
  | DocBehaviorTree string metadata node
  | DocSubTree string metadata node

subsection \<open>Desugaring\<close>

definition branch_selector :: "string \<Rightarrow> node list \<Rightarrow> node" where
  "branch_selector nm cs = Selector nm cs None None None False"

text \<open>The \<open>on_error\<close> wrapper of rules (\<open>kind = ''Rule''\<close>) and of when-specs (\<open>kind = ''When''\<close>).\<close>

definition escalate_fallback :: "string \<Rightarrow> string \<Rightarrow> node" where
  "escalate_fallback kind nm =
     Action (nm @ ''_escalate_fallback'')
       (HumanCmd (Escalate (kind @ '' '' @ quoted nm @ '' failed '' @ em_dash @ '' escalating to human'') None))
       None"

definition wrap_on_error :: "string \<Rightarrow> string \<Rightarrow> on_error option \<Rightarrow> node \<Rightarrow> node" where
  "wrap_on_error kind nm oe nd = (case oe of
      Some OnEscalate \<Rightarrow> branch_selector (nm @ ''_error_handler'') [nd, escalate_fallback kind nm]
    | Some OnRetry \<Rightarrow> Repeater (nm @ ''_retry'') 2 nd 0
    | Some OnSkip \<Rightarrow> nd
    | None \<Rightarrow> nd)"

definition desugar_step :: "string \<Rightarrow> pipeline_step \<Rightarrow> node" where
  "desugar_step nm step = (case step of
      GuardStep cond \<Rightarrow> Condition (nm @ ''_step'') cond
    | ActionStep cmd \<Rightarrow> Action (nm @ ''_emit'') cmd None)"

definition desugar_pipeline :: "string \<Rightarrow> pipeline_step list \<Rightarrow> parse_error + node" where
  "desugar_pipeline nm steps = Inr (Sequence nm (map (desugar_step nm) steps) None)"

definition switch_prompt :: "string \<Rightarrow> switch_on \<Rightarrow> string \<Rightarrow> node" where
  "switch_prompt nm on key =
     Prompt (nm @ ''_prompt'') (so_model on) (so_template on) (so_parser on)
       [\<lparr>sm_key = key, sm_field = ''value''\<rparr>] (unwrap_or 30000 (so_timeout_ms on)) False None"

function desugar_then :: "then_spec \<Rightarrow> parse_error + node"
  and desugar_case :: "string \<Rightarrow> string \<Rightarrow> switch_case \<Rightarrow> parse_error + node"
  and desugar_cases :: "string \<Rightarrow> string \<Rightarrow> switch_case list \<Rightarrow> then_spec option \<Rightarrow> parse_error + node list"
  and desugar_switch :: "switch_spec \<Rightarrow> parse_error + node"
  and desugar_when :: "when_spec \<Rightarrow> parse_error + node"
where
  "desugar_then (InlineCommand cmd) = Inr (Action ''emit'' cmd None)"
| "desugar_then (ThenSwitch sw) = desugar_switch sw"
| "desugar_then (ThenWhen wh) = desugar_when wh"
| "desugar_then (ThenPipeline nm steps) = desugar_pipeline nm steps"
| "desugar_then (ThenSubTree rf) = Inr (SubTree rf rf None)"
| "desugar_case nm key (SwitchCase v act) =
     result_map (When (nm @ ''_'' @ to_lowercase v) (VariableIs key (VString v))) (desugar_then act)"
| "desugar_cases nm key [] dflt = (case dflt of
      None \<Rightarrow> Inr []
    | Some act \<Rightarrow> result_map (\<lambda>nd. [nd]) (desugar_then act))"
| "desugar_cases nm key (c # cs) dflt =
     result_bind (desugar_case nm key c) (\<lambda>nd. result_map (\<lambda>nds. nd # nds) (desugar_cases nm key cs dflt))"
| "desugar_switch (SwitchSpec nm on cs dflt) = (case on of
      OnPrompt md tmo tp ps rk \<Rightarrow>
        result_map
          (\<lambda>nds. Sequence nm
             [switch_prompt nm on (unwrap_or ''decision'' rk), branch_selector (nm @ ''_branch'') nds] None)
          (desugar_cases nm (unwrap_or ''decision'' rk) cs dflt)
    | OnVariable key \<Rightarrow>
        result_map (branch_selector (nm @ ''_branch'')) (desugar_cases nm key cs dflt))"
| "desugar_when (WhenSpec nm cond act oe) =
     result_map (\<lambda>nd. wrap_on_error ''When'' nm oe (When nm cond nd)) (desugar_then act)"
  by pat_completeness auto
termination
  by (relation "measure (case_sum (case_sum size (\<lambda>(_, _, c). size c))
      (case_sum (\<lambda>(_, _, cs, dflt). size_list size cs + size_option size dflt) (case_sum size size)))") auto

definition guard_rule :: "rule_spec \<Rightarrow> node \<Rightarrow> node" where
  "guard_rule r inner = (case rs_condition r of
      Some ev \<Rightarrow> Sequence (rs_name r @ ''_guard'') [Condition (rs_name r @ ''_cond'') ev, inner] None
    | None \<Rightarrow> inner)"

definition reflect_rule :: "rule_spec \<Rightarrow> node \<Rightarrow> node" where
  "reflect_rule r nd = (case rs_reflection_max_rounds r of
      Some mx \<Rightarrow> ReflectionGuard (rs_name r @ ''_reflection'') mx nd
    | None \<Rightarrow> nd)"

definition cooldown_rule :: "rule_spec \<Rightarrow> node \<Rightarrow> node" where
  "cooldown_rule r nd = (case rs_cooldown_ms r of
      Some ms \<Rightarrow> Cooldown (rs_name r @ ''_cooldown'') ms nd None
    | None \<Rightarrow> nd)"

definition desugar_rule :: "rule_spec \<Rightarrow> parse_error + node" where
  "desugar_rule r =
     result_map
       (\<lambda>inner. cooldown_rule r (reflect_rule r (wrap_on_error ''Rule'' (rs_name r) (rs_on_error r) (guard_rule r inner))))
       (desugar_then (rs_action r))"

definition no_match :: node where
  "no_match = Action ''no_match'' (AgentCmd ApproveAndContinue) None"

definition rules_root :: "metadata \<Rightarrow> node list \<Rightarrow> node" where
  "rules_root md cs =
     Selector (md_name md @ ''_root'') (cs @ [no_match]) None (Some (md_name md)) None False"

fun desugar :: "dsl_document \<Rightarrow> parse_error + tree" where
  "desugar (DocDecisionRules av md rules) =
     result_map
       (\<lambda>cs. \<lparr>tree_api_version = av, tree_kind = KindBehaviorTree, tree_metadata = md, tree_root = rules_root md cs\<rparr>)
       (collect_results desugar_rule rules)"
| "desugar (DocBehaviorTree av md root) =
     Inr \<lparr>tree_api_version = av, tree_kind = KindBehaviorTree, tree_metadata = md, tree_root = root\<rparr>"
| "desugar (DocSubTree av md root) =
     Inr \<lparr>tree_api_version = av, tree_kind = KindSubTree, tree_metadata = md, tree_root = root\<rparr>"

subsection \<open>Desugaring is total and keeps the order of the rules\<close>

lemma desugar_parts_total:
  "\<exists>nd. desugar_then t = Inr nd"
  "\<exists>nd. desugar_case nm key c = Inr nd"
  "\<exists>nds. desugar_cases nm key cs dflt = Inr nds"
  "\<exists>nd. desugar_switch sw = Inr nd"
  "\<exists>nd. desugar_when wh = Inr nd"
  by (induction t and nm key c and nm key cs dflt and sw and wh
      rule: desugar_then_desugar_case_desugar_cases_desugar_switch_desugar_when.induct)
     (auto simp: desugar_pipeline_def split: switch_on.split option.split)

lemma desugar_rule_total: "\<exists>nd. desugar_rule r = Inr nd"
  using desugar_parts_total(1) [of "rs_action r"] by (auto simp: desugar_rule_def)

lemma collect_results_total:
  "(\<And>x. x \<in> set xs \<Longrightarrow> \<exists>y. f x = Inr y) \<Longrightarrow> \<exists>ys. collect_results f xs = Inr ys"
  by (induction xs) (auto, metis list.set_intros(1) result_bind.simps(2) result_map.simps(2))

lemma desugar_total: "\<exists>t. desugar d = Inr t"
proof (cases d)
  case (DocDecisionRules av md rules)
  obtain cs where "collect_results desugar_rule rules = Inr cs"
    using collect_results_total [of rules desugar_rule] desugar_rule_total by blast
  then show ?thesis by (simp add: DocDecisionRules)
qed simp_all

lemma collect_results_nth:
  "collect_results f xs = Inr ys \<Longrightarrow> i < length xs \<Longrightarrow> f (xs ! i) = Inr (ys ! i)"
proof (induction xs arbitrary: ys i)
  case Nil
  then show ?case by simp
next
  case (Cons x xs)
  then show ?case by (cases i) (auto simp: result_bind_Inr_iff)
qed

lemma desugar_rules_children:
  assumes "desugar (DocDecisionRules av md rules) = Inr t"
  shows "length (node_children (tree_root t)) = Suc (length rules)"
    and "i < length rules \<Longrightarrow> desugar_rule (rules ! i) = Inr (node_children (tree_root t) ! i)"
    and "node_children (tree_root t) ! length rules = no_match"
proof -
  from assms obtain cs where c: "collect_results desugar_rule rules = Inr cs" "tree_root t = rules_root md cs"
    by auto
  note l = collect_results_length [OF c(1)]
  show "length (node_children (tree_root t)) = Suc (length rules)"
    and "node_children (tree_root t) ! length rules = no_match"
    by (simp_all add: c rules_root_def l nth_append)
  show "desugar_rule (rules ! i) = Inr (node_children (tree_root t) ! i)" if "i < length rules"
    using collect_results_nth [OF c(1) that] that by (simp add: c rules_root_def l nth_append)
qed

subsection \<open>Properties\<close>

text \<open>
  C35: Desugaring accepts every document. The tree of a document of rules tries the rules in the order
  of the document, whatever their priorities are, and then the fallback.
\<close>

theorem desugar_keeps_order:
  "\<exists>t. desugar (DocDecisionRules av md rules) = Inr t \<and>
     map Inr (node_children (tree_root t)) = map desugar_rule rules @ [Inr no_match]"
proof -
  obtain t where t: "desugar (DocDecisionRules av md rules) = Inr t" using desugar_total by blast
  note d = desugar_rules_children [OF t]
  have "map Inr (node_children (tree_root t)) = map desugar_rule rules @ [Inr no_match]"
    by (rule nth_equalityI) (auto simp: d nth_append less_Suc_eq)
  with t show ?thesis by blast
qed

end
