(* ===== verification/Dsl_Validate.thy ===== *)
theory Dsl_Validate
  imports Dsl_Document
begin

text \<open>
  Static checks of a bundle: \<open>decision-dsl/src/ast/validate.rs\<close>. The recursive walks over a tree
  become walks over its preorder, and the search for circular subtree references is shown to
  decide acyclicity of the reference graph.
\<close>

subsection \<open>Walks\<close>

lemma node_in_list_smaller: "x \<in> set cs \<Longrightarrow> size x < Suc (size_list size cs)" for x :: node
  using size_list_estimation' [of x cs "size x" size] by simp

lemma children_smaller: "c \<in> set (node_children nd) \<Longrightarrow> size c < size nd"
proof -
  assume c: "c \<in> set (node_children nd)"
  then show ?thesis
    by (cases nd) (auto split: option.splits dest: node_in_list_smaller)
qed

text \<open>\<open>for child in node.children() { check(child, state)?; }\<close>, threading the state.\<close>

fun fold_results :: "('a \<Rightarrow> 's \<Rightarrow> 'e + 's) \<Rightarrow> 'a list \<Rightarrow> 's \<Rightarrow> 'e + 's" where
  "fold_results f [] s = Inr s"
| "fold_results f (x # xs) s = result_bind (f x s) (fold_results f xs)"

lemma fold_results_cong [fundef_cong]:
  "xs = ys \<Longrightarrow> s = t \<Longrightarrow> (\<And>x u. x \<in> set ys \<Longrightarrow> f x u = g x u) \<Longrightarrow> fold_results f xs s = fold_results g ys t"
  by (induction ys arbitrary: xs s t) (auto intro!: result_bind_cong)

function check_unique_names :: "node \<Rightarrow> string set \<Rightarrow> parse_error + string set" where
  "check_unique_names nd seen =
     (if node_name nd \<in> seen then Inl (DuplicateName (node_name nd))
      else fold_results check_unique_names (node_children nd) (insert (node_name nd) seen))"
  by pat_completeness auto
termination by (relation "measure (\<lambda>(nd, _). size nd)") (auto simp: children_smaller)

declare check_unique_names.simps [simp del]

function preorder :: "node \<Rightarrow> node list" where
  "preorder nd = nd # concat (map preorder (node_children nd))"
  by pat_completeness auto
termination by (relation "measure size") (auto simp: children_smaller)

declare preorder.simps [simp del]

lemma fold_results_append:
  "fold_results f (xs @ ys) s = result_bind (fold_results f xs s) (fold_results f ys)"
proof (induction xs arbitrary: s)
  case Nil
  then show ?case by simp
next
  case (Cons x xs)
  then show ?case by (cases "f x s") auto
qed

text \<open>One visit of the walk, as a step over the preorder.\<close>

definition visit_name :: "node \<Rightarrow> string set \<Rightarrow> parse_error + string set" where
  "visit_name nd seen =
     (if node_name nd \<in> seen then Inl (DuplicateName (node_name nd)) else Inr (insert (node_name nd) seen))"

lemma fold_results_concat:
  "(\<And>x s. x \<in> set xs \<Longrightarrow> f x s = fold_results g (h x) s) \<Longrightarrow>
   fold_results f xs s = fold_results g (concat (map h xs)) s"
  by (induction xs arbitrary: s) (auto simp: fold_results_append intro!: result_bind_cong)

lemma check_unique_names_preorder: "check_unique_names nd seen = fold_results visit_name (preorder nd) seen"
proof (induction nd seen rule: check_unique_names.induct)
  case (1 nd seen)
  show ?case
  proof (cases "node_name nd \<in> seen")
    case True
    then show ?thesis by (simp add: check_unique_names.simps [of nd] preorder.simps [of nd] visit_name_def)
  next
    case False
    then have v: "visit_name nd seen = Inr (insert (node_name nd) seen)" by (simp add: visit_name_def)
    have "fold_results check_unique_names (node_children nd) s =
        fold_results visit_name (concat (map preorder (node_children nd))) s" for s
      using "1.IH" [OF False] by (rule fold_results_concat)
    with v False show ?thesis
      by (simp add: check_unique_names.simps [of nd] preorder.simps [of nd])
  qed
qed

lemma fold_visit_name:
  "(\<exists>s. fold_results visit_name nds seen = Inr s) \<longleftrightarrow>
     distinct (map node_name nds) \<and> set (map node_name nds) \<inter> seen = {}"
  by (induction nds arbitrary: seen) (auto simp: visit_name_def)

definition validate_unique_names :: "tree \<Rightarrow> parse_error + unit" where
  "validate_unique_names t = result_map (\<lambda>_. ()) (check_unique_names (tree_root t) {})"

lemma validate_unique_names_iff:
  "validate_unique_names t = Inr () \<longleftrightarrow> distinct (map node_name (preorder (tree_root t)))"
  using fold_visit_name [of "preorder (tree_root t)" "{}"]
  by (auto simp: validate_unique_names_def check_unique_names_preorder)

subsection \<open>Version, references, priorities\<close>

definition api_prefix :: string where
  "api_prefix = ''decision.agile-agent.io/v''"

definition validate_api_version :: "tree \<Rightarrow> parse_error + unit" where
  "validate_api_version t =
     (if starts_with (tree_api_version t) api_prefix \<and>
         parse_unsigned 32 (drop (length api_prefix) (tree_api_version t)) \<noteq> None
      then Inr () else Inl (UnsupportedVersion (tree_api_version t)))"

definition subtree_ref :: "node \<Rightarrow> string option" where
  "subtree_ref nd = (case nd of SubTree _ rf _ \<Rightarrow> Some rf | _ \<Rightarrow> None)"

function check_subtree_refs :: "dsl_bundle \<Rightarrow> node \<Rightarrow> unit \<Rightarrow> parse_error + unit" where
  "check_subtree_refs bn nd u =
     (case subtree_ref nd of
        Some rf \<Rightarrow>
          (if map_of (bn_subtrees bn) rf = None then Inl (UnresolvedSubTree rf)
           else fold_results (check_subtree_refs bn) (node_children nd) ())
      | None \<Rightarrow> fold_results (check_subtree_refs bn) (node_children nd) ())"
  by pat_completeness auto
termination by (relation "measure (\<lambda>(_, nd, _). size nd)") (auto simp: children_smaller)

declare check_subtree_refs.simps [simp del]

definition validate_subtree_refs :: "dsl_bundle \<Rightarrow> tree \<Rightarrow> parse_error + unit" where
  "validate_subtree_refs bn t = check_subtree_refs bn (tree_root t) ()"

definition visit_priority :: "rule_spec \<Rightarrow> u32 set \<Rightarrow> parse_error + u32 set" where
  "visit_priority r seen =
     (if rs_priority r \<in> seen then Inl (DuplicatePriority (rs_priority r))
      else Inr (insert (rs_priority r) seen))"

definition validate_unique_priorities :: "rule_spec list \<Rightarrow> parse_error + unit" where
  "validate_unique_priorities rules = result_map (\<lambda>_. ()) (fold_results visit_priority rules {})"

lemma fold_visit_priority:
  "(\<exists>s. fold_results visit_priority rules seen = Inr s) \<longleftrightarrow>
     distinct (map rs_priority rules) \<and> set (map rs_priority rules) \<inter> seen = {}"
  by (induction rules arbitrary: seen) (auto simp: visit_priority_def)

lemma validate_unique_priorities_iff:
  "validate_unique_priorities rules = Inr () \<longleftrightarrow> distinct (map rs_priority rules)"
  using fold_visit_priority [of rules "{}"] by (auto simp: validate_unique_priorities_def)

subsection \<open>Circular references\<close>

text \<open>
  \<open>detect_cycle_in_node\<close>. The code undoes \<open>visited.insert\<close> and \<open>path.push\<close> before it goes on after
  a reference, so both are passed as values. The search ends because every reference it follows
  is a key of the bundle that has not been visited.
\<close>

fun first_some :: "('a \<Rightarrow> 'b option) \<Rightarrow> 'a list \<Rightarrow> 'b option" where
  "first_some f [] = None"
| "first_some f (x # xs) = (case f x of Some y \<Rightarrow> Some y | None \<Rightarrow> first_some f xs)"

lemma first_some_cong [fundef_cong]:
  "xs = ys \<Longrightarrow> (\<And>x. x \<in> set ys \<Longrightarrow> f x = g x) \<Longrightarrow> first_some f xs = first_some g ys"
  by (induction ys arbitrary: xs) (auto split: option.split)

lemma first_some_None: "first_some f xs = None \<longleftrightarrow> (\<forall>x \<in> set xs. f x = None)"
  by (induction xs) (auto split: option.split)

definition cycle_from :: "string \<Rightarrow> string list \<Rightarrow> string list" where
  "cycle_from rf path = dropWhile (\<lambda>n. n \<noteq> rf) path @ [rf]"

definition unvisited :: "dsl_bundle \<Rightarrow> string set \<Rightarrow> nat" where
  "unvisited bn visited = card (fst ` set (bn_subtrees bn) - visited)"

lemma unvisited_insert:
  assumes "map_of (bn_subtrees bn) rf = Some t" "rf \<notin> visited"
  shows "unvisited bn (insert rf visited) < unvisited bn visited"
proof -
  have "rf \<in> fst ` set (bn_subtrees bn)" using assms(1) by (metis domI dom_map_of_conv_image_fst)
  then show ?thesis unfolding unvisited_def using assms(2) by (intro psubset_card_mono) auto
qed

function detect_cycle :: "dsl_bundle \<Rightarrow> node \<Rightarrow> string set \<Rightarrow> string list \<Rightarrow> string list option" where
  "detect_cycle bn nd visited path =
     (case subtree_ref nd of
        Some rf \<Rightarrow>
          (if rf \<in> visited then Some (cycle_from rf path)
           else case map_of (bn_subtrees bn) rf of
               Some t \<Rightarrow>
                 (case detect_cycle bn (tree_root t) (insert rf visited) (path @ [rf]) of
                    Some c \<Rightarrow> Some c
                  | None \<Rightarrow> first_some (\<lambda>c. detect_cycle bn c visited path) (node_children nd))
             | None \<Rightarrow> first_some (\<lambda>c. detect_cycle bn c visited path) (node_children nd))
      | None \<Rightarrow> first_some (\<lambda>c. detect_cycle bn c visited path) (node_children nd))"
  by pat_completeness auto
termination
  by (relation "(\<lambda>(bn, nd, visited, _). unvisited bn visited) <*mlex*> measure (\<lambda>(_, nd, _, _). size nd)")
     (auto simp: wf_mlex mlex_less mlex_leq unvisited_insert children_smaller)

declare detect_cycle.simps [simp del]

definition check_cycle :: "dsl_bundle \<Rightarrow> string \<times> tree \<Rightarrow> unit \<Rightarrow> parse_error + unit" where
  "check_cycle bn kt u = (case detect_cycle bn (tree_root (snd kt)) {} [] of
      Some cycle \<Rightarrow> Inl (CircularSubTreeRef (str_join '' -> '' cycle))
    | None \<Rightarrow> Inr ())"

definition detect_circular_subtree_refs :: "dsl_bundle \<Rightarrow> parse_error + unit" where
  "detect_circular_subtree_refs bn =
     result_bind (fold_results (check_cycle bn) (bn_subtrees bn) ())
       (fold_results (check_cycle bn) (bn_trees bn))"

subsection \<open>Evaluators, parsers, bundle\<close>

text \<open>
  \<open>validate_evaluators\<close> and \<open>validate_parsers\<close> walk the tree but accept every evaluator and every
  parser, the custom ones included, so they return \<open>Ok(())\<close> on every tree.
\<close>

fun validate_evaluator :: "evaluator \<Rightarrow> parse_error + unit" where
  "validate_evaluator (CustomEvaluator _ _) = Inr ()"
| "validate_evaluator (OrOf conds) = fold_results (\<lambda>c _. validate_evaluator c) conds ()"
| "validate_evaluator (AndOf conds) = fold_results (\<lambda>c _. validate_evaluator c) conds ()"
| "validate_evaluator (NotOf cond) = validate_evaluator cond"
| "validate_evaluator _ = Inr ()"

function check_evaluators_in_node :: "node \<Rightarrow> unit \<Rightarrow> parse_error + unit" where
  "check_evaluators_in_node nd u =
     (case nd of
        Condition _ ev \<Rightarrow> validate_evaluator ev
      | When _ cond act \<Rightarrow>
          result_bind (validate_evaluator cond)
            (\<lambda>_. fold_results check_evaluators_in_node (node_children nd) ())
      | Action _ _ wh \<Rightarrow> (case wh of Some ev \<Rightarrow> validate_evaluator ev | None \<Rightarrow> Inr ())
      | _ \<Rightarrow> fold_results check_evaluators_in_node (node_children nd) ())"
  by pat_completeness auto
termination by (relation "measure (\<lambda>(nd, _). size nd)") (auto simp: children_smaller node_in_list_smaller)

declare check_evaluators_in_node.simps [simp del]

definition validate_evaluators :: "tree \<Rightarrow> parse_error + unit" where
  "validate_evaluators t = check_evaluators_in_node (tree_root t) ()"

definition validate_parser :: "output_parser \<Rightarrow> parse_error + unit" where
  "validate_parser p = Inr ()"

function check_parsers_in_node :: "node \<Rightarrow> unit \<Rightarrow> parse_error + unit" where
  "check_parsers_in_node nd u =
     (case nd of
        Prompt _ _ _ p _ _ _ _ \<Rightarrow> validate_parser p
      | _ \<Rightarrow> fold_results check_parsers_in_node (node_children nd) ())"
  by pat_completeness auto
termination by (relation "measure (\<lambda>(nd, _). size nd)") (auto simp: children_smaller node_in_list_smaller)

declare check_parsers_in_node.simps [simp del]

definition validate_parsers :: "tree \<Rightarrow> parse_error + unit" where
  "validate_parsers t = check_parsers_in_node (tree_root t) ()"

definition validate_tree :: "dsl_bundle \<Rightarrow> string \<times> tree \<Rightarrow> unit \<Rightarrow> parse_error + unit" where
  "validate_tree bn kt u =
     result_bind (validate_api_version (snd kt)) (\<lambda>_.
     result_bind (validate_unique_names (snd kt)) (\<lambda>_.
     result_bind (validate_subtree_refs bn (snd kt)) (\<lambda>_.
     result_bind (validate_evaluators (snd kt)) (\<lambda>_. validate_parsers (snd kt)))))"

definition validate_bundle :: "dsl_bundle \<Rightarrow> parse_error + unit" where
  "validate_bundle bn =
     result_bind (fold_results (validate_tree bn) (bn_trees bn) ()) (\<lambda>u.
     result_bind (fold_results (validate_tree bn) (bn_subtrees bn) u) (\<lambda>_.
     detect_circular_subtree_refs bn))"

subsection \<open>What the checks establish\<close>

definition refs_of :: "node \<Rightarrow> string set" where
  "refs_of nd = {rf. \<exists>n \<in> set (preorder nd). subtree_ref n = Some rf}"

definition ref_edges :: "dsl_bundle \<Rightarrow> (string \<times> string) set" where
  "ref_edges bn = {(a, b). \<exists>t. map_of (bn_subtrees bn) a = Some t \<and> b \<in> refs_of (tree_root t)}"

lemma refs_of_unfold:
  "refs_of nd = {rf. subtree_ref nd = Some rf} \<union> (\<Union>c \<in> set (node_children nd). refs_of c)"
  unfolding refs_of_def by (subst preorder.simps) auto

lemma node_size_induct:
  assumes "\<And>nd. (\<And>c. c \<in> set (node_children nd) \<Longrightarrow> P c) \<Longrightarrow> P nd"
  shows "P nd"
  by (induction nd rule: measure_induct_rule [where f = size]) (auto intro: assms children_smaller)

text \<open>A reference is followed unless it closes a cycle.\<close>

definition follow :: "dsl_bundle \<Rightarrow> string \<Rightarrow> string set \<Rightarrow> string list \<Rightarrow> bool" where
  "follow bn rf visited path \<longleftrightarrow> rf \<notin> visited \<and>
     (\<forall>t. map_of (bn_subtrees bn) rf = Some t \<longrightarrow>
        detect_cycle bn (tree_root t) (insert rf visited) (path @ [rf]) = None)"

lemma detect_cycle_refs:
  "detect_cycle bn nd visited path = None \<longleftrightarrow> (\<forall>rf \<in> refs_of nd. follow bn rf visited path)"
proof (induction nd rule: node_size_induct)
  case (1 nd)
  have "detect_cycle bn nd visited path = None \<longleftrightarrow>
      (\<forall>rf. subtree_ref nd = Some rf \<longrightarrow> follow bn rf visited path) \<and>
      (\<forall>c \<in> set (node_children nd). detect_cycle bn c visited path = None)"
    by (subst detect_cycle.simps) (auto simp: follow_def first_some_None split: option.splits)
  with 1 show ?case by (auto simp: refs_of_unfold [of nd])
qed

lemma acyclic_detects_none:
  assumes "acyclic (ref_edges bn)" "\<And>rf v. rf \<in> refs_of nd \<Longrightarrow> v \<in> visited \<Longrightarrow> (rf, v) \<notin> (ref_edges bn)\<^sup>*"
  shows "detect_cycle bn nd visited path = None"
  using assms(2)
proof (induction "unvisited bn visited" arbitrary: nd visited path rule: less_induct)
  case less
  have "follow bn rf visited path" if rf: "rf \<in> refs_of nd" for rf
  proof -
    have nv: "rf \<notin> visited" using less.prems [OF rf] by auto
    have "detect_cycle bn (tree_root t) (insert rf visited) (path @ [rf]) = None"
      if t: "map_of (bn_subtrees bn) rf = Some t" for t
    proof (rule less.hyps [OF unvisited_insert [OF t nv]])
      fix rf' v
      assume rf': "rf' \<in> refs_of (tree_root t)" and v: "v \<in> insert rf visited"
      from t rf' have e: "(rf, rf') \<in> ref_edges bn" by (auto simp: ref_edges_def)
      show "(rf', v) \<notin> (ref_edges bn)\<^sup>*"
      proof
        assume p: "(rf', v) \<in> (ref_edges bn)\<^sup>*"
        with e have "(rf, v) \<in> (ref_edges bn)\<^sup>+" by (rule rtrancl_into_trancl2)
        with v assms(1) less.prems [OF rf] show False by (auto simp: acyclic_def dest: trancl_into_rtrancl)
      qed
    qed
    with nv show ?thesis by (simp add: follow_def)
  qed
  then show ?case by (simp add: detect_cycle_refs)
qed

lemma detects_none_walk:
  assumes "(a, b) \<in> (ref_edges bn)\<^sup>+" "map_of (bn_subtrees bn) a = Some ta"
    "detect_cycle bn (tree_root ta) visited path = None"
  shows "b \<notin> visited \<and> (\<exists>visited' path'. insert b visited \<subseteq> visited' \<and>
    (\<forall>tb. map_of (bn_subtrees bn) b = Some tb \<longrightarrow> detect_cycle bn (tree_root tb) visited' path' = None))"
  using assms(1)
proof (induction rule: trancl_induct)
  case (base b)
  then have "b \<in> refs_of (tree_root ta)" using assms(2) by (auto simp: ref_edges_def)
  with assms(3) have "follow bn b visited path" by (simp add: detect_cycle_refs)
  then have "b \<notin> visited" and
    "\<forall>tb. map_of (bn_subtrees bn) b = Some tb \<longrightarrow>
      detect_cycle bn (tree_root tb) (insert b visited) (path @ [b]) = None"
    by (auto simp: follow_def)
  then show ?case by blast
next
  case (step b c)
  from step.hyps(2) obtain tb where tb: "map_of (bn_subtrees bn) b = Some tb" "c \<in> refs_of (tree_root tb)"
    by (auto simp: ref_edges_def)
  with step.IH obtain v' p' where v': "insert b visited \<subseteq> v'" and d: "detect_cycle bn (tree_root tb) v' p' = None"
    by blast
  from d tb(2) have "follow bn c v' p'" by (simp add: detect_cycle_refs)
  then have "c \<notin> v'" and
    n: "\<forall>tc. map_of (bn_subtrees bn) c = Some tc \<longrightarrow>
      detect_cycle bn (tree_root tc) (insert c v') (p' @ [c]) = None"
    by (auto simp: follow_def)
  with v' show ?case by (intro conjI exI [of _ "insert c v'"] exI [of _ "p' @ [c]"]) auto
qed

lemma detects_none_acyclic:
  assumes "\<And>a t. map_of (bn_subtrees bn) a = Some t \<Longrightarrow> detect_cycle bn (tree_root t) {} [] = None"
  shows "acyclic (ref_edges bn)"
proof (rule acyclicI, intro allI notI)
  fix a
  assume c: "(a, a) \<in> (ref_edges bn)\<^sup>+"
  then obtain ta where ta: "map_of (bn_subtrees bn) a = Some ta"
    by (auto dest!: tranclD simp: ref_edges_def)
  from detects_none_walk [OF c ta assms [OF ta]] ta
  obtain v p where "a \<in> v" "detect_cycle bn (tree_root ta) v p = None" by auto
  with detects_none_walk [OF c ta] show False by blast
qed

lemma fold_unit: "fold_results f xs () = Inr () \<longleftrightarrow> (\<forall>x \<in> set xs. f x () = Inr ())"
  by (induction xs) (auto simp: result_bind_Inr_iff)

lemma check_cycle_iff: "check_cycle bn kt () = Inr () \<longleftrightarrow> detect_cycle bn (tree_root (snd kt)) {} [] = None"
  by (simp add: check_cycle_def split: option.split)

lemma detect_circular_iff:
  "detect_circular_subtree_refs bn = Inr () \<longleftrightarrow> acyclic (ref_edges bn)"
proof -
  have "detect_circular_subtree_refs bn = Inr () \<longleftrightarrow>
      (\<forall>kt \<in> set (bn_subtrees bn) \<union> set (bn_trees bn). detect_cycle bn (tree_root (snd kt)) {} [] = None)"
    by (auto simp: detect_circular_subtree_refs_def result_bind_Inr_iff fold_unit check_cycle_iff)
  also have "\<dots> \<longleftrightarrow> acyclic (ref_edges bn)"
  proof
    assume a: "\<forall>kt \<in> set (bn_subtrees bn) \<union> set (bn_trees bn). detect_cycle bn (tree_root (snd kt)) {} [] = None"
    show "acyclic (ref_edges bn)"
    proof (rule detects_none_acyclic)
      fix k t
      assume "map_of (bn_subtrees bn) k = Some t"
      then have "(k, t) \<in> set (bn_subtrees bn)" by (rule map_of_SomeD)
      with a have "detect_cycle bn (tree_root (snd (k, t))) {} [] = None" by blast
      then show "detect_cycle bn (tree_root t) {} [] = None" by simp
    qed
  next
    assume "acyclic (ref_edges bn)"
    then show "\<forall>kt \<in> set (bn_subtrees bn) \<union> set (bn_trees bn). detect_cycle bn (tree_root (snd kt)) {} [] = None"
      by (auto intro: acyclic_detects_none)
  qed
  finally show ?thesis .
qed

lemma check_subtree_refs_iff:
  "check_subtree_refs bn nd () = Inr () \<longleftrightarrow> (\<forall>rf \<in> refs_of nd. map_of (bn_subtrees bn) rf \<noteq> None)"
proof (induction nd rule: node_size_induct)
  case (1 nd)
  have "check_subtree_refs bn nd () = Inr () \<longleftrightarrow>
      (\<forall>rf. subtree_ref nd = Some rf \<longrightarrow> map_of (bn_subtrees bn) rf \<noteq> None) \<and>
      (\<forall>c \<in> set (node_children nd). check_subtree_refs bn c () = Inr ())"
    by (subst check_subtree_refs.simps) (auto simp: fold_unit split: option.splits)
  with 1 show ?case by (auto simp: refs_of_unfold [of nd])
qed

lemma validate_evaluator_ok: "validate_evaluator ev = Inr ()"
  by (induction ev) (simp_all add: fold_unit)

lemma check_evaluators_ok: "check_evaluators_in_node nd () = Inr ()"
proof (induction nd rule: node_size_induct)
  case (1 nd)
  then show ?case
    by (subst check_evaluators_in_node.simps)
       (auto simp: fold_unit validate_evaluator_ok split: node.split option.split)
qed

lemma check_parsers_ok: "check_parsers_in_node nd () = Inr ()"
proof (induction nd rule: node_size_induct)
  case (1 nd)
  then show ?case
    by (subst check_parsers_in_node.simps) (auto simp: fold_unit validate_parser_def split: node.split option.split)
qed

definition tree_ok :: "dsl_bundle \<Rightarrow> tree \<Rightarrow> bool" where
  "tree_ok bn t \<longleftrightarrow> validate_api_version t = Inr () \<and> distinct (map node_name (preorder (tree_root t))) \<and>
     (\<forall>rf \<in> refs_of (tree_root t). map_of (bn_subtrees bn) rf \<noteq> None)"

lemma validate_tree_iff: "validate_tree bn kt () = Inr () \<longleftrightarrow> tree_ok bn (snd kt)"
  by (auto simp: validate_tree_def tree_ok_def result_bind_Inr_iff validate_unique_names_iff
      validate_subtree_refs_def check_subtree_refs_iff validate_evaluators_def check_evaluators_ok
      validate_parsers_def check_parsers_ok)

lemma validate_bundle_ok:
  "validate_bundle bn = Inr () \<longleftrightarrow>
    (\<forall>t \<in> snd ` set (bn_trees bn) \<union> snd ` set (bn_subtrees bn). tree_ok bn t) \<and> acyclic (ref_edges bn)"
  using detect_circular_iff [of bn]
  by (auto simp: validate_bundle_def result_bind_Inr_iff fold_unit validate_tree_iff)

subsection \<open>Properties\<close>

text \<open>
  C16: A bundle passes validation exactly when every tree and subtree has a supported version, unique
  node names and only references to known subtrees, and the references between the subtrees form
  no cycle. Evaluators and parsers are never rejected.
\<close>

theorem validate_bundle_correct:
  "validate_bundle bn = Inr () \<longleftrightarrow>
    (\<forall>t. t \<in> snd ` set (bn_trees bn) \<union> snd ` set (bn_subtrees bn) \<longrightarrow> tree_ok bn t) \<and> acyclic (ref_edges bn)"
  using validate_bundle_ok [of bn] by blast

definition lone_tree :: tree where
  "lone_tree = \<lparr>tree_api_version = ''decision.agile-agent.io/v1'', tree_kind = KindBehaviorTree,
     tree_metadata = \<lparr>md_name = ''lone'', md_description = None\<rparr>, tree_root = SetVar ''set'' ''key'' VNull\<rparr>"

theorem validate_bundle_correct_witness:
  "tree_ok \<lparr>bn_trees = [(''lone'', lone_tree)], bn_subtrees = []\<rparr> lone_tree"
proof -
  let ?bn = "\<lparr>bn_trees = [(''lone'', lone_tree)], bn_subtrees = []\<rparr>"
  have "validate_api_version lone_tree = Inr ()"
    by (simp add: validate_api_version_def lone_tree_def api_prefix_def starts_with_def parse_unsigned_def
        parse_nat_def is_ascii_digit_def char_code_def)
  then have "validate_bundle ?bn = Inr ()"
    unfolding validate_bundle_ok
    by (simp add: tree_ok_def ref_edges_def refs_of_def lone_tree_def subtree_ref_def acyclic_def
        preorder.simps [of "SetVar ''set'' ''key'' VNull"])
  with validate_bundle_correct [of ?bn] show ?thesis by simp
qed

text \<open>
  C18: The search for circular references ends on every bundle and reports an error exactly when the
  references between the subtrees have a cycle.
\<close>

theorem circular_references_detected:
  "(\<exists>e. detect_circular_subtree_refs bn = Inl e) \<longleftrightarrow> \<not> acyclic (ref_edges bn)"
  using detect_circular_iff [of bn] by (cases "detect_circular_subtree_refs bn") auto

end
