(* ===== verification/Dsl_Behaviour.thy ===== *)
theory Dsl_Behaviour
  imports Dsl_Laws Dsl_Document
begin

text \<open>
  The behaviour of the nodes and of the executor, from the equations of \<open>Dsl_Adequacy\<close> and the
  laws of \<open>Dsl_Laws\<close>: when a tree waits, what the running path records, what the guards and the
  repeater do with their child, and which statuses a tree of decision rules can return.
\<close>

subsection \<open>Waiting\<close>

lemma invert_Running [simp]: "invert s = Running \<longleftrightarrow> s = Running" "Running = invert s \<longleftrightarrow> s = Running"
  by (cases s; simp)+

text \<open>\<open>waits nd\<close>: some prompt of the tree has been sent and not been answered.\<close>

fun waits :: "node \<Rightarrow> bool" where
  "waits (Prompt _ _ _ _ _ _ pd _) = pd"
| "waits (Selector _ cs _ _ _ _) = list_ex waits cs"
| "waits (Sequence _ cs _) = list_ex waits cs"
| "waits (Parallel _ _ cs _) = list_ex waits cs"
| "waits (Inverter _ c) = waits c"
| "waits (Repeater _ _ c _) = waits c"
| "waits (Cooldown _ _ c _) = waits c"
| "waits (ReflectionGuard _ _ c) = waits c"
| "waits (ForceHuman _ _ c) = waits c"
| "waits (When _ _ c) = waits c"
| "waits (SubTree _ _ root) = (case root of Some c \<Rightarrow> waits c | None \<Rightarrow> False)"
| "waits _ = False"

definition running_waits :: "'s ticker \<Rightarrow> bool" where
  "running_waits tk \<longleftrightarrow> (\<forall>nd st nd' st'. tk nd st = (Inr Running, nd', st') \<longrightarrow> waits nd')"

lemma running_waitsD: "running_waits tk \<Longrightarrow> tk nd st = (Inr Running, nd', st') \<Longrightarrow> waits nd'"
  unfolding running_waits_def by blast

lemma composite_loop_waits:
  "running_waits tk \<Longrightarrow> composite_loop tk nm cont i cs st = (Inr (Some (j, Running)), cs', st') \<Longrightarrow>
   list_ex waits cs'"
proof (induction cs arbitrary: i st cs' st')
  case Nil
  then show ?case by simp
next
  case (Cons c cs)
  obtain r1 c1 st1 where t: "tk c (on_tracer (trace_enter nm i) st) = (r1, c1, st1)" by (metis prod_cases3)
  obtain s where s: "r1 = Inr s" using Cons.prems(2) t by (cases r1) auto
  show ?case
  proof (cases "s = cont")
    case True
    obtain r2 ds st2 where l: "composite_loop tk nm cont (Suc i) cs (on_tracer (trace_exit nm s) st1) = (r2, ds, st2)"
      by (metis prod_cases3)
    have "r2 = Inr (Some (j, Running)) \<and> cs' = c1 # ds" using Cons.prems(2) t s True l by simp
    with Cons.IH [OF Cons.prems(1)] l show ?thesis by simp
  next
    case False
    with Cons.prems(2) t s have "s = Running \<and> cs' = c1 # cs" by simp
    with running_waitsD [OF Cons.prems(1)] t s show ?thesis by simp
  qed
qed

lemma composite_loop_status:
  "composite_loop tk nm cont i cs st = (Inr (Some (j, s)), cs', st') \<Longrightarrow>
   s \<noteq> cont \<and> i \<le> j \<and> j < i + length cs"
proof (induction cs arbitrary: i st cs' st')
  case Nil
  then show ?case by simp
next
  case (Cons c cs)
  obtain r1 c1 st1 where t: "tk c (on_tracer (trace_enter nm i) st) = (r1, c1, st1)" by (metis prod_cases3)
  obtain s1 where s: "r1 = Inr s1" using Cons.prems t by (cases r1) auto
  obtain r2 ds st2 where l: "composite_loop tk nm cont (Suc i) cs (on_tracer (trace_exit nm s1) st1) = (r2, ds, st2)"
    by (metis prod_cases3)
  show ?case
  proof (cases "s1 = cont")
    case True
    have "r2 = Inr (Some (j, s))" using Cons.prems t s True l by simp
    with Cons.IH [of "Suc i"] l show ?thesis by fastforce
  next
    case False
    with Cons.prems t s show ?thesis by auto
  qed
qed

lemma composite_tick_waits:
  assumes "running_waits tk" "composite_tick tk nm cont ac cs st = (Inr (Some (j, Running)), cs', st')"
  shows "list_ex waits cs'"
  using assms by (auto simp: composite_tick_def Let_def split: prod.split_asm dest: composite_loop_waits)

lemma composite_tick_status:
  assumes "composite_tick tk nm cont ac cs st = (Inr (Some (j, s)), cs', st')"
  shows "s \<noteq> cont"
  using assms by (auto simp: composite_tick_def Let_def split: prod.split_asm dest: composite_loop_status)

lemma parallel_loop_waits:
  "(\<And>i. running_waits (f i)) \<Longrightarrow> parallel_loop f nm i cs st = (Inr ss, cs', st') \<Longrightarrow> Running \<in> set ss \<Longrightarrow>
   list_ex waits cs'"
proof (induction cs arbitrary: i st ss cs' st')
  case Nil
  then show ?case by simp
next
  case (Cons c cs)
  obtain r1 c1 st1 where t: "f i c (on_tracer (trace_enter nm i) st) = (r1, c1, st1)" by (metis prod_cases3)
  obtain s where s: "r1 = Inr s" using Cons.prems(2) t by (cases r1) auto
  obtain r2 ds st2 where l: "parallel_loop f nm (Suc i) cs (on_tracer (trace_exit nm s) st1) = (r2, ds, st2)"
    by (metis prod_cases3)
  obtain ss2 where ss2: "r2 = Inr ss2" using Cons.prems(2) t s l by (cases r2) auto
  have "ss = s # ss2 \<and> cs' = c1 # ds" using Cons.prems(2) t s l ss2 by auto
  with Cons.IH [OF Cons.prems(1)] l ss2 Cons.prems(3) running_waitsD [OF Cons.prems(1)] t s
  show ?case by auto
qed

lemma parallel_status_running: "parallel_status policy ss = Running \<Longrightarrow> Running \<in> set ss"
  by (auto simp: parallel_status_def Let_def count_status_def filter_empty_conv
      split: parallel_policy.split_asm if_split_asm)

lemma repeater_loop_waits:
  "running_waits tk \<Longrightarrow> repeater_loop tk mx cur c st = (Inr Running, c', cur', st') \<Longrightarrow> waits c'"
proof (induction tk mx cur c st rule: repeater_loop.induct)
  case (1 tk mx cur c st)
  obtain r1 c1 st1 where t: "tk c st = (r1, c1, st1)" by (metis prod_cases3)
  show ?case
  proof (cases "\<exists>s. cur < mx \<and> r1 = Inr s \<and> s \<noteq> Running \<and> \<not> mx \<le> cur + 1")
    case True
    then obtain s where s: "cur < mx" "r1 = Inr s" "s \<noteq> Running" "\<not> mx \<le> cur + 1" by blast
    then have "repeater_loop tk mx (cur + 1) c1 st1 = (Inr Running, c', cur', st')"
      using "1.prems"(2) t by (subst (asm) repeater_loop.simps) simp
    from "1.IH" [OF s(1) t [symmetric] s(2) refl s(3,4) "1.prems"(1) this] show ?thesis .
  next
    case False
    with "1.prems" t running_waitsD [OF "1.prems"(1)] show ?thesis
      by (subst (asm) repeater_loop.simps) (auto split: sum.split_asm if_split_asm)
  qed
qed

lemma prompt_reply_not_running: "prompt_reply env nm ps sts reply st \<noteq> (Running, st')"
  by (simp add: prompt_reply_def Let_def split: sum.split)

lemma running_waits_tick_node:
  assumes "running_waits tk"
  shows "running_waits (tick_node env tk)"
  unfolding running_waits_def
proof (intro allI impI)
  fix nd st nd' st'
  assume t: "tick_node env tk nd st = (Inr Running, nd', st')"
  note w = running_waitsD [OF assms]
  show "waits nd'"
  proof (cases nd)
    case (Selector nm cs ac rn rp mt)
    obtain r ds st1 where l: "composite_tick tk nm Failure ac cs st = (r, ds, st1)" by (metis prod_cases3)
    from t Selector l obtain j s where r: "r = Inr (Some (j, s))" "s \<noteq> Success" "nd' = Selector nm ds (Some j) rn rp mt"
      by (auto simp: tick_node_def selector_finish_def split: sum.split_asm option.split_asm if_split_asm)
    with composite_tick_status [of tk nm Failure ac cs st j s] l have "s = Running" by (cases s) auto
    with composite_tick_waits [OF assms] l r show ?thesis by auto
  next
    case (Sequence nm cs ac)
    obtain r ds st1 where l: "composite_tick tk nm Success ac cs st = (r, ds, st1)" by (metis prod_cases3)
    from t Sequence l obtain j where "r = Inr (Some (j, Running))" "nd' = Sequence nm ds (Some j)"
      by (auto simp: tick_node_def sequence_finish_def split: sum.split_asm option.split_asm if_split_asm)
    with composite_tick_waits [OF assms] l show ?thesis by auto
  next
    case (Parallel nm policy cs ac)
    obtain r ds st1 where l: "parallel_loop (\<lambda>_. tk) nm 0 cs st = (r, ds, st1)" by (metis prod_cases3)
    have e: "empty_parallel_status policy \<noteq> Running" by (cases policy) simp_all
    from t Parallel l e obtain ss where "r = Inr ss" "parallel_status policy ss = Running" "nd' = Parallel nm policy ds None"
      by (auto simp: tick_node_def parallel_with_def split: sum.split_asm if_split_asm)
    with parallel_loop_waits [OF assms] l parallel_status_running show ?thesis by auto
  next
    case (Inverter nm c)
    obtain r c1 st1 where l: "tk c st = (r, c1, st1)" by (metis prod_cases3)
    from t Inverter l have "result_map invert r = Inr Running" "nd' = Inverter nm c1"
      by (auto simp: tick_node_def inverter_with_def)
    moreover then have "r = Inr Running" by auto
    ultimately show ?thesis using w l by auto
  next
    case (Repeater nm mx c cur)
    with t show ?thesis
      by (auto simp: tick_node_def repeater_tick_def split: if_split_asm prod.split_asm
          dest: repeater_loop_waits [OF assms])
  qed (use t in \<open>auto simp: tick_node_def decorator_defs leaf_defs Let_def clock_now_def
      split: if_split_asm prod.split_asm sum.split_asm option.split_asm node_status.split_asm bool.split_asm
      dest: w simp: prompt_reply_not_running\<close>)
qed

lemma running_waits_node_tick: "running_waits (node_tick env)"
proof -
  have "running_waits (tick env n)" for n
  proof (induction n)
    case 0
    then show ?case by (simp add: running_waits_def)
  next
    case (Suc n)
    have "tick env (Suc n) = tick_node env (tick env n)" by (intro ext) simp
    with running_waits_tick_node [OF Suc] show ?case by simp
  qed
  then show ?thesis unfolding running_waits_def node_tick_def by blast
qed

subsection \<open>The running path\<close>

text \<open>
  In a tree without \<open>Parallel\<close>, a running status is passed up at once, so the last bracket that is
  closed with it is the outermost one, and the path recorded there is the path above the node.
\<close>

fun no_parallel :: "node \<Rightarrow> bool" where
  "no_parallel (Parallel _ _ _ _) = False"
| "no_parallel (Selector _ cs _ _ _ _) = list_all no_parallel cs"
| "no_parallel (Sequence _ cs _) = list_all no_parallel cs"
| "no_parallel (Inverter _ c) = no_parallel c"
| "no_parallel (Repeater _ _ c _) = no_parallel c"
| "no_parallel (Cooldown _ _ c _) = no_parallel c"
| "no_parallel (ReflectionGuard _ _ c) = no_parallel c"
| "no_parallel (ForceHuman _ _ c) = no_parallel c"
| "no_parallel (When _ _ c) = no_parallel c"
| "no_parallel (SubTree _ _ root) = (case root of Some c \<Rightarrow> no_parallel c | None \<Rightarrow> True)"
| "no_parallel _ = True"

lemma no_parallel_reset [simp]: "no_parallel (node_reset nd) = no_parallel nd"
proof (induction nd)
  case (SubTree n r root)
  then show ?case by (cases root) auto
qed (simp_all add: list_all_iff)

lemma no_parallel_reset_eq: "node_reset a = node_reset b \<Longrightarrow> no_parallel a = no_parallel b"
  by (metis no_parallel_reset)

abbreviation stack_of :: "'s rt \<Rightarrow> nat list" where
  "stack_of st \<equiv> tr_path_stack (rt_tracer st)"

abbreviation path_of :: "'s rt \<Rightarrow> nat list" where
  "path_of st \<equiv> tr_running_path (rt_tracer st)"

definition path_law :: "'s rt \<Rightarrow> node_status \<Rightarrow> 's rt \<Rightarrow> bool" where
  "path_law st s st' \<longleftrightarrow> path_of st' = path_of st \<or> s = Running \<and> path_of st' = stack_of st"

definition records :: "'s ticker \<Rightarrow> bool" where
  "records tk \<longleftrightarrow> (\<forall>nd st s nd' st'. no_parallel nd \<longrightarrow> tk nd st = (Inr s, nd', st') \<longrightarrow>
     path_law st s st' \<and> stack_of st' = stack_of st \<and> no_parallel nd')"

lemma recordsD:
  "records tk \<Longrightarrow> no_parallel nd \<Longrightarrow> tk nd st = (Inr s, nd', st') \<Longrightarrow>
   path_law st s st' \<and> stack_of st' = stack_of st \<and> no_parallel nd'"
  unfolding records_def by blast

lemma tracer_paths [simp]:
  "path_of (on_bb f st) = path_of st" "stack_of (on_bb f st) = stack_of st"
  "path_of (on_tracer (trace e) st) = path_of st" "stack_of (on_tracer (trace e) st) = stack_of st"
  "path_of (on_tracer (trace_enter nm i) st) = path_of st"
  "stack_of (on_tracer (trace_enter nm i) st) = stack_of st @ [i]"
  "stack_of (on_tracer (trace_exit nm s) st) = butlast (stack_of st)"
  "path_of (on_tracer (trace_exit nm s) st) = (if s = Running then butlast (stack_of st) else path_of st)"
  by (simp_all add: on_bb_def on_tracer_def trace_def trace_enter_def trace_exit_def Let_def)

lemma records_composite_loop:
  assumes "records tk" "cont \<noteq> Running"
  shows "list_all no_parallel cs \<Longrightarrow> composite_loop tk nm cont i cs st = (Inr res, cs', st') \<Longrightarrow>
     stack_of st' = stack_of st \<and>
     path_of st' = (case res of Some (j, Running) \<Rightarrow> stack_of st | _ \<Rightarrow> path_of st)"
proof (induction cs arbitrary: i st cs' st')
  case Nil
  then show ?case by auto
next
  case (Cons c cs)
  obtain r1 c1 st1 where t: "tk c (on_tracer (trace_enter nm i) st) = (r1, c1, st1)" by (metis prod_cases3)
  obtain s where s: "r1 = Inr s" using Cons.prems t by (cases r1) auto
  have l: "path_law (on_tracer (trace_enter nm i) st) s st1" "stack_of st1 = stack_of st @ [i]"
    using recordsD [OF assms(1) _ t [unfolded s]] Cons.prems by auto
  show ?case
  proof (cases "s = cont")
    case True
    obtain r2 ds st2 where k: "composite_loop tk nm cont (Suc i) cs (on_tracer (trace_exit nm s) st1) = (r2, ds, st2)"
      by (metis prod_cases3)
    have e: "r2 = Inr res" "st2 = st'" using Cons.prems t s True k by auto
    have x: "path_of (on_tracer (trace_exit nm s) st1) = path_of st"
      "stack_of (on_tracer (trace_exit nm s) st1) = stack_of st"
      using l True assms(2) by (simp_all add: path_law_def)
    show ?thesis
      using Cons.IH [of "Suc i" "on_tracer (trace_exit nm s) st1" ds st'] k Cons.prems(1)
      unfolding x e by simp
  next
    case False
    with Cons.prems t s have "res = Some (i, s)" "st' = on_tracer (trace_exit nm s) st1" by auto
    with l show ?thesis by (cases s) (auto simp: path_law_def)
  qed
qed

lemma records_composite_tick:
  assumes "records tk" "cont \<noteq> Running" "list_all no_parallel cs"
    "composite_tick tk nm cont ac cs st = (Inr res, cs', st')"
  shows "stack_of st' = stack_of st \<and>
     path_of st' = (case res of Some (j, Running) \<Rightarrow> stack_of st | _ \<Rightarrow> path_of st)"
proof -
  let ?n = "unwrap_or 0 ac"
  obtain r ds st1 where l: "composite_loop tk nm cont ?n (drop ?n cs) st = (r, ds, st1)" by (metis prod_cases3)
  have "r = Inr res" "st1 = st'" using assms(4) l by (auto simp: composite_tick_def)
  moreover have "list_all no_parallel (drop ?n cs)" using assms(3) by (auto simp: list_all_iff dest: in_set_dropD)
  ultimately show ?thesis using records_composite_loop [OF assms(1,2)] l by metis
qed

lemma records_repeater_loop:
  "records tk \<Longrightarrow> no_parallel c \<Longrightarrow> repeater_loop tk mx cur c st = (Inr s, c', cur', st') \<Longrightarrow>
   path_law st s st' \<and> stack_of st' = stack_of st"
proof (induction tk mx cur c st rule: repeater_loop.induct)
  case (1 tk mx cur c st)
  obtain r1 c1 st1 where t: "tk c st = (r1, c1, st1)" by (metis prod_cases3)
  show ?case
  proof (cases "\<exists>s. cur < mx \<and> r1 = Inr s \<and> s \<noteq> Running \<and> \<not> mx \<le> cur + 1")
    case True
    then obtain s1 where s1: "cur < mx" "r1 = Inr s1" "s1 \<noteq> Running" "\<not> mx \<le> cur + 1" by blast
    then have k: "repeater_loop tk mx (cur + 1) c1 st1 = (Inr s, c', cur', st')"
      using "1.prems"(3) t by (subst (asm) repeater_loop.simps) simp
    note l = recordsD [OF "1.prems"(1,2) t [unfolded s1(2)]]
    have "path_law st1 s st' \<and> stack_of st' = stack_of st1"
      using "1.IH" [OF s1(1) t [symmetric] s1(2) refl s1(3,4) "1.prems"(1) _ k] l by blast
    with l s1(3) show ?thesis by (auto simp: path_law_def)
  next
    case False
    with "1.prems"(3) t have "s = Success \<and> st' = st \<or> r1 = Inr s \<and> st' = st1"
      by (subst (asm) repeater_loop.simps) (auto split: sum.split_asm if_split_asm)
    with recordsD [OF "1.prems"(1,2)] t show ?thesis by (auto simp: path_law_def)
  qed
qed

lemma stack_of_trace_rule [simp]:
  "stack_of (on_tracer (trace_rule rn rp mt k) st) = stack_of st"
  "path_of (on_tracer (trace_rule rn rp mt k) st) = path_of st"
proof -
  have f: "tr_path_stack ((trace e ^^ n) t) = tr_path_stack t \<and>
      tr_running_path ((trace e ^^ n) t) = tr_running_path t" for e n t
    by (induction n) (simp_all add: trace_def)
  show "stack_of (on_tracer (trace_rule rn rp mt k) st) = stack_of st"
    "path_of (on_tracer (trace_rule rn rp mt k) st) = path_of st"
    using f by (simp_all add: trace_rule_def on_tracer_def trace_def split: option.split)
qed

lemma records_decorators:
  assumes "records run" "no_parallel c"
  shows "inverter_with run nm c st = (Inr s, nd', st') \<Longrightarrow> path_law st s st' \<and> stack_of st' = stack_of st"
    and "reflection_guard_with run nm rounds c st = (Inr s, nd', st') \<Longrightarrow>
      path_law st s st' \<and> stack_of st' = stack_of st"
    and "force_human_with run nm why c st = (Inr s, nd', st') \<Longrightarrow> path_law st s st' \<and> stack_of st' = stack_of st"
    and "when_with env run nm cond c st = (Inr s, nd', st') \<Longrightarrow> path_law st s st' \<and> stack_of st' = stack_of st"
    and "cooldown_run env run nm d c l st = (Inr s, nd', st') \<Longrightarrow>
      path_law st s st' \<and> stack_of st' = stack_of st"
proof -
  obtain r1 c1 st1 where t: "run c st = (r1, c1, st1)" by (metis prod_cases3)
  have l: "path_law st s1 st1 \<and> stack_of st1 = stack_of st" if "r1 = Inr s1" for s1
    using recordsD [OF assms t [unfolded that]] by simp
  show "path_law st s st' \<and> stack_of st' = stack_of st" if "inverter_with run nm c st = (Inr s, nd', st')"
  proof -
    from that t obtain s1 where s1: "r1 = Inr s1" "s = invert s1" "st' = st1"
      by (cases r1) (auto simp: inverter_with_def)
    with l [OF s1(1)] show ?thesis by (cases s1) (auto simp: path_law_def)
  qed
  show "path_law st s st' \<and> stack_of st' = stack_of st"
    if "reflection_guard_with run nm rounds c st = (Inr s, nd', st')"
    using that l by (auto simp: reflection_guard_with_def t path_law_def split: if_split_asm)
  show "path_law st s st' \<and> stack_of st' = stack_of st" if "force_human_with run nm why c st = (Inr s, nd', st')"
    using that l by (auto simp: force_human_with_def t path_law_def split: if_split_asm)
  show "path_law st s st' \<and> stack_of st' = stack_of st" if "when_with env run nm cond c st = (Inr s, nd', st')"
    using that l by (auto simp: when_with_def t path_law_def split: sum.split_asm bool.split_asm if_split_asm)
  show "path_law st s st' \<and> stack_of st' = stack_of st" if "cooldown_run env run nm d c l' st = (Inr s, nd', st')" for l'
    using that l by (auto simp: cooldown_run_def clock_now_def t path_law_def
        split: sum.split_asm node_status.split_asm if_split_asm)
qed

lemma records_cooldown:
  assumes "records run" "no_parallel c" "cooldown_with env run nm d c l st = (Inr s, nd', st')"
  shows "path_law st s st' \<and> stack_of st' = stack_of st"
  using assms(3) records_decorators(5) [OF assms(1,2)]
  by (fastforce simp: cooldown_with_def clock_now_def path_law_def split: option.split_asm if_split_asm)

lemma records_subtree:
  assumes "records run" "\<And>c. root = Some c \<Longrightarrow> no_parallel c" "subtree_with run nm rf root st = (Inr s, nd', st')"
  shows "path_law st s st' \<and> stack_of st' = stack_of st"
proof -
  define s0 where "s0 = on_tracer (trace (TrEnterSubTree nm rf)) st"
  from assms(3) obtain b c where b: "push_scope (rt_bb s0) = (Inr (), b)" "root = Some c"
    by (auto simp: subtree_with_def Let_def simp flip: s0_def split: prod.split_asm sum.split_asm option.split_asm)
  obtain r1 c1 st1 where t: "run c (s0\<lparr>rt_bb := b\<rparr>) = (r1, c1, st1)" by (metis prod_cases3)
  from assms(3) b t have e: "r1 = Inr s" "st' = on_tracer (trace (TrExitSubTree nm rf s)) (on_bb pop_scope st1)"
    by (auto simp: subtree_with_def Let_def simp flip: s0_def split: sum.split_asm)
  from recordsD [OF assms(1) assms(2) [OF b(2)] t [unfolded e(1)]] show ?thesis
    by (auto simp: e(2) s0_def path_law_def)
qed

lemma records_leaves:
  "condition_tick env nm ev st = (Inr s, nd', st') \<Longrightarrow> path_law st s st' \<and> stack_of st' = stack_of st"
  "action_tick env nm cmd wh st = (Inr s, nd', st') \<Longrightarrow> path_law st s st' \<and> stack_of st' = stack_of st"
  "set_var_tick nm key v st = (Inr s, nd', st') \<Longrightarrow> path_law st s st' \<and> stack_of st' = stack_of st"
  "prompt_tick env nm md tp ps sts tmo pd sa st = (Inr s, nd', st') \<Longrightarrow>
     path_law st s st' \<and> stack_of st' = stack_of st"
proof -
  have rp: "path_of st' = path_of st \<and> stack_of st' = stack_of st"
    if "prompt_reply env nm ps sts reply st = (s, st')" for env nm ps sts reply st s and st' :: "'s rt"
    using that by (auto simp: prompt_reply_def Let_def split: sum.split_asm)
  show "path_law st s st' \<and> stack_of st' = stack_of st" if "condition_tick env nm ev st = (Inr s, nd', st')"
    using that by (auto simp: condition_tick_def path_law_def split: sum.split_asm)
  show "path_law st s st' \<and> stack_of st' = stack_of st" if "action_tick env nm cmd wh st = (Inr s, nd', st')"
    using that by (auto simp: action_tick_def action_emit_def path_law_def
        split: sum.split_asm option.split_asm if_split_asm)
  show "path_law st s st' \<and> stack_of st' = stack_of st" if "set_var_tick nm key v st = (Inr s, nd', st')"
    using that by (auto simp: set_var_tick_def path_law_def)
  show "path_law st s st' \<and> stack_of st' = stack_of st"
    if "prompt_tick env nm md tp ps sts tmo pd sa st = (Inr s, nd', st')"
    using that by (auto simp: prompt_tick_def prompt_poll_def prompt_send_def path_law_def clock_now_def Let_def
        split: sum.split_asm option.split_asm if_split_asm prod.split_asm dest!: rp)
qed

lemma records_tick_node:
  assumes "records tk" "keeps tk"
  shows "records (tick_node env tk)"
  unfolding records_def
proof (intro allI impI)
  fix nd st s nd' st'
  assume np: "no_parallel nd" and t: "tick_node env tk nd st = (Inr s, nd', st')"
  have "no_parallel nd'"
    using np keepsD [OF keeps_tick_node [OF assms(2)] t] no_parallel_reset_eq by metis
  moreover have "path_law st s st' \<and> stack_of st' = stack_of st"
  proof (cases nd)
    case (Selector nm cs ac rn rp mt)
    obtain r ds st1 where l: "composite_tick tk nm Failure ac cs st = (r, ds, st1)" by (metis prod_cases3)
    obtain res where r: "r = Inr res" using t Selector l by (cases r) (auto simp: tick_node_def selector_finish_def)
    have "stack_of st1 = stack_of st \<and> path_of st1 = (case res of Some (j, Running) \<Rightarrow> stack_of st | _ \<Rightarrow> path_of st)"
      using records_composite_tick [OF assms(1) _ _ l [unfolded r]] np Selector by simp
    with t Selector l r composite_tick_status [of tk nm Failure ac cs st] show ?thesis
      by (fastforce simp: tick_node_def selector_finish_def path_law_def
          split: option.splits if_split_asm node_status.splits)
  next
    case (Sequence nm cs ac)
    obtain r ds st1 where l: "composite_tick tk nm Success ac cs st = (r, ds, st1)" by (metis prod_cases3)
    obtain res where r: "r = Inr res" using t Sequence l by (cases r) (auto simp: tick_node_def sequence_finish_def)
    have "stack_of st1 = stack_of st \<and> path_of st1 = (case res of Some (j, Running) \<Rightarrow> stack_of st | _ \<Rightarrow> path_of st)"
      using records_composite_tick [OF assms(1) _ _ l [unfolded r]] np Sequence by simp
    with t Sequence l r composite_tick_status [of tk nm Success ac cs st] show ?thesis
      by (fastforce simp: tick_node_def sequence_finish_def path_law_def
          split: option.splits if_split_asm node_status.splits)
  next
    case (Repeater nm mx c cur)
    with t np records_repeater_loop [OF assms(1)] show ?thesis
      by (fastforce simp: tick_node_def repeater_tick_def path_law_def split: if_split_asm prod.split_asm)
  next
    case (SubTree nm rf root)
    with np have h: "\<And>c. root = Some c \<Longrightarrow> no_parallel c" by simp
    from t SubTree have u: "subtree_with tk nm rf root st = (Inr s, nd', st')" by (simp add: tick_node_def)
    show ?thesis by (rule records_subtree [OF assms(1) h u])
  qed (use np t in \<open>auto simp: tick_node_def dest: records_decorators [OF assms(1)]
      records_cooldown [OF assms(1)] records_leaves\<close>)
  ultimately show "path_law st s st' \<and> stack_of st' = stack_of st \<and> no_parallel nd'" by simp
qed

lemma records_node_tick: "records (node_tick env)"
proof -
  have "records (tick env n)" for n
  proof (induction n)
    case 0
    then show ?case by (simp add: records_def)
  next
    case (Suc n)
    have "tick env (Suc n) = tick_node env (tick env n)" by (intro ext) simp
    with records_tick_node [OF Suc keeps_tick] show ?case by simp
  qed
  then show ?thesis unfolding records_def node_tick_def by blast
qed

lemma node_tick_path:
  assumes "no_parallel nd" "node_tick env nd (st\<lparr>rt_tracer := tracer_new\<rparr>) = (Inr s, nd', st')"
  shows "path_of st' = [] \<and> no_parallel nd'"
  using recordsD [OF records_node_tick assms] by (auto simp: path_law_def tracer_new_def)

subsection \<open>The executor\<close>

text \<open>The tree, the host state and the result after a tick that starts from the root.\<close>

definition plain_tick :: "'s env \<Rightarrow> node \<Rightarrow> 's rt \<Rightarrow> (fail + tick_result) \<times> node \<times> 's rt" where
  "plain_tick env root st0 =
     (case node_tick env root (st0\<lparr>rt_tracer := tracer_new\<rparr>) of
        (Inl e, root', st') \<Rightarrow> (Inl e, root', st')
      | (Inr s, root', st') \<Rightarrow>
          (Inr \<lparr>tk_status = s, tk_commands = bb_commands (rt_bb st'), tk_trace = tr_entries (rt_tracer st')\<rparr>,
           root', on_bb (\<lambda>b. b\<lparr>bb_commands := []\<rparr>) st'))"

text \<open>
  The states of an executor and its tree: ticks at any host state (the host owns it between ticks),
  resets of the executor and resets of the tree.
\<close>

inductive executor_reaches :: "'s env \<Rightarrow> node \<Rightarrow> executor \<Rightarrow> node \<Rightarrow> bool" for env root0 where
  start: "executor_reaches env root0 executor_new root0"
| step: "executor_reaches env root0 ex root \<Longrightarrow> executor_tick env ex root st = (r, ex', root', st') \<Longrightarrow>
    executor_reaches env root0 ex' root'"
| reset: "executor_reaches env root0 ex root \<Longrightarrow> executor_reaches env root0 (executor_reset ex) root"
| restart: "executor_reaches env root0 ex root \<Longrightarrow> executor_reaches env root0 ex (node_reset root)"

lemma executor_tick_plain:
  assumes "ex_running_path ex = []"
  shows "executor_tick env ex root st = (r, ex', root', st') \<longleftrightarrow>
    plain_tick env root st = (r, root', st') \<and>
    ex' = (case r of
        Inl _ \<Rightarrow> ex
      | Inr t \<Rightarrow> if tk_status t = Running
          then \<lparr>ex_running_path = path_of (snd (snd (node_tick env root (st\<lparr>rt_tracer := tracer_new\<rparr>)))),
                ex_is_running = True\<rparr>
          else \<lparr>ex_running_path = [], ex_is_running = False\<rparr>)"
proof -
  obtain q nd s1 where n: "node_tick env root (st\<lparr>rt_tracer := tracer_new\<rparr>) = (q, nd, s1)" by (metis prod_cases3)
  show ?thesis
    using assms
    by (cases q)
       (auto simp: executor_tick_def plain_tick_def node_resume_eq [of env "[]"] n drain_commands_def
         on_bb_def Let_def)
qed

lemma executor_tick_path:
  assumes "no_parallel root" "ex_running_path ex = []" "executor_tick env ex root st = (r, ex', root', st')"
  shows "ex_running_path ex' = [] \<and> no_parallel root'"
proof -
  obtain q nd s1 where n: "node_tick env root (st\<lparr>rt_tracer := tracer_new\<rparr>) = (q, nd, s1)" by (metis prod_cases3)
  have k: "no_parallel nd" using keepsD [OF keeps_node_tick n] no_parallel_reset_eq assms(1) by metis
  have p: "path_of s1 = []" if "q = Inr s" for s
    using node_tick_path [OF assms(1), of env st s nd s1] n that by simp
  from assms(3) n k assms(2) p show ?thesis
    by (cases q) (auto simp: executor_tick_plain [OF assms(2)] plain_tick_def)
qed

lemma executor_path_empty:
  "executor_reaches env root0 ex root \<Longrightarrow> no_parallel root0 \<Longrightarrow> ex_running_path ex = [] \<and> no_parallel root"
  by (induction rule: executor_reaches.induct)
     (auto simp: executor_new_def executor_reset_def dest: executor_tick_path)

lemma executor_keeps:
  "executor_reaches env root0 ex root \<Longrightarrow> node_reset root = node_reset root0"
proof (induction rule: executor_reaches.induct)
  case (step ex root st r ex' root' st')
  have "node_reset root' = node_reset root"
    using step.hyps(2) keepsD [OF keeps_node_tick] keepsD [OF keeps_node_resume]
    by (auto simp: executor_tick_def Let_def drain_commands_def
        split: if_split_asm prod.split_asm sum.split_asm)
  with step.IH show ?case by simp
qed simp_all

lemma executor_tick_out:
  assumes "executor_tick env ex root st = (r, ex', root', st')"
  obtains q s1 where
    "(if ex_is_running ex then node_resume env (ex_running_path ex) 0 root (st\<lparr>rt_tracer := tracer_new\<rparr>)
      else node_tick env root (st\<lparr>rt_tracer := tracer_new\<rparr>)) = (q, root', s1)"
    "case q of
       Inl e \<Rightarrow> r = Inl e \<and> ex' = ex \<and> st' = s1
     | Inr s \<Rightarrow> r = Inr \<lparr>tk_status = s, tk_commands = bb_commands (rt_bb s1),
           tk_trace = tr_entries (rt_tracer s1)\<rparr> \<and> st' = on_bb (\<lambda>b. b\<lparr>bb_commands := []\<rparr>) s1"
proof -
  obtain q nd s1 where n: "(if ex_is_running ex then node_resume env (ex_running_path ex) 0 root (st\<lparr>rt_tracer := tracer_new\<rparr>)
      else node_tick env root (st\<lparr>rt_tracer := tracer_new\<rparr>)) = (q, nd, s1)" by (metis prod_cases3)
  with assms that [of q s1] show ?thesis
    by (cases q) (auto simp: executor_tick_def Let_def drain_commands_def on_bb_def)
qed


lemma executor_situation:
  assumes "executor_tick env ex root st = (r, ex', root', st')"
  shows "situation (rt_bb st') = situation (rt_bb st)" and "scopes_ok (rt_bb st) \<Longrightarrow> scopes_ok (rt_bb st')"
proof -
  obtain q s1 where n: "(if ex_is_running ex then node_resume env (ex_running_path ex) 0 root (st\<lparr>rt_tracer := tracer_new\<rparr>)
      else node_tick env root (st\<lparr>rt_tracer := tracer_new\<rparr>)) = (q, root', s1)"
    and q: "case q of
       Inl e \<Rightarrow> r = Inl e \<and> ex' = ex \<and> st' = s1
     | Inr s \<Rightarrow> r = Inr \<lparr>tk_status = s, tk_commands = bb_commands (rt_bb s1),
           tk_trace = tr_entries (rt_tracer s1)\<rparr> \<and> st' = on_bb (\<lambda>b. b\<lparr>bb_commands := []\<rparr>) s1"
    by (rule executor_tick_out [OF assms])
  have "frame.out q (st\<lparr>rt_tracer := tracer_new\<rparr>) s1" "bounded.out q (st\<lparr>rt_tracer := tracer_new\<rparr>) s1"
    using n frame.out_node_tick frame.out_node_resume bounded.out_node_tick bounded.out_node_resume
    by (auto split: if_split_asm)
  with q have "same_situation (st\<lparr>rt_tracer := tracer_new\<rparr>) s1" "scopes_safe (st\<lparr>rt_tracer := tracer_new\<rparr>) s1"
    by (cases q; simp)+
  with q show "situation (rt_bb st') = situation (rt_bb st)" "scopes_ok (rt_bb st) \<Longrightarrow> scopes_ok (rt_bb st')"
    by (cases q; simp add: same_situation_def scopes_safe_def situation_def scopes_ok_def on_bb_def)+
qed

subsection \<open>Properties\<close>

text \<open>
  C9: For trees without \<open>Parallel\<close> the resumption machinery is never used: in every state the
  executor can reach, the remembered path is empty, so a tick of a running executor is a tick from
  the root.
\<close>

theorem executor_never_resumes:
  assumes "executor_reaches env root0 ex root" "no_parallel root0"
    "executor_tick env ex root st = (r, ex', root', st')"
  shows "plain_tick env root st = (r, root', st') \<and> ex_running_path ex' = []"
proof -
  note p = executor_path_empty [OF assms(1,2)]
  show ?thesis
    using executor_tick_plain [of ex env root st] executor_tick_path [of root ex env st] p assms(3) by blast
qed

definition sample_ask :: node where
  "sample_ask = Prompt ''ask'' None ''continue?'' (EnumParser [''yes''] True) [] 1000 False None"

definition sample_ask_sent :: node where
  "sample_ask_sent = Prompt ''ask'' None ''continue?'' (EnumParser [''yes''] True) [] 1000 True (Some 0)"

definition sample_prompt :: node where
  "sample_prompt = Sequence ''ask_all'' [SetVar ''note'' ''key'' VNull, sample_ask] None"

theorem executor_never_resumes_witness:
  "\<exists>r ex' root' st'. executor_tick sample_env executor_new sample_prompt sample_rt = (r, ex', root', st') \<and>
     plain_tick sample_env sample_prompt sample_rt = (r, root', st') \<and> ex_running_path ex' = []"
proof -
  obtain r ex' root' st' where e: "executor_tick sample_env executor_new sample_prompt sample_rt = (r, ex', root', st')"
    by (metis prod_cases4)
  have "no_parallel sample_prompt" by (simp add: sample_prompt_def sample_ask_def)
  from executor_never_resumes [OF executor_reaches.start this e] e show ?thesis by blast
qed



text \<open>
  C28: A tick of the executor, successful or not, changes of the blackboard only the reflection round,
  the scopes, the commands and the stored replies: task, outputs, sprint state, rules and histories
  are read-only for a tree. The number of scopes stays between one and the limit.
\<close>

theorem executor_frame:
  assumes "executor_tick env ex root st = (r, ex', root', st')"
  shows "situation (rt_bb st') = situation (rt_bb st) \<and> (\<not> scopes_ok (rt_bb st) \<or> scopes_ok (rt_bb st'))"
  using executor_situation [OF assms] by blast

theorem executor_frame_witness:
  "\<exists>r ex' root' st'. executor_tick sample_env executor_new sample_prompt sample_rt = (r, ex', root', st') \<and>
     situation (rt_bb st') = situation bb_default \<and> scopes_ok (rt_bb st')"
proof -
  obtain r ex' root' st' where e: "executor_tick sample_env executor_new sample_prompt sample_rt = (r, ex', root', st')"
    by (metis prod_cases4)
  from executor_frame [OF e] e scopes_ok_default show ?thesis by (auto simp: sample_rt_def)
qed

text \<open>
  C26: A tree waits only for the model: when a tick returns \<open>Running\<close>, some prompt of the tree has been
  sent and its reply is outstanding.
\<close>

theorem running_means_pending_prompt:
  assumes "node_tick env nd st = (Inr Running, nd', st')"
  shows "waits nd'"
  by (rule running_waitsD [OF running_waits_node_tick assms])

theorem running_means_pending_prompt_witness:
  "\<exists>nd' st'. node_tick sample_env (Inverter ''not'' sample_ask) sample_rt = (Inr Running, nd', st') \<and> waits nd'"
proof -
  have "\<exists>st'. node_tick sample_env sample_ask sample_rt = (Inr Running, sample_ask_sent, st')"
    by (subst node_tick_eq)
      (simp add: sample_ask_def sample_ask_sent_def tick_node_def
        prompt_tick_def prompt_send_def render_prompt_template_def sample_env_def sample_rt_def
        literal_externs_def mock_session_ops_def mock_send_def clock_now_def on_tracer_def)
  then have "\<exists>st'. node_tick sample_env (Inverter ''not'' sample_ask) sample_rt =
      (Inr Running, Inverter ''not'' sample_ask_sent, st')"
    by (subst node_tick_eq) (auto simp: tick_node_def inverter_with_def)
  then obtain nd' st' where t: "node_tick sample_env (Inverter ''not'' sample_ask) sample_rt = (Inr Running, nd', st')"
    by blast
  from running_means_pending_prompt [OF t] t show ?thesis by blast
qed

end
