(* ===== verification/Dsl_Rules.thy ===== *)
theory Dsl_Rules
  imports Dsl_Behaviour Dsl_Validate
begin

text \<open>
  The decorators, one by one, and the trees of decision rules: scopes around a subtree, guards that
  keep their child from running, repetition, and the choice of the first rule whose condition holds.
\<close>

subsection \<open>Subtrees\<close>

lemma subtree_restores_scopes:
  assumes "node_tick env (SubTree nm rf root) st = (Inr s, nd', st')" "has_scope (rt_bb st)"
  shows "bb_scopes (rt_bb st') = bb_scopes (rt_bb st)"
proof -
  define s0 where "s0 = on_tracer (trace (TrEnterSubTree nm rf)) st"
  have u: "subtree_with (node_tick env) nm rf root st = (Inr s, nd', st')"
    using assms(1) by (simp add: node_tick_eq [of env "SubTree nm rf root"] tick_node_def)
  from u obtain b c where b: "push_scope (rt_bb s0) = (Inr (), b)" "root = Some c"
    by (auto simp: subtree_with_def Let_def simp flip: s0_def split: prod.split_asm sum.split_asm option.split_asm)
  obtain r1 c1 st1 where t: "node_tick env c (s0\<lparr>rt_bb := b\<rparr>) = (r1, c1, st1)" by (metis prod_cases3)
  from u b t have e: "r1 = Inr s" "st' = on_tracer (trace (TrExitSubTree nm rf s)) (on_bb pop_scope st1)"
    by (auto simp: subtree_with_def Let_def simp flip: s0_def split: sum.split_asm)
  have "balanced (s0\<lparr>rt_bb := b\<rparr>) st1" using balance.out_node_tick [OF t] e by simp
  from balanced_scope [OF b(1) this] assms(2) show ?thesis
    by (simp add: e(2) s0_def on_bb_def on_tracer_def)
qed

text \<open>A failing tick never gives back scopes, and a subtree whose child fails keeps its own.\<close>

definition keeps_scopes :: "'s rt \<Rightarrow> 's rt \<Rightarrow> bool" where
  "keeps_scopes st st' \<longleftrightarrow>
     (has_scope (rt_bb st) \<longrightarrow> length (bb_scopes (rt_bb st)) \<le> length (bb_scopes (rt_bb st')))"

interpretation leak: tick_relation env balanced "\<lambda>_. keeps_scopes" for env
proof
  fix st st' st1 st2 st3 :: "'s rt" and f e nm i s b
  show "keeps_scopes st1 st3" if "balanced st1 st2" "keeps_scopes st2 st3"
    using that by (auto simp: balanced_def keeps_scopes_def has_scope_def)
  show "keeps_scopes st st'" if "keeps_scopes (on_tracer (trace_enter nm i) st) st'"
    using that by (simp add: keeps_scopes_def on_tracer_def)
  show "keeps_scopes st st'" if "push_scope (rt_bb st) = (Inr (), b)" "keeps_scopes (st\<lparr>rt_bb := b\<rparr>) st'"
    using that by (auto simp: keeps_scopes_def push_scope_def has_scope_def split: if_split_asm)
qed (auto simp: keeps_scopes_def intro: balance.B_trans balance.bracket balance.scope balance.B_refl
  balance.on_trace balance.on_set balance.on_command balance.on_response balance.on_round
  balance.on_session balance.on_clock)

lemma subtree_error_leaks:
  assumes "node_tick env (SubTree nm rf (Some c)) st = (Inl e, nd', st')" "has_scope (rt_bb st)"
    "length (bb_scopes (rt_bb st)) < MAX_SCOPE_DEPTH"
  shows "length (bb_scopes (rt_bb st)) < length (bb_scopes (rt_bb st'))"
proof -
  define s0 where "s0 = on_tracer (trace (TrEnterSubTree nm rf)) st"
  have u: "subtree_with (node_tick env) nm rf (Some c) st = (Inl e, nd', st')"
    using assms(1) by (simp add: node_tick_eq [of env "SubTree nm rf (Some c)"] tick_node_def)
  define b where "b = (rt_bb st)\<lparr>bb_scopes := bb_scopes (rt_bb st) @ [[]]\<rparr>"
  have b: "push_scope (rt_bb s0) = (Inr (), b)"
    using assms(3) by (simp add: push_scope_def s0_def on_tracer_def b_def)
  obtain r1 c1 st1 where t: "node_tick env c (s0\<lparr>rt_bb := b\<rparr>) = (r1, c1, st1)" by (metis prod_cases3)
  from u b t have e: "r1 = Inl e" "st' = st1"
    by (auto simp: subtree_with_def Let_def simp flip: s0_def split: sum.split_asm)
  have "keeps_scopes (s0\<lparr>rt_bb := b\<rparr>) st1" using leak.out_node_tick [OF t] e by simp
  then show ?thesis by (simp add: keeps_scopes_def b_def has_scope_def e)
qed

text \<open>\<open>n\<close> ticks in a row that all fail, and what they leave behind.\<close>

fun error_run :: "'s env \<Rightarrow> nat \<Rightarrow> node \<Rightarrow> 's rt \<Rightarrow> (node \<times> 's rt) option" where
  "error_run env 0 nd st = Some (nd, st)"
| "error_run env (Suc n) nd st = (case node_tick env nd st of
      (Inl e, nd', st') \<Rightarrow> error_run env n nd' st'
    | _ \<Rightarrow> None)"

lemma subtree_node: "node_tick env (SubTree nm rf (Some c)) st = (r, nd', st') \<Longrightarrow> \<exists>c'. nd' = SubTree nm rf (Some c')"
  by (auto simp: node_tick_eq [of env "SubTree nm rf (Some c)"] tick_node_def subtree_with_def Let_def
      split: prod.split_asm sum.split_asm)

lemma subtree_error_run:
  "error_run env n (SubTree nm rf (Some c)) st = Some (nd', st') \<Longrightarrow> has_scope (rt_bb st) \<Longrightarrow>
   (\<exists>c'. nd' = SubTree nm rf (Some c')) \<and>
   min MAX_SCOPE_DEPTH (length (bb_scopes (rt_bb st)) + n) \<le> length (bb_scopes (rt_bb st'))"
proof (induction n arbitrary: c st)
  case 0
  then show ?case by auto
next
  case (Suc n)
  obtain q nd1 st1 where t: "node_tick env (SubTree nm rf (Some c)) st = (q, nd1, st1)" by (metis prod_cases3)
  with Suc.prems(1) obtain e where q: "q = Inl e" by (cases q) auto
  obtain c1 where c1: "nd1 = SubTree nm rf (Some c1)" using subtree_node [OF t] by blast
  have "keeps_scopes st st1" using leak.out_node_tick [OF t] q by simp
  moreover have "length (bb_scopes (rt_bb st)) < length (bb_scopes (rt_bb st1))"
    if "length (bb_scopes (rt_bb st)) < MAX_SCOPE_DEPTH"
    using subtree_error_leaks [OF t [unfolded q]] Suc.prems that by simp
  moreover have "has_scope (rt_bb st1)" using calculation(1) Suc.prems(2)
    by (auto simp: keeps_scopes_def has_scope_def)
  ultimately show ?case using Suc.IH [of c1 st1] Suc.prems t q c1
    by (auto simp: keeps_scopes_def min_def split: if_split_asm)
qed

lemma subtree_leak_exhausts:
  assumes "error_run env n (SubTree nm rf (Some c)) st = Some (nd', st')" "has_scope (rt_bb st)"
    "MAX_SCOPE_DEPTH \<le> length (bb_scopes (rt_bb st)) + n"
  shows "fst (node_tick env nd' st') = Inl (RtErr ScopeDepthExceeded)"
proof -
  from subtree_error_run [OF assms(1,2)] assms(3) obtain c' where
    "nd' = SubTree nm rf (Some c')" "MAX_SCOPE_DEPTH \<le> length (bb_scopes (rt_bb st'))" by auto
  then show ?thesis
    by (simp add: node_tick_eq [of env "SubTree nm rf (Some c')"] tick_node_def subtree_with_def Let_def
        push_scope_def on_tracer_def)
qed

subsection \<open>Guards and repetition\<close>


lemma blocked_guards:
  "mx \<le> bb_reflection_round (rt_bb st) \<Longrightarrow>
   node_tick env (ReflectionGuard nm mx c) st = (Inr Failure, ReflectionGuard nm mx c, st)"
  "e_clock env (rt_readings st) - t < from_millis d \<Longrightarrow>
   node_tick env (Cooldown nm d c (Some t)) st =
     (Inr Failure, Cooldown nm d c (Some t), st\<lparr>rt_readings := Suc (rt_readings st)\<rparr>)"
  by (simp_all add: node_tick_eq [of env "ReflectionGuard nm mx c"] node_tick_eq [of env "Cooldown nm d c (Some t)"]
      tick_node_def reflection_guard_with_def cooldown_with_def clock_now_def)

lemma context_push_command [simp]: "to_template_context (push_command c b) = to_template_context b"
  by (simp add: to_template_context_def field_context_def push_command_def iter_variables_def
      current_sprint_goal_def)

lemma render_push_command [simp]:
  "render_command_templates x cmd (push_command c b) = render_command_templates x cmd b"
  by (simp add: render_command_templates_def)

lemma action_node:
  "node_tick env (Action nm cmd None) st =
     (case render_command_templates (e_externs env) cmd (rt_bb st) of
        Inl e \<Rightarrow> (Inl (RtErr e), Action nm cmd None, st)
      | Inr c \<Rightarrow> (Inr Success, Action nm cmd None,
          on_tracer (trace (TrAction nm (x_debug_command (e_externs env) c))) (on_bb (push_command c) st)))"
  by (simp add: node_tick_eq [of env "Action nm cmd None"] tick_node_def action_tick_def action_emit_def
      split: sum.split)

lemma repeater_action_loop:
  "cur < mx \<Longrightarrow> render_command_templates (e_externs env) cmd (rt_bb st) = Inr r \<Longrightarrow>
   \<exists>st'. repeater_loop (node_tick env) mx cur (Action nm cmd None) st = (Inr Success, Action nm cmd None, 0, st') \<and>
     bb_commands (rt_bb st') = bb_commands (rt_bb st) @ replicate (unat mx - unat cur) r"
proof (induction "unat mx - unat cur" arbitrary: cur st)
  case 0
  then show ?case by (simp add: word_less_nat_alt)
next
  case (Suc n)
  define st1 where "st1 = on_tracer (trace (TrAction nm (x_debug_command (e_externs env) r))) (on_bb (push_command r) st)"
  have t: "node_tick env (Action nm cmd None) st = (Inr Success, Action nm cmd None, st1)"
    using Suc.prems by (simp add: action_node st1_def)
  have c: "bb_commands (rt_bb st1) = bb_commands (rt_bb st) @ [r]"
    by (simp add: st1_def on_tracer_def on_bb_def push_command_def)
  have u: "unat (cur + 1) = Suc (unat cur)" by (rule unat_inc_less [OF Suc.prems(1)])
  show ?case
  proof (cases "mx \<le> cur + 1")
    case True
    then have "unat mx = Suc (unat cur)" using Suc.prems(1) u by (simp add: word_less_nat_alt word_le_nat_alt)
    with Suc.prems(1) t True c show ?thesis by (subst repeater_loop.simps) (simp add: Suc_diff_le)
  next
    case False
    have k: "n = unat mx - unat (cur + 1)" using Suc.hyps(2) u by simp
    have "rt_bb st1 = push_command r (rt_bb st)" by (simp add: st1_def on_tracer_def on_bb_def)
    then have "\<exists>st'. repeater_loop (node_tick env) mx (cur + 1) (Action nm cmd None) st1 =
        (Inr Success, Action nm cmd None, 0, st') \<and>
        bb_commands (rt_bb st') = bb_commands (rt_bb st1) @ replicate (unat mx - unat (cur + 1)) r"
      using Suc.hyps(1) [OF k, of st1] False Suc.prems(2) by (simp add: not_le)
    then obtain st' where "repeater_loop (node_tick env) mx (cur + 1) (Action nm cmd None) st1 =
        (Inr Success, Action nm cmd None, 0, st')"
      "bb_commands (rt_bb st') = bb_commands (rt_bb st) @ r # replicate n r" using c k by auto
    with Suc.prems(1) t False show ?thesis
      by (subst repeater_loop.simps) (simp add: Suc.hyps(2) [symmetric])
  qed
qed

text \<open>A repeated action is emitted \<open>max_attempts\<close> times, although its first attempt succeeds.\<close>

lemma repeater_action:
  assumes "render_command_templates (e_externs env) cmd (rt_bb st) = Inr r" "0 < mx"
    "node_tick env (Repeater nm mx (Action an cmd None) 0) st = (q, nd', st')"
  shows "q = Inr Success \<and> nd' = Repeater nm mx (Action an cmd None) 0 \<and>
    bb_commands (rt_bb st') = bb_commands (rt_bb st) @ replicate (unat mx) r"
  using repeater_action_loop [OF assms(2,1), of an] assms(3) word_gt_0 [THEN iffD1, OF assms(2)]
  by (auto simp: node_tick_eq [of env "Repeater nm mx (Action an cmd None) 0"] tick_node_def repeater_tick_def)

subsection \<open>Rules\<close>

definition rule_verdict :: "externs \<Rightarrow> rule_spec \<Rightarrow> blackboard \<Rightarrow> runtime_error + bool" where
  "rule_verdict x r b = (case rs_condition r of None \<Rightarrow> Inr True | Some ev \<Rightarrow> evaluate x ev b)"

text \<open>Rules that emit one command and have no further decorator, and what they are meant to do.\<close>

fun inline_command :: "then_spec \<Rightarrow> decision_command option" where
  "inline_command (InlineCommand c) = Some c"
| "inline_command _ = None"

definition plain_rule :: "rule_spec \<Rightarrow> bool" where
  "plain_rule r \<longleftrightarrow> inline_command (rs_action r) \<noteq> None \<and> rs_cooldown_ms r = None \<and>
     rs_reflection_max_rounds r = None \<and> (rs_on_error r = None \<or> rs_on_error r = Some OnSkip)"

fun first_match :: "externs \<Rightarrow> rule_spec list \<Rightarrow> blackboard \<Rightarrow> runtime_error + decision_command" where
  "first_match x [] b = Inr (AgentCmd ApproveAndContinue)"
| "first_match x (r # rs) b =
     result_bind (rule_verdict x r b) (\<lambda>v.
       if v then render_command_templates x (the (inline_command (rs_action r))) b else first_match x rs b)"

lemma plain_rule_node:
  assumes "plain_rule r" "desugar_rule r = Inr nd"
  shows "nd = guard_rule r (Action ''emit'' (the (inline_command (rs_action r))) None)"
proof -
  obtain c where "rs_action r = InlineCommand c" using assms(1) by (cases "rs_action r") (auto simp: plain_rule_def)
  with assms show ?thesis
    by (auto simp: plain_rule_def desugar_rule_def cooldown_rule_def reflect_rule_def wrap_on_error_def)
qed

lemma condition_node:
  "node_tick env (Condition nm ev) st = (case evaluate (e_externs env) ev (rt_bb st) of
      Inl e \<Rightarrow> (Inl (RtErr e), Condition nm ev, st)
    | Inr b \<Rightarrow> (Inr (if b then Success else Failure), Condition nm ev, st))"
  by (simp add: node_tick_eq [of env "Condition nm ev"] tick_node_def condition_tick_def)

lemma tracer_bb [simp]: "rt_bb (on_tracer f st) = rt_bb st" "rt_bb (on_bb g st) = g (rt_bb st)"
  by (simp_all add: on_tracer_def on_bb_def)

lemma plain_rule_tick:
  assumes "plain_rule r" "desugar_rule r = Inr nd" "node_tick env nd st = (q, nd', st')"
  shows "case rule_verdict (e_externs env) r (rt_bb st) of
      Inl e \<Rightarrow> q = Inl (RtErr e) \<and> rt_bb st' = rt_bb st
    | Inr False \<Rightarrow> q = Inr Failure \<and> rt_bb st' = rt_bb st
    | Inr True \<Rightarrow>
        (case render_command_templates (e_externs env) (the (inline_command (rs_action r))) (rt_bb st) of
           Inl e \<Rightarrow> q = Inl (RtErr e) \<and> rt_bb st' = rt_bb st
         | Inr c \<Rightarrow> q = Inr Success \<and> rt_bb st' = push_command c (rt_bb st))"
proof (cases "rs_condition r")
  case None
  with plain_rule_node [OF assms(1,2)] assms(3) show ?thesis
    by (auto simp: guard_rule_def rule_verdict_def action_node split: sum.split_asm sum.split)
next
  case (Some ev)
  define act where "act = Action ''emit'' (the (inline_command (rs_action r))) None"
  define gn where "gn = rs_name r @ ''_guard''"
  define cn where "cn = rs_name r @ ''_cond''"
  have n: "nd = Sequence gn [Condition cn ev, act] None"
    using plain_rule_node [OF assms(1,2)] Some by (simp add: guard_rule_def act_def gn_def cn_def)
  have t: "(q, nd', st') = sequence_finish gn None (composite_tick (node_tick env) gn Success None [Condition cn ev, act] st)"
    using assms(3) by (simp add: n node_tick_eq [of env "Sequence gn [Condition cn ev, act] None"] tick_node_def)
  show ?thesis
  proof (cases "evaluate (e_externs env) ev (rt_bb st)")
    case (Inl e)
    with t Some show ?thesis
      by (simp add: composite_tick_def sequence_finish_def condition_node rule_verdict_def Let_def unwrap_or_def)
  next
    case (Inr b)
    with t Some show ?thesis
      by (cases b)
         (auto simp: composite_tick_def sequence_finish_def condition_node rule_verdict_def Let_def unwrap_or_def act_def action_node
           split: sum.split_asm sum.split)
  qed
qed

lemma rules_loop:
  "collect_results desugar_rule rules = Inr cs \<Longrightarrow> \<forall>r \<in> set rules. plain_rule r \<Longrightarrow>
   composite_loop (node_tick env) nm Failure i (cs @ [no_match]) st = (q, cs', st') \<Longrightarrow>
   case first_match (e_externs env) rules (rt_bb st) of
     Inl e \<Rightarrow> q = Inl (RtErr e) \<and> rt_bb st' = rt_bb st
   | Inr c \<Rightarrow> (\<exists>j. q = Inr (Some (j, Success))) \<and> rt_bb st' = push_command c (rt_bb st)"
proof (induction rules arbitrary: i st cs cs' q st')
  case Nil
  then show ?case
    by (auto simp: no_match_def action_node render_command_templates_def render_with_def)
next
  case (Cons r rules)
  obtain nd ds where d: "desugar_rule r = Inr nd" "collect_results desugar_rule rules = Inr ds" "cs = nd # ds"
    using Cons.prems(1) by (auto simp: result_bind_Inr_iff)
  define st0 where "st0 = on_tracer (trace_enter nm i) st"
  have b0: "rt_bb st0 = rt_bb st" by (simp add: st0_def)
  obtain q1 nd1 st1 where t: "node_tick env nd st0 = (q1, nd1, st1)" by (metis prod_cases3)
  have p: "plain_rule r" using Cons.prems(2) by simp
  note v = plain_rule_tick [OF p d(1) t, unfolded b0]
  obtain q2 es st2 where l: "composite_loop (node_tick env) nm Failure (Suc i) (ds @ [no_match])
      (on_tracer (trace_exit nm Failure) st1) = (q2, es, st2)" by (metis prod_cases3)
  note IH = Cons.IH [OF d(2) _ l, unfolded tracer_bb]
  show ?case
  proof (cases "rule_verdict (e_externs env) r (rt_bb st)")
    case (Inl e)
    with v t Cons.prems(3) d(3) show ?thesis by (simp flip: st0_def)
  next
    case (Inr b)
    show ?thesis
    proof (cases b)
      case True
      with Inr v t Cons.prems(3) d(3) show ?thesis
        by (auto simp flip: st0_def split: sum.split_asm sum.split)
    next
      case False
      with Inr v have f: "q1 = Inr Failure" "rt_bb st1 = rt_bb st" by simp_all
      from f t Cons.prems(3) d(3) l have g: "q2 = q" "st2 = st'" by (auto simp flip: st0_def)
      have "first_match (e_externs env) (r # rules) (rt_bb st) = first_match (e_externs env) rules (rt_bb st)"
        using Inr False by simp
      moreover have "\<forall>r \<in> set rules. plain_rule r" using Cons.prems(2) by simp
      ultimately show ?thesis using IH [unfolded f(2) g] by argo
    qed
  qed
qed

text \<open>
  One tick of the executor on a fresh tree of plain rules emits the command of the first rule whose
  condition holds and reports a match under the name of the document with priority 0.
\<close>

lemma trace_rule_matched:
  "TrRuleMatched rule (unwrap_or 0 rp) \<in> set (tr_entries (trace_rule (Some rule) rp False k t))"
proof -
  have f: "set (tr_entries u) \<subseteq> set (tr_entries ((trace e ^^ n) u))" for n e u
    by (induction n) (auto simp: trace_def)
  show ?thesis by (simp add: trace_rule_def) (rule subsetD [OF f], simp add: trace_def)
qed

lemma rules_root_tick:
  assumes "collect_results desugar_rule rules = Inr cs" "\<forall>r \<in> set rules. plain_rule r"
    "node_tick env (rules_root md cs) st = (q, nd', st')"
  shows "case first_match (e_externs env) rules (rt_bb st) of
      Inl e \<Rightarrow> q = Inl (RtErr e) \<and> rt_bb st' = rt_bb st
    | Inr c \<Rightarrow> q = Inr Success \<and> rt_bb st' = push_command c (rt_bb st) \<and>
        TrRuleMatched (md_name md) 0 \<in> set (tr_entries (rt_tracer st'))"
proof -
  define nm where "nm = md_name md @ ''_root''"
  obtain q1 ds st1 where l: "composite_loop (node_tick env) nm Failure 0 (cs @ [no_match]) st = (q1, ds, st1)"
    by (metis prod_cases3)
  have t: "(q, nd', st') = selector_finish nm None (Some (md_name md)) None False (q1, ds, st1)"
    using assms(3) l by (simp add: rules_root_def node_tick_eq [of env "Selector nm (cs @ [no_match]) None (Some (md_name md)) None False"]
      tick_node_def composite_tick_def unwrap_or_def flip: nm_def)
  have m: "TrRuleMatched (md_name md) 0 \<in> set (tr_entries (trace_rule (Some (md_name md)) None False k tr))" for k tr
    using trace_rule_matched [of "md_name md" None] by (simp add: unwrap_or_def)
  show ?thesis
  proof (cases "first_match (e_externs env) rules (rt_bb st)")
    case (Inl e)
    with rules_loop [OF assms(1,2) l] t show ?thesis by (simp add: selector_finish_def)
  next
    case (Inr c)
    with rules_loop [OF assms(1,2) l] t m show ?thesis
      by (auto simp: selector_finish_def on_tracer_def)
  qed
qed

lemma rules_executor:
  assumes "desugar (DocDecisionRules av md rules) = Inr t" "\<forall>r \<in> set rules. plain_rule r"
    "executor_tick env executor_new (tree_root t) st = (res, ex', root', st')"
  shows "case first_match (e_externs env) rules (rt_bb st) of
      Inl e \<Rightarrow> res = Inl (RtErr e) \<and> rt_bb st' = rt_bb st
    | Inr c \<Rightarrow> ex' = executor_new \<and> bb_commands (rt_bb st') = [] \<and>
        (\<exists>tr. res = Inr \<lparr>tk_status = Success, tk_commands = bb_commands (rt_bb st) @ [c], tk_trace = tr\<rparr> \<and>
          TrRuleMatched (md_name md) 0 \<in> set tr)"
proof -
  obtain cs where cs: "collect_results desugar_rule rules = Inr cs" "tree_root t = rules_root md cs"
    using assms(1) by auto
  obtain q nd1 st1 where n: "node_tick env (rules_root md cs) (st\<lparr>rt_tracer := tracer_new\<rparr>) = (q, nd1, st1)"
    by (metis prod_cases3)
  have fresh: "rt_bb (st\<lparr>rt_tracer := tracer_new\<rparr>) = rt_bb st" by simp
  have r: "case first_match (e_externs env) rules (rt_bb st) of
      Inl e \<Rightarrow> q = Inl (RtErr e) \<and> rt_bb st1 = rt_bb st
    | Inr c \<Rightarrow> q = Inr Success \<and> rt_bb st1 = push_command c (rt_bb st) \<and>
        TrRuleMatched (md_name md) 0 \<in> set (tr_entries (rt_tracer st1))"
    using rules_root_tick [OF cs(1) assms(2) n] unfolding fresh .
  have "executor_tick env executor_new (rules_root md cs) st = (res, ex', root', st')" using assms(3) cs(2) by simp
  with n r show ?thesis
    by (cases "first_match (e_externs env) rules (rt_bb st)")
       (auto simp: executor_tick_def executor_new_def Let_def drain_commands_def push_command_def)
qed

subsection \<open>A tree of rules never fails\<close>

lemma composite_tick_bound:
  assumes "composite_tick tk nm cont ac cs st = (Inr (Some (j, s)), cs', st')"
  shows "j < max (Suc (unwrap_or 0 ac)) (length cs)"
  using assms composite_loop_status [of tk nm cont "unwrap_or 0 ac" "drop (unwrap_or 0 ac) cs" st j s]
  by (fastforce simp: composite_tick_def Let_def split: prod.split_asm)

lemma last_succeeds:
  "composite_loop (node_tick env) nm Failure i (cs @ [no_match]) st = (Inr res, cs', st') \<Longrightarrow> res \<noteq> None"
proof (induction cs arbitrary: i st cs' st')
  case Nil
  then show ?case
    by (auto simp: no_match_def action_node render_command_templates_def render_with_def)
next
  case (Cons c cs)
  obtain r1 c1 st1 where t: "node_tick env c (on_tracer (trace_enter nm i) st) = (r1, c1, st1)" by (metis prod_cases3)
  obtain s where s: "r1 = Inr s" using Cons.prems t by (cases r1) auto
  obtain r2 ds st2 where l: "composite_loop (node_tick env) nm Failure (Suc i) (cs @ [no_match])
      (on_tracer (trace_exit nm s) st1) = (r2, ds, st2)" by (metis prod_cases3)
  from Cons.prems t s l have "r2 = Inr res \<or> res = Some (i, s)" by (auto simp: Let_def split: if_split_asm)
  with Cons.IH l show ?case by auto
qed

lemma no_match_tick: "\<exists>st'. node_tick env no_match st = (Inr Success, no_match, st')"
  by (simp add: no_match_def action_node render_command_templates_def render_with_def)

lemma no_match_resume: "node_resume env path depth no_match st = node_tick env no_match st"
  by (subst node_resume_eq) (simp add: resume_node_def no_match_def
      node_tick_eq [of env "Action ''no_match'' (AgentCmd ApproveAndContinue) None"])

definition active_ok :: "nat option \<Rightarrow> node list \<Rightarrow> bool" where
  "active_ok ac cs \<longleftrightarrow> unwrap_or 0 ac < length cs"

lemma composite_tick_rules:
  assumes "composite_tick (node_tick env) nm Failure ac (cs @ [no_match]) st = (Inr res, ds, st')"
    "active_ok ac (cs @ [no_match])"
  shows "\<exists>j s. res = Some (j, s) \<and> s \<noteq> Failure \<and> j < Suc (length cs)"
proof -
  let ?n = "unwrap_or 0 ac"
  have d: "drop ?n (cs @ [no_match]) = drop ?n cs @ [no_match]" using assms(2) by (simp add: active_ok_def)
  obtain r es st1 where l: "composite_loop (node_tick env) nm Failure ?n (drop ?n cs @ [no_match]) st = (r, es, st1)"
    by (metis prod_cases3)
  have r: "r = Inr res" using assms(1) l d by (simp add: composite_tick_def Let_def)
  from last_succeeds [OF l [unfolded r]] obtain j s where j: "res = Some (j, s)" by auto
  have "s \<noteq> Failure \<and> ?n \<le> j \<and> j < ?n + length (drop ?n cs @ [no_match])"
    by (rule composite_loop_status [OF l [unfolded r j]])
  with j assms(2) show ?thesis by (auto simp: active_ok_def)
qed

lemma composite_resume_rules:
  assumes "composite_resume (node_resume env) (node_tick env) nm Failure path depth (cs @ [no_match]) st =
      (Inr res, ds, st')"
  shows "\<exists>j s. res = Some (j, s) \<and> s \<noteq> Failure \<and> j < Suc (length cs)"
proof -
  define idx where "idx = path ! depth"
  define st0 where "st0 = on_tracer (trace_enter nm idx) st"
  define run where "run = (if length path \<le> Suc depth then node_tick env else node_resume env path (Suc depth))"
  have i: "idx < Suc (length cs)" using assms by (auto simp: composite_resume_def Let_def simp flip: idx_def split: if_split_asm)
  obtain r1 c1 st1 where t: "run ((cs @ [no_match]) ! idx) st0 = (r1, c1, st1)" by (metis prod_cases3)
  obtain s where s: "r1 = Inr s"
    using assms i t by (cases r1) (auto simp: composite_resume_def Let_def simp flip: idx_def st0_def run_def)
  define st2 where "st2 = on_tracer (trace_exit nm s) st1"
  show ?thesis
  proof (cases "s = Failure")
    case False
    with assms i t s show ?thesis
      by (auto simp: composite_resume_def Let_def simp flip: idx_def st0_def run_def)
  next
    case True
    have "idx \<noteq> length cs"
    proof
      assume "idx = length cs"
      then have "run no_match st0 = (Inr Failure, c1, st1)" using t s True by simp
      moreover have "run no_match = node_tick env no_match" by (simp add: run_def no_match_resume fun_eq_iff)
      ultimately show False using no_match_tick [of env st0] by auto
    qed
    then have d: "drop (Suc idx) (cs @ [no_match]) = drop (Suc idx) cs @ [no_match]" using i by simp
    obtain r2 es st3 where l: "composite_loop (node_tick env) nm Failure (Suc idx) (drop (Suc idx) cs @ [no_match]) st2 =
        (r2, es, st3)" by (metis prod_cases3)
    have "st2 = on_tracer (trace_exit nm Failure) st1" by (simp add: st2_def True)
    with assms i t s True l d have r: "r2 = Inr res"
      by (auto simp: composite_resume_def Let_def simp flip: idx_def st0_def run_def)
    from last_succeeds [OF l [unfolded r]] obtain j u where j: "res = Some (j, u)" by auto
    have "u \<noteq> Failure \<and> Suc idx \<le> j \<and> j < Suc idx + length (drop (Suc idx) cs @ [no_match])"
      by (rule composite_loop_status [OF l [unfolded r j]])
    with j i \<open>idx \<noteq> length cs\<close> show ?thesis by auto
  qed
qed

lemma rules_step:
  assumes "q = node_tick env root st \<or> q = node_resume env path 0 root st"
    "root = Selector nm (cs @ [no_match]) ac rn rp mt" "active_ok ac (cs @ [no_match])"
  shows "fst q \<noteq> Inr Failure \<and>
    (\<exists>ds ac' mt'. fst (snd q) = Selector nm ds ac' rn rp mt' \<and> unwrap_or 0 ac' < Suc (length cs))"
proof -
  define d where "d = (if q = node_tick env root st
     then composite_tick (node_tick env) nm Failure ac (cs @ [no_match]) st
     else composite_resume (node_resume env) (node_tick env) nm Failure path 0 (cs @ [no_match]) st)"
  obtain r ds st' where r: "d = (r, ds, st')" by (metis prod_cases3)
  have q: "q = selector_finish nm ac rn rp mt d"
    using assms(1) unfolding assms(2) d_def
    by (auto simp: node_resume_eq [of env path 0 "Selector nm (cs @ [no_match]) ac rn rp mt"] resume_node_def
        node_tick_eq [of env "Selector nm (cs @ [no_match]) ac rn rp mt"] tick_node_def)
  have a: "unwrap_or 0 ac < Suc (length cs)" using assms(3) by (simp add: active_ok_def)
  show ?thesis
  proof (cases r)
    case (Inl e)
    with q r a show ?thesis by (simp add: selector_finish_def)
  next
    case (Inr res)
    have "\<exists>j s. res = Some (j, s) \<and> s \<noteq> Failure \<and> j < Suc (length cs)"
      using r [unfolded Inr] d_def composite_tick_rules [OF _ assms(3)] composite_resume_rules
      by (metis (no_types, lifting))
    then obtain j s where "res = Some (j, s)" "s \<noteq> Failure" "j < Suc (length cs)" by blast
    with q r Inr show ?thesis by (simp add: selector_finish_def unwrap_or_def)
  qed
qed

lemma rules_shape:
  assumes "node_reset root = node_reset (rules_root md cs0)"
  shows "\<exists>cs ac mt. root = Selector (md_name md @ ''_root'') (cs @ [no_match]) ac (Some (md_name md)) None mt \<and>
    length cs = length cs0"
proof -
  from assms obtain es ac mt where e: "root = Selector (md_name md @ ''_root'') es ac (Some (md_name md)) None mt"
    "map node_reset es = map node_reset cs0 @ [no_match]"
    by (cases root) (auto simp: rules_root_def no_match_def)
  then obtain cs c where c: "es = cs @ [c]" "map node_reset cs = map node_reset cs0" "node_reset c = no_match"
    by (cases es rule: rev_cases) auto
  have "c = no_match" using c(3) by (cases c) (auto simp: no_match_def)
  with e c show ?thesis by (metis length_map)
qed

definition rules_active :: "node \<Rightarrow> bool" where
  "rules_active root \<longleftrightarrow> (case root of Selector _ cs ac _ _ _ \<Rightarrow> active_ok ac cs | _ \<Rightarrow> False)"

lemma rules_executor_step:
  assumes "node_reset root = node_reset (rules_root md cs)" "rules_active root"
    "executor_tick env ex root st = (r, ex', root', st')"
  shows "rules_active root' \<and> (\<forall>t. r = Inr t \<longrightarrow> tk_status t \<noteq> Failure)"
proof -
  obtain ds ac mt where root: "root = Selector (md_name md @ ''_root'') (ds @ [no_match]) ac (Some (md_name md)) None mt"
    using rules_shape [OF assms(1)] by blast
  with assms(2) have a: "active_ok ac (ds @ [no_match])" by (simp add: rules_active_def)
  obtain q s1 where n: "(if ex_is_running ex then node_resume env (ex_running_path ex) 0 root (st\<lparr>rt_tracer := tracer_new\<rparr>)
      else node_tick env root (st\<lparr>rt_tracer := tracer_new\<rparr>)) = (q, root', s1)"
    and q: "case q of
       Inl e \<Rightarrow> r = Inl e \<and> ex' = ex \<and> st' = s1
     | Inr s \<Rightarrow> r = Inr \<lparr>tk_status = s, tk_commands = bb_commands (rt_bb s1),
           tk_trace = tr_entries (rt_tracer s1)\<rparr> \<and> st' = on_bb (\<lambda>b. b\<lparr>bb_commands := []\<rparr>) s1"
    by (rule executor_tick_out [OF assms(3)])
  have s: "q \<noteq> Inr Failure \<and> (\<exists>es ac' mt'. root' = Selector (md_name md @ ''_root'') es ac' (Some (md_name md)) None mt' \<and>
      unwrap_or 0 ac' < Suc (length ds))"
    using rules_step [OF _ root a, of "(q, root', s1)" env "st\<lparr>rt_tracer := tracer_new\<rparr>" "ex_running_path ex"] n
    by (auto split: if_split_asm)
  have "node_reset root' = node_reset root"
    using n keepsD [OF keeps_node_tick] keepsD [OF keeps_node_resume] by (metis (full_types))
  then have "node_children (node_reset root') = node_children (node_reset root)" by simp
  then have "length (node_children root') = length (node_children root)"
    by (metis children_reset length_map)
  then have "rules_active root'" using s root by (auto simp: rules_active_def active_ok_def)
  with s q show ?thesis by (cases q) auto
qed

lemma rules_never_fail:
  assumes "executor_reaches env (rules_root md cs) ex root"
  shows "rules_active root"
  using assms
proof (induction rule: executor_reaches.induct)
  case start
  then show ?case by (simp add: rules_active_def rules_root_def active_ok_def unwrap_or_def)
next
  case (step ex root st r ex' root' st')
  with rules_executor_step [OF executor_keeps [OF step.hyps(1)]] show ?case by blast
next
  case (restart ex root)
  then show ?case by (auto simp: rules_active_def active_ok_def unwrap_or_def split: node.split_asm)
qed simp

subsection \<open>Names of desugared rules\<close>

abbreviation names_of :: "node \<Rightarrow> string set" where
  "names_of nd \<equiv> node_name ` set (preorder nd)"

lemma names_of_unfold: "names_of nd = insert (node_name nd) (\<Union>c \<in> set (node_children nd). names_of c)"
  by (subst preorder.simps) auto

lemma inline_rule_emits:
  assumes "inline_command (rs_action r) \<noteq> None" "desugar_rule r = Inr nd"
  shows "''emit'' \<in> names_of nd"
proof -
  obtain c where c: "rs_action r = InlineCommand c" using assms(1) by (cases "rs_action r") auto
  define a where "a = Action ''emit'' c None"
  have "''emit'' \<in> names_of a" by (subst names_of_unfold) (simp add: a_def)
  moreover have "names_of nd \<subseteq> names_of (guard_rule r nd)" for nd
    by (cases "rs_condition r") (auto simp: guard_rule_def names_of_unfold [of "Sequence _ _ _"])
  moreover have "names_of nd \<subseteq> names_of (wrap_on_error k n oe nd)" for k n oe nd
    by (cases oe rule: option.exhaust; cases "the oe")
       (auto simp: wrap_on_error_def branch_selector_def names_of_unfold [of "Selector _ _ _ _ _ _"] names_of_unfold [of "Repeater _ _ _ _"])
  moreover have "names_of nd \<subseteq> names_of (reflect_rule r nd)" for nd
    by (cases "rs_reflection_max_rounds r") (auto simp: reflect_rule_def names_of_unfold [of "ReflectionGuard _ _ _"])
  moreover have "names_of nd \<subseteq> names_of (cooldown_rule r nd)" for nd
    by (cases "rs_cooldown_ms r") (auto simp: cooldown_rule_def names_of_unfold [of "Cooldown _ _ _ _"])
  moreover have "nd = cooldown_rule r (reflect_rule r (wrap_on_error ''Rule'' (rs_name r) (rs_on_error r) (guard_rule r a)))"
    using assms(2) c by (simp add: desugar_rule_def a_def)
  ultimately show ?thesis by (meson subsetD)
qed

lemma not_distinct_concat:
  assumes "i < j" "j < length xss" "x \<in> set (xss ! i)" "x \<in> set (xss ! j)"
  shows "\<not> distinct (concat xss)"
proof -
  have "concat xss = concat (take j xss) @ xss ! j @ concat (drop (Suc j) xss)"
    using assms(2) by (metis concat.simps(2) concat_append id_take_nth_drop)
  moreover have "take j xss ! i \<in> set (take j xss)" using assms(1,2) by (intro nth_mem) simp
  then have "x \<in> set (concat (take j xss))" using assms(1,3) by auto
  ultimately show ?thesis using assms(4) by auto
qed

lemma inline_rules_duplicate:
  assumes "desugar (DocDecisionRules av md rules) = Inr t" "i < j" "j < length rules"
    "inline_command (rs_action (rules ! i)) \<noteq> None" "inline_command (rs_action (rules ! j)) \<noteq> None"
  shows "\<exists>e. validate_unique_names t = Inl e"
proof -
  let ?cs = "node_children (tree_root t)"
  note d = desugar_rules_children [OF assms(1)]
  have e: "''emit'' \<in> names_of (?cs ! k)" if "k < length rules" "inline_command (rs_action (rules ! k)) \<noteq> None" for k
    by (rule inline_rule_emits [OF that(2) d(2) [OF that(1)]])
  let ?xss = "map (\<lambda>c. map node_name (preorder c)) ?cs"
  have "\<not> distinct (concat ?xss)"
    by (rule not_distinct_concat [OF assms(2), of _ "''emit''"])
       (use e [of i] e [of j] assms d(1) in simp_all)
  moreover have "map node_name (preorder (tree_root t)) = node_name (tree_root t) # concat ?xss"
    by (subst preorder.simps) (simp add: map_concat comp_def)
  ultimately have "validate_unique_names t \<noteq> Inr ()" by (simp add: validate_unique_names_iff)
  then show ?thesis by (cases "validate_unique_names t") auto
qed

subsection \<open>Parallel\<close>

lemma count_status_total: "count_status Success ss + count_status Failure ss + count_status Running ss = length ss"
proof (induction ss)
  case (Cons s ss)
  then show ?case by (cases s) (simp_all add: count_status_def)
qed (simp add: count_status_def)

lemma count_status_all: "count_status s ss = length ss \<longleftrightarrow> (\<forall>t \<in> set ss. t = s)"
proof (induction ss)
  case (Cons t ss)
  have "length (filter (\<lambda>t. t = s) ss) \<le> length ss" by simp
  with Cons show ?case by (auto simp: count_status_def simp del: length_filter_le)
qed (simp add: count_status_def)

lemma count_status_pos: "0 < count_status s ss \<longleftrightarrow> s \<in> set ss"
  by (auto simp: count_status_def filter_empty_conv)

lemma parallel_all_success:
  "parallel_status AllSuccess ss = (if Failure \<in> set ss then Failure else if Running \<in> set ss then Running else Success)"
proof -
  have "(\<forall>t \<in> set ss. t = Success) \<longleftrightarrow> Failure \<notin> set ss \<and> Running \<notin> set ss"
    by (metis node_status.exhaust node_status.distinct(1,3))
  then show ?thesis by (simp add: parallel_status_def Let_def count_status_all count_status_pos)
qed

lemma parallel_any_success:
  "parallel_status AnySuccess ss = (if Success \<in> set ss then Success else if Running \<in> set ss then Running else Failure)"
proof -
  have "(\<forall>t \<in> set ss. t = Failure) \<longleftrightarrow> Success \<notin> set ss \<and> Running \<notin> set ss"
    by (metis node_status.exhaust node_status.distinct(1,5))
  then show ?thesis by (simp add: parallel_status_def Let_def count_status_all count_status_pos)
qed

lemma parallel_majority:
  "parallel_status Majority ss = Success \<longleftrightarrow> length ss < 2 * count_status Success ss"
  "parallel_status Majority ss = Running \<longleftrightarrow>
     2 * count_status Success ss \<le> length ss \<and> count_status Failure ss \<le> length ss div 2 \<and> Running \<in> set ss"
  by (auto simp: parallel_status_def Let_def count_status_pos [symmetric])

subsection \<open>Retried rules\<close>

text \<open>\<open>on_error: retry\<close> wraps a rule in a repeater of two, which repeats a rule that succeeds as well.\<close>

lemma retried_rule:
  assumes "rs_condition r = None" "rs_action r = InlineCommand cmd" "rs_cooldown_ms r = None"
    "rs_reflection_max_rounds r = None" "rs_on_error r = Some OnRetry" "desugar_rule r = Inr nd"
    "render_command_templates (e_externs env) cmd (rt_bb st) = Inr c"
    "node_tick env nd st = (q, nd', st')"
  shows "q = Inr Success \<and> bb_commands (rt_bb st') = bb_commands (rt_bb st) @ [c, c]"
proof -
  have nd: "nd = Repeater (rs_name r @ ''_retry'') 2 (Action ''emit'' cmd None) 0"
    using assms by (simp add: desugar_rule_def cooldown_rule_def reflect_rule_def wrap_on_error_def guard_rule_def)
  have "unat (2 :: u32) = 2" by simp
  then have "replicate (unat (2 :: u32)) c = [c, c]" by (simp add: numeral_2_eq_2)
  with repeater_action [OF assms(7) _ assms(8) [unfolded nd]] show ?thesis by simp
qed

subsection \<open>Properties\<close>

text \<open>Two rules, of which the second matches on a fresh blackboard.\<close>

definition sample_rule :: "string \<Rightarrow> u32 \<Rightarrow> evaluator option \<Rightarrow> agent_command \<Rightarrow> on_error option \<Rightarrow> rule_spec" where
  "sample_rule nm p cond cmd oe = \<lparr>rs_priority = p, rs_name = nm, rs_condition = cond,
     rs_action = InlineCommand (AgentCmd cmd), rs_cooldown_ms = None, rs_reflection_max_rounds = None,
     rs_on_error = oe\<rparr>"

definition sample_metadata :: metadata where
  "sample_metadata = \<lparr>md_name = ''sample'', md_description = None\<rparr>"

definition sample_rules :: "rule_spec list" where
  "sample_rules =
     [sample_rule ''first'' 1 (Some (SituationIs ''blocked'')) WakeUp None,
      sample_rule ''second'' 2 (Some (ReflectionRoundUnder 2)) (Reflect ''think'') None]"

definition sample_tree :: tree where
  "sample_tree = \<lparr>tree_api_version = ''decision.agile-agent.io/v1'', tree_kind = KindBehaviorTree,
     tree_metadata = sample_metadata,
     tree_root = rules_root sample_metadata
       [Sequence ''first_guard'' [Condition ''first_cond'' (SituationIs ''blocked''),
          Action ''emit'' (AgentCmd WakeUp) None] None,
        Sequence ''second_guard'' [Condition ''second_cond'' (ReflectionRoundUnder 2),
          Action ''emit'' (AgentCmd (Reflect ''think'')) None] None]\<rparr>"

lemmas sample_defs = sample_rule_def sample_metadata_def sample_rules_def sample_tree_def sample_env_def
  sample_rt_def literal_externs_def bb_default_def

lemma sample_desugar:
  "desugar (DocDecisionRules ''decision.agile-agent.io/v1'' sample_metadata sample_rules) = Inr sample_tree"
  by (simp add: sample_defs desugar_rule_def cooldown_rule_def reflect_rule_def wrap_on_error_def guard_rule_def)

lemma sample_plain: "\<forall>r \<in> set sample_rules. plain_rule r"
  by (simp add: sample_defs plain_rule_def)

lemma sample_match:
  "first_match (e_externs sample_env) sample_rules (rt_bb sample_rt) = Inr (AgentCmd (Reflect ''think''))"
  by (simp add: sample_defs rule_verdict_def render_command_templates_def render_with_def render_prompt_template_def)



text \<open>
  C2: A tree of decision rules of any form always decides: in every state the executor can bring it
  to (whatever the host did between the ticks), a tick that returns without error does not return
  \<open>Failure\<close>, because the fallback child is always reached and succeeds.
\<close>

theorem rules_tree_never_fails:
  assumes "desugar (DocDecisionRules av md rules) = Inr t" "executor_reaches env (tree_root t) ex root"
    "executor_tick env ex root st = (Inr res, ex', root', st')"
  shows "tk_status res \<noteq> Failure"
proof -
  obtain cs where "tree_root t = rules_root md cs" using assms(1) by auto
  then have r: "executor_reaches env (rules_root md cs) ex root" using assms(2) by simp
  show ?thesis
    using rules_executor_step [OF executor_keeps [OF r] rules_never_fail [OF r] assms(3)] by simp
qed

theorem rules_tree_never_fails_witness:
  "\<exists>res ex' root' st'.
     executor_tick sample_env executor_new (tree_root sample_tree) sample_rt = (Inr res, ex', root', st') \<and>
     tk_status res \<noteq> Failure"
proof -
  obtain r ex' root' st' where
    e: "executor_tick sample_env executor_new (tree_root sample_tree) sample_rt = (r, ex', root', st')"
    by (metis prod_cases4)
  with rules_executor [OF sample_desugar sample_plain e] obtain res where r: "r = Inr res"
    by (auto simp: sample_match)
  from rules_tree_never_fails [OF sample_desugar executor_reaches.start e [unfolded r]] e r
  show ?thesis by blast
qed

text \<open>
  C22: A subtree that returns a status leaves the scopes of the blackboard exactly as they were:
  whatever its nodes set is gone, whatever the caller had set is back.
\<close>

theorem subtree_is_scoped:
  assumes "node_tick env (SubTree nm rf root) st = (Inr s, nd', st')" "has_scope (rt_bb st)"
  shows "bb_scopes (rt_bb st') = bb_scopes (rt_bb st)"
  by (rule subtree_restores_scopes [OF assms])

theorem subtree_is_scoped_witness:
  "bb_scopes (rt_bb (snd (snd (node_tick sample_env
     (SubTree ''call'' ''sub'' (Some (SetVar ''set'' ''key'' (VInteger 1)))) sample_rt)))) = [[]]"
proof -
  let ?nd = "SubTree ''call'' ''sub'' (Some (SetVar ''set'' ''key'' (VInteger 1)))"
  obtain r nd' st' where t: "node_tick sample_env ?nd sample_rt = (r, nd', st')" by (metis prod_cases3)
  then have r: "r = Inr Success"
    by (auto simp: node_tick_def tick_node_def subtree_with_def set_var_tick_def numeral_2_eq_2 Let_def
        push_scope_def MAX_SCOPE_DEPTH_def sample_defs on_tracer_def)
  from subtree_is_scoped [OF t [unfolded r]] t show ?thesis by (simp add: sample_defs has_scope_def)
qed

text \<open>
  C24: A subtree that fails keeps its scope, so repeated failures use the scopes up: after as many
  failing ticks as there are free scopes, every further tick of the subtree is \<open>ScopeDepthExceeded\<close>,
  whatever the child would do.
\<close>

theorem subtree_failures_exhaust_scopes:
  assumes "error_run env n (SubTree nm rf (Some c)) st = Some (nd', st')" "has_scope (rt_bb st)"
    "MAX_SCOPE_DEPTH \<le> length (bb_scopes (rt_bb st)) + n"
  shows "fst (node_tick env nd' st') = Inl (RtErr ScopeDepthExceeded)"
  by (rule subtree_leak_exhausts [OF assms])

definition failing_child :: node where
  "failing_child = Condition ''bad'' (CustomEvaluator ''none'' [])"

lemma failing_subtree_tick:
  assumes "length (bb_scopes (rt_bb st)) < MAX_SCOPE_DEPTH"
  shows "\<exists>st'. node_tick env (SubTree ''call'' ''sub'' (Some failing_child)) st =
      (Inl (RtErr (FilterError (''custom evaluator '' @ quoted ''none'' @ '' not registered''))),
       SubTree ''call'' ''sub'' (Some failing_child), st') \<and>
    length (bb_scopes (rt_bb st')) = Suc (length (bb_scopes (rt_bb st)))"
  using assms by (subst node_tick_eq)
    (simp add: tick_node_def subtree_with_def Let_def push_scope_def failing_child_def condition_node)

lemma failing_subtree_run:
  "length (bb_scopes (rt_bb st)) + n \<le> MAX_SCOPE_DEPTH \<Longrightarrow>
   \<exists>r. error_run env n (SubTree ''call'' ''sub'' (Some failing_child)) st = Some r"
proof (induction n arbitrary: st)
  case 0
  then show ?case by simp
next
  case (Suc n)
  from failing_subtree_tick [of st env] Suc.prems obtain st1 where
    "node_tick env (SubTree ''call'' ''sub'' (Some failing_child)) st =
      (Inl (RtErr (FilterError (''custom evaluator '' @ quoted ''none'' @ '' not registered''))),
       SubTree ''call'' ''sub'' (Some failing_child), st1)"
    "length (bb_scopes (rt_bb st1)) = Suc (length (bb_scopes (rt_bb st)))" by auto
  with Suc.IH [of st1] Suc.prems show ?case by simp
qed

theorem subtree_failures_exhaust_scopes_witness:
  "\<exists>nd' st'. error_run sample_env 63 (SubTree ''call'' ''sub'' (Some failing_child)) sample_rt = Some (nd', st') \<and>
     fst (node_tick sample_env nd' st') = Inl (RtErr ScopeDepthExceeded)"
proof -
  have l: "length (bb_scopes (rt_bb sample_rt)) = 1" by (simp add: sample_defs)
  obtain nd' st' where
    r: "error_run sample_env 63 (SubTree ''call'' ''sub'' (Some failing_child)) sample_rt = Some (nd', st')"
    using failing_subtree_run [of sample_rt 63 sample_env] l by (auto simp: MAX_SCOPE_DEPTH_def)
  have "has_scope (rt_bb sample_rt)" using l by (auto simp: has_scope_def)
  with subtree_failures_exhaust_scopes [OF r] l r show ?thesis by (auto simp: MAX_SCOPE_DEPTH_def)
qed



text \<open>
  A rule with \<open>on_error: retry\<close> runs twice although its first run succeeds: the command is
  emitted twice.
\<close>

theorem retried_rule_emits_twice:
  assumes "rs_condition r = None" "rs_action r = InlineCommand cmd" "rs_cooldown_ms r = None"
    "rs_reflection_max_rounds r = None" "rs_on_error r = Some OnRetry" "desugar_rule r = Inr nd"
    "render_command_templates (e_externs env) cmd (rt_bb st) = Inr c"
    "node_tick env nd st = (q, nd', st')"
  shows "q = Inr Success \<and> bb_commands (rt_bb st') = bb_commands (rt_bb st) @ [c, c]"
  by (rule retried_rule [OF assms])

theorem retried_rule_emits_twice_witness:
  "\<exists>nd. desugar_rule (sample_rule ''again'' 1 None WakeUp (Some OnRetry)) = Inr nd \<and>
     bb_commands (rt_bb (snd (snd (node_tick sample_env nd sample_rt)))) = [AgentCmd WakeUp, AgentCmd WakeUp]"
proof -
  let ?r = "sample_rule ''again'' 1 None WakeUp (Some OnRetry)"
  obtain nd where nd: "desugar_rule ?r = Inr nd" using desugar_rule_total by blast
  obtain q nd' st' where t: "node_tick sample_env nd sample_rt = (q, nd', st')" by (metis prod_cases3)
  have c: "render_command_templates (e_externs sample_env) (AgentCmd WakeUp) (rt_bb sample_rt) = Inr (AgentCmd WakeUp)"
    by (simp add: render_command_templates_def render_with_def)
  have "bb_commands (rt_bb st') = bb_commands (rt_bb sample_rt) @ [AgentCmd WakeUp, AgentCmd WakeUp]"
    using retried_rule_emits_twice [OF _ _ _ _ _ nd c t] by (simp add: sample_rule_def)
  with nd t show ?thesis by (simp add: sample_defs)
qed

text \<open>
  Any two inline rules of a document make its tree invalid: both become actions named
  \<open>emit\<close>, and the validation of unique names rejects the tree.
\<close>

theorem two_inline_rules_rejected:
  assumes "desugar (DocDecisionRules av md rules) = Inr t" "i < j" "j < length rules"
    "inline_command (rs_action (rules ! i)) \<noteq> None" "inline_command (rs_action (rules ! j)) \<noteq> None"
  shows "\<exists>e. validate_unique_names t = Inl e"
  by (rule inline_rules_duplicate [OF assms])

theorem two_inline_rules_rejected_witness: "\<exists>e. validate_unique_names sample_tree = Inl e"
  using two_inline_rules_rejected [OF sample_desugar, of 0 1] by (simp add: sample_defs)

text \<open>
  The policies of a parallel node: with \<open>AllSuccess\<close> a failure decides before a running child,
  with \<open>AnySuccess\<close> a success does, and \<open>Majority\<close> succeeds exactly when more than half of the
  children do and waits only while neither side has a majority and some child is running.
\<close>

theorem parallel_policies:
  "parallel_status AllSuccess ss =
     (if Failure \<in> set ss then Failure else if Running \<in> set ss then Running else Success) \<and>
   parallel_status AnySuccess ss =
     (if Success \<in> set ss then Success else if Running \<in> set ss then Running else Failure) \<and>
   (parallel_status Majority ss = Success \<longleftrightarrow> length ss < 2 * count_status Success ss) \<and>
   (parallel_status Majority ss = Running \<longleftrightarrow>
      2 * count_status Success ss \<le> length ss \<and> count_status Failure ss \<le> length ss div 2 \<and> Running \<in> set ss)"
  by (simp add: parallel_all_success parallel_any_success parallel_majority)

end
