(* ===== verification/Kanban_Domain.thy ===== *)
theory Kanban_Domain
  imports Rust_Strings Guarded_Transition
begin

text \<open>
  The kanban domain of \<open>kanban/src/domain.rs\<close>, the string identifiers of \<open>types.rs\<close> and the
  errors of \<open>error.rs\<close>: statuses with their transition table, priorities, element types,
  element ids with their parser, the fields common to all elements and the six element kinds.
  Readings of \<open>Utc::now()\<close> are arguments; where the code reads the clock twice (once for
  \<open>updated_at\<close>, once in \<open>StatusHistoryEntry::new\<close>) there are two.
\<close>

type_synonym u32 = "32 word"

subsection \<open>Status\<close>

datatype status_type = StatusType (status_type_name: string)

datatype status = StPlan | StBacklog | StBlocked | StReady | StTodo | StInProgress | StDone | StVerified

fun valid_transitions :: "status \<Rightarrow> status list" where
  "valid_transitions StPlan = [StBacklog]"
| "valid_transitions StBacklog = [StBlocked, StReady, StTodo, StPlan]"
| "valid_transitions StBlocked = [StBacklog]"
| "valid_transitions StReady = [StTodo, StBacklog]"
| "valid_transitions StTodo = [StInProgress, StReady]"
| "valid_transitions StInProgress = [StDone, StTodo]"
| "valid_transitions StDone = [StVerified, StTodo]"
| "valid_transitions StVerified = []"

definition status_can_transition :: "status \<Rightarrow> status \<Rightarrow> bool" where
  "status_can_transition s t \<longleftrightarrow> t \<in> set (valid_transitions s)"

definition status_is_terminal :: "status \<Rightarrow> bool" where
  "status_is_terminal s \<longleftrightarrow> s = StVerified"

fun status_as_str :: "status \<Rightarrow> string" where
  "status_as_str StPlan = ''plan''"
| "status_as_str StBacklog = ''backlog''"
| "status_as_str StBlocked = ''blocked''"
| "status_as_str StReady = ''ready''"
| "status_as_str StTodo = ''todo''"
| "status_as_str StInProgress = ''in_progress''"
| "status_as_str StDone = ''done''"
| "status_as_str StVerified = ''verified''"

fun status_display :: "status \<Rightarrow> string" where
  "status_display StPlan = ''Plan''"
| "status_display StBacklog = ''Backlog''"
| "status_display StBlocked = ''Blocked''"
| "status_display StReady = ''Ready''"
| "status_display StTodo = ''Todo''"
| "status_display StInProgress = ''InProgress''"
| "status_display StDone = ''Done''"
| "status_display StVerified = ''Verified''"

definition to_status_type :: "status \<Rightarrow> status_type" where
  "to_status_type s = StatusType (status_as_str s)"

record transition_error =
  te_from :: status
  te_to :: status

text \<open>\<open>TryFrom<StatusType>\<close>: the error carries dummy statuses.\<close>

definition status_of_type :: "status_type \<Rightarrow> transition_error + status" where
  "status_of_type st =
     (let n = status_type_name st in
      if n = ''plan'' then Inr StPlan
      else if n = ''backlog'' then Inr StBacklog
      else if n = ''blocked'' then Inr StBlocked
      else if n = ''ready'' then Inr StReady
      else if n = ''todo'' then Inr StTodo
      else if n = ''in_progress'' then Inr StInProgress
      else if n = ''done'' then Inr StDone
      else if n = ''verified'' then Inr StVerified
      else Inl \<lparr>te_from = StPlan, te_to = StPlan\<rparr>)"

definition builtin_statuses_all :: "status_type list" where
  "builtin_statuses_all =
     map StatusType [''plan'', ''backlog'', ''blocked'', ''ready'', ''todo'', ''in_progress'', ''done'', ''verified'']"

subsection \<open>Priority and element type\<close>

datatype priority = PriCritical | PriHigh | PriMedium | PriLow

fun priority_as_str :: "priority \<Rightarrow> string" where
  "priority_as_str PriCritical = ''critical''"
| "priority_as_str PriHigh = ''high''"
| "priority_as_str PriMedium = ''medium''"
| "priority_as_str PriLow = ''low''"

definition priority_from_str :: "string \<Rightarrow> priority option" where
  "priority_from_str s =
     (let l = to_lowercase s in
      if l = ''critical'' then Some PriCritical
      else if l = ''high'' then Some PriHigh
      else if l = ''medium'' then Some PriMedium
      else if l = ''low'' then Some PriLow
      else None)"

datatype element_type_identifier = ElementTypeIdentifier (element_type_name: string)

datatype element_type = TySprint | TyStory | TyTask | TyIdea | TyIssue | TyTips

fun element_type_as_str :: "element_type \<Rightarrow> string" where
  "element_type_as_str TySprint = ''sprint''"
| "element_type_as_str TyStory = ''story''"
| "element_type_as_str TyTask = ''task''"
| "element_type_as_str TyIdea = ''idea''"
| "element_type_as_str TyIssue = ''issue''"
| "element_type_as_str TyTips = ''tips''"

definition element_type_from_str :: "string \<Rightarrow> element_type option" where
  "element_type_from_str s =
     (let l = to_lowercase s in
      if l = ''sprint'' then Some TySprint
      else if l = ''story'' then Some TyStory
      else if l = ''task'' then Some TyTask
      else if l = ''idea'' then Some TyIdea
      else if l = ''issue'' then Some TyIssue
      else if l = ''tips'' \<or> l = ''tip'' then Some TyTips
      else None)"

definition to_element_type_identifier :: "element_type \<Rightarrow> element_type_identifier" where
  "to_element_type_identifier ty = ElementTypeIdentifier (element_type_as_str ty)"

definition builtin_element_types_all :: "element_type_identifier list" where
  "builtin_element_types_all =
     map ElementTypeIdentifier [''sprint'', ''story'', ''task'', ''idea'', ''issue'', ''tips'']"

subsection \<open>Errors\<close>

datatype kanban_error =
    NotFound string
  | InvalidStatusTransition string string
  | DependenciesNotMet "string list"
  | RepositoryError string
  | SerializationError string
  | InvalidInput string
  | HasDependents "string list"
  | ConversionError string

fun kanban_error_display :: "kanban_error \<Rightarrow> string" where
  "kanban_error_display (NotFound i) = ''element not found: '' @ i"
| "kanban_error_display (InvalidStatusTransition s t) =
     ''invalid status transition from '' @ s @ '' to '' @ t"
| "kanban_error_display (DependenciesNotMet ds) = ''dependencies not met: '' @ str_join '', '' ds"
| "kanban_error_display (RepositoryError m) = ''repository error: '' @ m"
| "kanban_error_display (SerializationError m) = ''serialization error: '' @ m"
| "kanban_error_display (InvalidInput m) = ''invalid input: '' @ m"
| "kanban_error_display (HasDependents ds) = ''element has dependents: '' @ str_join '', '' ds"
| "kanban_error_display (ConversionError m) = ''conversion error: '' @ m"

definition element_type_of_identifier :: "element_type_identifier \<Rightarrow> kanban_error + element_type" where
  "element_type_of_identifier ti =
     (let n = element_type_name ti in
      if n = ''sprint'' then Inr TySprint
      else if n = ''story'' then Inr TyStory
      else if n = ''task'' then Inr TyTask
      else if n = ''idea'' then Inr TyIdea
      else if n = ''issue'' then Inr TyIssue
      else if n = ''tips'' then Inr TyTips
      else Inl (ConversionError (''unknown element type: '' @ n)))"

subsection \<open>Element ids\<close>

datatype element_id = ElementId (eid_str: string)

datatype id_parse_error = InvalidFormat string | InvalidType string | InvalidNumber string

text \<open>The format \<open>{:03}\<close>: padded with zeros to three digits, never cut.\<close>

definition pad3 :: "nat \<Rightarrow> string" where
  "pad3 n = (let s = nat_to_string n in replicate (3 - length s) (CHR ''0'') @ s)"

definition id_format :: "string \<Rightarrow> nat \<Rightarrow> element_id" where
  "id_format ty n = ElementId (ty @ CHR ''-'' # pad3 n)"

definition element_id_new :: "element_type \<Rightarrow> u32 \<Rightarrow> element_id" where
  "element_id_new ty n = id_format (element_type_as_str ty) (unat n)"

definition element_id_parse :: "string \<Rightarrow> id_parse_error + element_id" where
  "element_id_parse s =
     (case split_on (CHR ''-'') s of
        [type_str, num_str] \<Rightarrow>
          (case element_type_from_str type_str of
             None \<Rightarrow> Inl (InvalidType type_str)
           | Some _ \<Rightarrow>
               (case parse_unsigned 32 num_str of
                  None \<Rightarrow> Inl (InvalidNumber num_str)
                | Some n \<Rightarrow> Inr (id_format type_str n)))
      | _ \<Rightarrow> Inl (InvalidFormat s))"

text \<open>\<open>number\<close> indexes \<open>parts[1]\<close>: \<^const>\<open>None\<close> is the panic on a string without a dash.\<close>

definition element_id_number :: "element_id \<Rightarrow> u32 option" where
  "element_id_number i =
     (case split_on (CHR ''-'') (eid_str i) of
        _ # num_str # _ \<Rightarrow>
          Some (case parse_unsigned 32 num_str of Some n \<Rightarrow> of_nat n | None \<Rightarrow> 0)
      | _ \<Rightarrow> None)"

definition element_id_type :: "element_id \<Rightarrow> element_type" where
  "element_id_type i =
     (case element_type_from_str (hd (split_on (CHR ''-'') (eid_str i))) of
        Some ty \<Rightarrow> ty | None \<Rightarrow> TyTask)"

fun id_parse_error_display :: "id_parse_error \<Rightarrow> string" where
  "id_parse_error_display (InvalidFormat s) = ''invalid element ID format: '' @ s"
| "id_parse_error_display (InvalidType s) = ''invalid element type: '' @ s"
| "id_parse_error_display (InvalidNumber s) = ''invalid element number: '' @ s"

subsection \<open>The fields common to all elements\<close>

record status_history_entry =
  she_status :: status
  she_entered_at :: instant

record base_element =
  be_id :: "element_id option"
  be_title :: string
  be_content :: string
  be_keywords :: "string list"
  be_status :: status
  be_dependencies :: "element_id list"
  be_references :: "element_id list"
  be_parent :: "element_id option"
  be_created_at :: instant
  be_updated_at :: instant
  be_priority :: priority
  be_assignee :: "string option"
  be_effort :: "u32 option"
  be_blocked_reason :: "string option"
  be_tags :: "string list"
  be_status_history :: "status_history_entry list"

definition base_new :: "instant \<Rightarrow> instant \<Rightarrow> string \<Rightarrow> base_element" where
  "base_new t t' title =
     \<lparr>be_id = None, be_title = title, be_content = [], be_keywords = [], be_status = StPlan,
      be_dependencies = [], be_references = [], be_parent = None, be_created_at = t,
      be_updated_at = t, be_priority = PriMedium, be_assignee = None, be_effort = None,
      be_blocked_reason = None, be_tags = [],
      be_status_history = [\<lparr>she_status = StPlan, she_entered_at = t'\<rparr>]\<rparr>"

definition base_transition ::
  "instant \<Rightarrow> instant \<Rightarrow> status \<Rightarrow> base_element \<Rightarrow> (transition_error + unit) \<times> base_element"
where
  "base_transition t t' new b =
     (if \<not> status_can_transition (be_status b) new
      then (Inl \<lparr>te_from = be_status b, te_to = new\<rparr>, b)
      else (Inr (),
            b\<lparr>be_status := new, be_updated_at := t,
              be_status_history := be_status_history b @ [\<lparr>she_status = new, she_entered_at = t'\<rparr>]\<rparr>))"

subsection \<open>Elements\<close>

record sprint =
  sprint_base :: base_element
  sprint_goal :: string
  sprint_start_date :: "string option"
  sprint_end_date :: "string option"
  sprint_active :: bool

record story = story_base :: base_element
record task = task_base :: base_element
record idea = idea_base :: base_element
record issue = issue_base :: base_element

record tips =
  tips_base :: base_element
  tips_target_task :: element_id
  tips_agent_id :: string

datatype kanban_element =
  ElSprint sprint | ElStory story | ElTask task | ElIdea idea | ElIssue issue | ElTips tips

definition new_sprint :: "instant \<Rightarrow> instant \<Rightarrow> string \<Rightarrow> string \<Rightarrow> kanban_element" where
  "new_sprint t t' title goal =
     ElSprint \<lparr>sprint_base = base_new t t' title, sprint_goal = goal, sprint_start_date = None,
               sprint_end_date = None, sprint_active = False\<rparr>"

definition new_sprint_with_dates ::
  "instant \<Rightarrow> instant \<Rightarrow> string \<Rightarrow> string \<Rightarrow> string \<Rightarrow> string \<Rightarrow> kanban_element"
where
  "new_sprint_with_dates t t' title goal start end_date =
     ElSprint \<lparr>sprint_base = base_new t t' title, sprint_goal = goal, sprint_start_date = Some start,
               sprint_end_date = Some end_date, sprint_active = True\<rparr>"

definition new_story :: "instant \<Rightarrow> instant \<Rightarrow> string \<Rightarrow> string \<Rightarrow> kanban_element" where
  "new_story t t' title content =
     ElStory \<lparr>story_base = (base_new t t' title)\<lparr>be_content := content\<rparr>\<rparr>"

definition new_story_with_parent ::
  "instant \<Rightarrow> instant \<Rightarrow> string \<Rightarrow> string \<Rightarrow> element_id \<Rightarrow> kanban_element"
where
  "new_story_with_parent t t' title content parent =
     ElStory \<lparr>story_base = (base_new t t' title)\<lparr>be_content := content, be_parent := Some parent\<rparr>\<rparr>"

definition new_task :: "instant \<Rightarrow> instant \<Rightarrow> string \<Rightarrow> kanban_element" where
  "new_task t t' title = ElTask \<lparr>task_base = base_new t t' title\<rparr>"

definition new_task_with_parent :: "instant \<Rightarrow> instant \<Rightarrow> string \<Rightarrow> element_id \<Rightarrow> kanban_element" where
  "new_task_with_parent t t' title parent =
     ElTask \<lparr>task_base = (base_new t t' title)\<lparr>be_parent := Some parent\<rparr>\<rparr>"

definition new_idea :: "instant \<Rightarrow> instant \<Rightarrow> string \<Rightarrow> kanban_element" where
  "new_idea t t' title = ElIdea \<lparr>idea_base = base_new t t' title\<rparr>"

definition new_issue :: "instant \<Rightarrow> instant \<Rightarrow> string \<Rightarrow> kanban_element" where
  "new_issue t t' title = ElIssue \<lparr>issue_base = (base_new t t' title)\<lparr>be_priority := PriHigh\<rparr>\<rparr>"

definition new_tips :: "instant \<Rightarrow> instant \<Rightarrow> string \<Rightarrow> element_id \<Rightarrow> string \<Rightarrow> kanban_element" where
  "new_tips t t' title target agent =
     ElTips \<lparr>tips_base = base_new t t' title, tips_target_task = target, tips_agent_id = agent\<rparr>"

lemmas new_element_defs = new_sprint_def new_sprint_with_dates_def new_story_def
  new_story_with_parent_def new_task_def new_task_with_parent_def new_idea_def new_issue_def
  new_tips_def

text \<open>\<open>base\<close> and \<open>base_mut\<close>; every accessor of the enum matches on the kind and reads its base.\<close>

fun elem_base :: "kanban_element \<Rightarrow> base_element" where
  "elem_base (ElSprint s) = sprint_base s"
| "elem_base (ElStory s) = story_base s"
| "elem_base (ElTask t) = task_base t"
| "elem_base (ElIdea i) = idea_base i"
| "elem_base (ElIssue i) = issue_base i"
| "elem_base (ElTips t) = tips_base t"

fun set_base :: "base_element \<Rightarrow> kanban_element \<Rightarrow> kanban_element" where
  "set_base b (ElSprint s) = ElSprint (s\<lparr>sprint_base := b\<rparr>)"
| "set_base b (ElStory s) = ElStory (s\<lparr>story_base := b\<rparr>)"
| "set_base b (ElTask t) = ElTask (t\<lparr>task_base := b\<rparr>)"
| "set_base b (ElIdea i) = ElIdea (i\<lparr>idea_base := b\<rparr>)"
| "set_base b (ElIssue i) = ElIssue (i\<lparr>issue_base := b\<rparr>)"
| "set_base b (ElTips t) = ElTips (t\<lparr>tips_base := b\<rparr>)"

fun elem_type :: "kanban_element \<Rightarrow> element_type" where
  "elem_type (ElSprint _) = TySprint"
| "elem_type (ElStory _) = TyStory"
| "elem_type (ElTask _) = TyTask"
| "elem_type (ElIdea _) = TyIdea"
| "elem_type (ElIssue _) = TyIssue"
| "elem_type (ElTips _) = TyTips"

definition elem_id :: "kanban_element \<Rightarrow> element_id option" where
  "elem_id e = be_id (elem_base e)"
definition elem_status :: "kanban_element \<Rightarrow> status" where
  "elem_status e = be_status (elem_base e)"
definition elem_assignee :: "kanban_element \<Rightarrow> string option" where
  "elem_assignee e = be_assignee (elem_base e)"
definition elem_dependencies :: "kanban_element \<Rightarrow> element_id list" where
  "elem_dependencies e = be_dependencies (elem_base e)"
definition elem_references :: "kanban_element \<Rightarrow> element_id list" where
  "elem_references e = be_references (elem_base e)"
definition elem_parent :: "kanban_element \<Rightarrow> element_id option" where
  "elem_parent e = be_parent (elem_base e)"
definition elem_title :: "kanban_element \<Rightarrow> string" where
  "elem_title e = be_title (elem_base e)"
definition elem_content :: "kanban_element \<Rightarrow> string" where
  "elem_content e = be_content (elem_base e)"
definition elem_priority :: "kanban_element \<Rightarrow> priority" where
  "elem_priority e = be_priority (elem_base e)"
definition elem_effort :: "kanban_element \<Rightarrow> u32 option" where
  "elem_effort e = be_effort (elem_base e)"
definition elem_blocked_reason :: "kanban_element \<Rightarrow> string option" where
  "elem_blocked_reason e = be_blocked_reason (elem_base e)"
definition elem_keywords :: "kanban_element \<Rightarrow> string list" where
  "elem_keywords e = be_keywords (elem_base e)"
definition elem_created_at :: "kanban_element \<Rightarrow> instant" where
  "elem_created_at e = be_created_at (elem_base e)"
definition elem_updated_at :: "kanban_element \<Rightarrow> instant" where
  "elem_updated_at e = be_updated_at (elem_base e)"
definition elem_status_history :: "kanban_element \<Rightarrow> status_history_entry list" where
  "elem_status_history e = be_status_history (elem_base e)"

lemmas elem_accessors = elem_id_def elem_status_def elem_assignee_def elem_dependencies_def
  elem_references_def elem_parent_def elem_title_def elem_content_def elem_priority_def
  elem_effort_def elem_blocked_reason_def elem_keywords_def elem_created_at_def
  elem_updated_at_def elem_status_history_def

subsection \<open>Operations on an element\<close>

definition elem_update :: "(base_element \<Rightarrow> base_element) \<Rightarrow> kanban_element \<Rightarrow> kanban_element" where
  "elem_update f e = set_base (f (elem_base e)) e"

definition elem_set_id :: "element_id \<Rightarrow> kanban_element \<Rightarrow> kanban_element" where
  "elem_set_id i = elem_update (\<lambda>b. b\<lparr>be_id := Some i\<rparr>)"

definition elem_set_status :: "status \<Rightarrow> kanban_element \<Rightarrow> kanban_element" where
  "elem_set_status s = elem_update (\<lambda>b. b\<lparr>be_status := s\<rparr>)"

definition elem_set_created_at :: "instant \<Rightarrow> kanban_element \<Rightarrow> kanban_element" where
  "elem_set_created_at t = elem_update (\<lambda>b. b\<lparr>be_created_at := t\<rparr>)"

definition elem_set_updated_at :: "instant \<Rightarrow> kanban_element \<Rightarrow> kanban_element" where
  "elem_set_updated_at t = elem_update (\<lambda>b. b\<lparr>be_updated_at := t\<rparr>)"

definition elem_can_transition :: "kanban_element \<Rightarrow> status \<Rightarrow> bool" where
  "elem_can_transition e s = status_can_transition (elem_status e) s"

definition elem_transition ::
  "instant \<Rightarrow> instant \<Rightarrow> status \<Rightarrow> kanban_element \<Rightarrow> (transition_error + unit) \<times> kanban_element"
where
  "elem_transition t t' s e =
     (let (r, b) = base_transition t t' s (elem_base e) in (r, set_base b e))"

definition add_tag :: "string \<Rightarrow> kanban_element \<Rightarrow> kanban_element" where
  "add_tag tag e =
     (if tag \<in> set (be_tags (elem_base e)) then e
      else elem_update (\<lambda>b. b\<lparr>be_tags := be_tags b @ [tag]\<rparr>) e)"

definition remove_tag :: "string \<Rightarrow> kanban_element \<Rightarrow> kanban_element" where
  "remove_tag tag = elem_update (\<lambda>b. b\<lparr>be_tags := filter (\<lambda>t. t \<noteq> tag) (be_tags b)\<rparr>)"

definition add_reference :: "element_id \<Rightarrow> kanban_element \<Rightarrow> kanban_element" where
  "add_reference i e =
     (if i \<in> set (be_references (elem_base e)) then e
      else elem_update (\<lambda>b. b\<lparr>be_references := be_references b @ [i]\<rparr>) e)"

definition remove_reference :: "element_id \<Rightarrow> kanban_element \<Rightarrow> kanban_element" where
  "remove_reference i =
     elem_update (\<lambda>b. b\<lparr>be_references := filter (\<lambda>r. r \<noteq> i) (be_references b)\<rparr>)"

definition set_effort :: "u32 \<Rightarrow> kanban_element \<Rightarrow> kanban_element" where
  "set_effort n = elem_update (\<lambda>b. b\<lparr>be_effort := Some n\<rparr>)"

definition clear_effort :: "kanban_element \<Rightarrow> kanban_element" where
  "clear_effort = elem_update (\<lambda>b. b\<lparr>be_effort := None\<rparr>)"

text \<open>\<open>block\<close> stores the reason first; a refused transition leaves it in place.\<close>

definition elem_block ::
  "instant \<Rightarrow> instant \<Rightarrow> string \<Rightarrow> kanban_element \<Rightarrow> (transition_error + unit) \<times> kanban_element"
where
  "elem_block t t' reason e =
     elem_transition t t' StBlocked (elem_update (\<lambda>b. b\<lparr>be_blocked_reason := Some reason\<rparr>) e)"

definition elem_unblock ::
  "instant \<Rightarrow> instant \<Rightarrow> kanban_element \<Rightarrow> (transition_error + unit) \<times> kanban_element"
where
  "elem_unblock t t' e =
     (if elem_status e \<noteq> StBlocked
      then (Inl \<lparr>te_from = elem_status e, te_to = StBacklog\<rparr>, e)
      else elem_transition t t' StBacklog (elem_update (\<lambda>b. b\<lparr>be_blocked_reason := None\<rparr>) e))"

subsection \<open>Bases and accessors\<close>

lemma elem_base_set_base [simp]: "elem_base (set_base b e) = b"
  by (cases e) simp_all

lemma elem_type_set_base [simp]: "elem_type (set_base b e) = elem_type e"
  by (cases e) simp_all

lemma set_base_set_base [simp]: "set_base b (set_base b' e) = set_base b e"
  by (cases e) simp_all

lemma set_base_id [simp]: "set_base (elem_base e) e = e"
  by (cases e) simp_all

lemma elem_base_update [simp]: "elem_base (elem_update f e) = f (elem_base e)"
  by (simp add: elem_update_def)

lemma elem_type_update [simp]: "elem_type (elem_update f e) = elem_type e"
  by (simp add: elem_update_def)

lemma elem_type_transition [simp]: "elem_type (snd (elem_transition t t' s e)) = elem_type e"
  by (simp add: elem_transition_def split: prod.split)

lemma elem_base_transition:
  "elem_base (snd (elem_transition t t' s e)) = snd (base_transition t t' s (elem_base e))"
  by (simp add: elem_transition_def split: prod.split)

lemma fst_elem_transition:
  "fst (elem_transition t t' s e) = fst (base_transition t t' s (elem_base e))"
  by (simp add: elem_transition_def split: prod.split)

lemma base_transition_ok:
  "status_can_transition (be_status b) s \<Longrightarrow>
   base_transition t t' s b =
     (Inr (), b\<lparr>be_status := s, be_updated_at := t,
        be_status_history := be_status_history b @ [\<lparr>she_status = s, she_entered_at = t'\<rparr>]\<rparr>)"
  by (simp add: base_transition_def)

lemma base_transition_refused:
  "\<not> status_can_transition (be_status b) s \<Longrightarrow>
   base_transition t t' s b = (Inl \<lparr>te_from = be_status b, te_to = s\<rparr>, b)"
  by (simp add: base_transition_def)

lemma elem_transition_refused:
  "\<not> elem_can_transition e s \<Longrightarrow>
   elem_transition t t' s e = (Inl \<lparr>te_from = elem_status e, te_to = s\<rparr>, e)"
  by (simp add: elem_transition_def elem_can_transition_def elem_status_def base_transition_refused)

lemma elem_transition_Inr_iff:
  "fst (elem_transition t t' s e) = Inr () \<longleftrightarrow> elem_can_transition e s"
  by (simp add: fst_elem_transition elem_can_transition_def elem_status_def base_transition_def)

lemma elem_transition_frame [simp]:
  "elem_id (snd (elem_transition t t' s e)) = elem_id e"
  "elem_dependencies (snd (elem_transition t t' s e)) = elem_dependencies e"
  "elem_parent (snd (elem_transition t t' s e)) = elem_parent e"
  "elem_references (snd (elem_transition t t' s e)) = elem_references e"
  "elem_title (snd (elem_transition t t' s e)) = elem_title e"
  by (simp_all add: elem_accessors elem_base_transition base_transition_def)

lemma elem_transition_status:
  "elem_can_transition e s \<Longrightarrow> elem_status (snd (elem_transition t t' s e)) = s"
  by (simp add: elem_can_transition_def elem_status_def elem_base_transition base_transition_ok)

text \<open>An element is an object with a guarded transition table.\<close>

interpretation kanban_elem: guarded_object elem_status status_can_transition
  "\<lambda>e s. elem_transition t t' s e" for t t'
proof (unfold_locales, goal_cases)
  case (1 e s e')
  then show ?case using elem_transition_status [of e s t t'] by (simp add: elem_can_transition_def)
next
  case (2 e s)
  show ?case
    by (simp add: fst_elem_transition elem_status_def base_transition_def)
next
  case (3 e s)
  then show ?case by (simp add: elem_transition_refused elem_can_transition_def)
qed

subsection \<open>Names of statuses and types\<close>

lemma status_as_str_inj [simp]: "status_as_str s = status_as_str t \<longleftrightarrow> s = t"
  by (cases s; cases t) simp_all

lemma status_of_to_type [simp]: "status_of_type (to_status_type s) = Inr s"
  by (cases s) (simp_all add: status_of_type_def to_status_type_def)

lemma status_of_type_name: "status_of_type st = Inr s \<Longrightarrow> status_type_name st = status_as_str s"
  by (auto simp: status_of_type_def Let_def split: if_splits)

lemma status_of_type_Inr_iff: "status_of_type st = Inr s \<longleftrightarrow> st = to_status_type s"
  by (metis status_of_to_type status_of_type_name status_type.collapse to_status_type_def)

lemma to_status_type_inj [simp]: "to_status_type s = to_status_type t \<longleftrightarrow> s = t"
  by (simp add: to_status_type_def)

lemma element_type_as_str_inj [simp]: "element_type_as_str ty = element_type_as_str ty' \<longleftrightarrow> ty = ty'"
  by (cases ty; cases ty') simp_all

lemma element_type_from_as_str [simp]: "element_type_from_str (element_type_as_str ty) = Some ty"
  by (cases ty) (simp_all add: element_type_from_str_def to_lowercase_def ascii_lower_def char_code_def)

lemma priority_from_as_str [simp]: "priority_from_str (priority_as_str p) = Some p"
  by (cases p) (simp_all add: priority_from_str_def to_lowercase_def ascii_lower_def char_code_def)

lemma element_type_no_dash [simp]: "CHR ''-'' \<notin> set (element_type_as_str ty)"
  by (cases ty) simp_all

subsection \<open>Printing and parsing ids\<close>

lemma u32_bound: "unat (n :: u32) < 2 ^ 32"
  using unsigned_less [where w = n] by simp

lemma digits_value_zeros: "digits_value 0 (replicate k (CHR ''0'') @ s) = digits_value 0 s"
  by (induction k) (simp_all add: is_ascii_digit_def char_code_def)

lemma pad3_nonempty [simp]: "pad3 n \<noteq> []"
  by (simp add: pad3_def Let_def)

lemma pad3_digits: "c \<in> set (pad3 n) \<Longrightarrow> is_ascii_digit c"
  by (auto simp: pad3_def Let_def nat_to_string_digits is_ascii_digit_def char_code_def
      split: if_splits dest: nat_to_string_digits)

lemma pad3_length: "3 \<le> length (pad3 n)"
  by (simp add: pad3_def Let_def)

lemma parse_nat_pad3 [simp]: "parse_nat (pad3 n) = Some n"
  by (simp add: parse_nat_def digits_value_zeros digits_value_nat_to_string pad3_def Let_def)

lemma parse_unsigned_pad3 [simp]: "parse_unsigned k (pad3 n) = (if n < 2 ^ k then Some n else None)"
proof -
  obtain c cs where p: "pad3 n = c # cs" by (cases "pad3 n") auto
  with pad3_digits [of c n] have "c \<noteq> CHR ''+''" by (auto simp: is_ascii_digit_def char_code_def)
  then have "(case pad3 n of c # t \<Rightarrow> if c = CHR ''+'' then t else pad3 n | [] \<Rightarrow> pad3 n) = pad3 n"
    by (simp add: p)
  then show ?thesis by (simp add: parse_unsigned_def)
qed

lemma pad3_no_dash: "CHR ''-'' \<notin> set (pad3 n)"
  using pad3_digits by (fastforce simp: is_ascii_digit_def char_code_def)

lemma split_id:
  assumes "CHR ''-'' \<notin> set ty"
  shows "split_on (CHR ''-'') (eid_str (id_format ty n)) = [ty, pad3 n]"
  using assms by (simp add: id_format_def split_on_append split_on_no_sep pad3_no_dash)

lemma parse_id_format:
  assumes "CHR ''-'' \<notin> set ty" "element_type_from_str ty \<noteq> None" "n < 2 ^ 32"
  shows "element_id_parse (eid_str (id_format ty n)) = Inr (id_format ty n)"
  using assms by (auto simp: element_id_parse_def split_id)

lemma parse_element_id_new [simp]:
  "element_id_parse (eid_str (element_id_new ty n)) = Inr (element_id_new ty n)"
  using u32_bound [of n] by (simp add: element_id_new_def parse_id_format)

lemma element_id_new_inj [simp]: "element_id_new ty n = element_id_new ty' n' \<longleftrightarrow> ty = ty' \<and> n = n'"
proof
  assume "element_id_new ty n = element_id_new ty' n'"
  then have "split_on (CHR ''-'') (eid_str (element_id_new ty n)) =
             split_on (CHR ''-'') (eid_str (element_id_new ty' n'))" by simp
  then have a: "element_type_as_str ty = element_type_as_str ty'" "pad3 (unat n) = pad3 (unat n')"
    by (simp_all add: element_id_new_def split_id)
  have "unat n = unat n'" using arg_cong [OF a(2), of parse_nat] by simp
  with a show "ty = ty' \<and> n = n'" by (simp add: word_unat_eq_iff)
qed simp

lemma split_on_parts: "p \<in> set (split_on c s) \<Longrightarrow> c \<notin> set p"
proof (induction s arbitrary: p)
  case (Cons d s)
  then show ?case by (cases "split_on c s") (auto split: if_splits)
qed simp

text \<open>What the parser returns is one of the strings it accepts unchanged.\<close>

lemma parse_id_shape:
  assumes "element_id_parse s = Inr i"
  obtains ty n where "split_on (CHR ''-'') s = [ty, n]" "CHR ''-'' \<notin> set ty"
    "element_type_from_str ty \<noteq> None"
    "\<exists>m. parse_unsigned 32 n = Some m \<and> m < 2 ^ 32 \<and> i = id_format ty m"
proof -
  from assms obtain ty n where sp: "split_on (CHR ''-'') s = [ty, n]"
    by (auto simp: element_id_parse_def split: list.splits)
  with assms obtain t m where ty: "element_type_from_str ty = Some t"
    and n: "parse_unsigned 32 n = Some m" and i: "i = id_format ty m"
    by (auto simp: element_id_parse_def split: option.splits)
  have "m < 2 ^ 32" using n by (auto simp: parse_unsigned_def split: option.splits if_splits)
  moreover have "CHR ''-'' \<notin> set ty" using split_on_parts [of ty "CHR ''-''" s] sp by simp
  ultimately show thesis using that sp ty n i by auto
qed

definition canonical_id :: "element_id \<Rightarrow> bool" where
  "canonical_id i \<longleftrightarrow> element_id_parse (eid_str i) = Inr i"

lemma parse_canonical: "element_id_parse s = Inr i \<Longrightarrow> canonical_id i"
  by (erule parse_id_shape) (auto simp: canonical_id_def parse_id_format)

lemma canonical_new [simp]: "canonical_id (element_id_new ty n)"
  by (simp add: canonical_id_def)

lemma number_of_new [simp]: "element_id_number (element_id_new ty n) = Some n"
  using u32_bound [of n] by (simp add: element_id_number_def element_id_new_def split_id)

lemma type_of_new [simp]: "element_id_type (element_id_new ty n) = ty"
  by (simp add: element_id_type_def element_id_new_def split_id)

lemma canonical_number: "canonical_id i \<Longrightarrow> element_id_number i \<noteq> None"
  unfolding canonical_id_def by (erule parse_id_shape) (simp add: element_id_number_def)

subsection \<open>The status history\<close>

definition history_statuses :: "base_element \<Rightarrow> status list" where
  "history_statuses b = map she_status (be_status_history b)"

definition history_ok :: "base_element \<Rightarrow> bool" where
  "history_ok b \<longleftrightarrow>
     history_statuses b \<noteq> [] \<and> hd (history_statuses b) = StPlan \<and>
     last (history_statuses b) = be_status b \<and>
     successively status_can_transition (history_statuses b)"

lemma history_ok_new: "history_ok (base_new t t' title)"
  by (simp add: history_ok_def history_statuses_def base_new_def)

lemma history_ok_frame:
  "be_status b' = be_status b \<Longrightarrow> be_status_history b' = be_status_history b \<Longrightarrow>
   history_ok b' \<longleftrightarrow> history_ok b"
  by (simp add: history_ok_def history_statuses_def)

lemma history_ok_transition: "history_ok b \<Longrightarrow> history_ok (snd (base_transition t t' s b))"
  by (auto simp: history_ok_def history_statuses_def base_transition_def successively_append_iff)

lemma history_ok_elem_transition [preserves]:
  "history_ok (elem_base e) \<Longrightarrow> history_ok (elem_base (snd (elem_transition t t' s e)))"
  by (simp add: elem_base_transition history_ok_transition)

lemma history_ok_elem_update [preserves]:
  "history_ok (elem_base e) \<Longrightarrow>
   (\<And>b. be_status (f b) = be_status b) \<Longrightarrow> (\<And>b. be_status_history (f b) = be_status_history b) \<Longrightarrow>
   history_ok (elem_base (elem_update f e))"
  by (simp add: history_ok_frame [of "f (elem_base e)" "elem_base e"])

lemma history_ok_block: "history_ok (elem_base e) \<Longrightarrow> history_ok (elem_base (snd (elem_block t t' r e)))"
  unfolding elem_block_def by (intro history_ok_elem_transition history_ok_elem_update) simp_all

lemma history_ok_unblock: "history_ok (elem_base e) \<Longrightarrow> history_ok (elem_base (snd (elem_unblock t t' e)))"
  unfolding elem_unblock_def
  by (auto intro!: history_ok_elem_transition history_ok_elem_update)

lemma history_ok_new_element:
  "e \<in> {new_sprint t t' a c, new_sprint_with_dates t t' a c d f, new_story t t' a c,
        new_story_with_parent t t' a c p, new_task t t' a, new_task_with_parent t t' a p,
        new_idea t t' a, new_issue t t' a, new_tips t t' a p c} \<Longrightarrow>
   history_ok (elem_base e) \<and> elem_dependencies e = [] \<and> elem_id e = None"
  by (auto simp: new_element_defs elem_accessors base_new_def history_ok_def history_statuses_def)

lemma transition_into:
  "status_can_transition s StVerified \<longleftrightarrow> s = StDone"
  "status_can_transition s StDone \<longleftrightarrow> s = StInProgress"
  "status_can_transition s StInProgress \<longleftrightarrow> s = StTodo"
  by (cases s; simp add: status_can_transition_def)+

text \<open>The last step of a legal path that does not start at its end.\<close>

lemma path_step_back:
  assumes "successively P (pre @ y # post)" and "hd (pre @ y # post) \<noteq> y"
  obtains ys x where "pre = ys @ [x]" "P x y"
  using assms by (cases pre rule: rev_cases) (auto simp: successively_append_iff)

lemma verified_path:
  assumes path: "successively status_can_transition h" and "h \<noteq> []" "hd h = StPlan" "last h = StVerified"
  shows "\<exists>pre. h = pre @ [StTodo, StInProgress, StDone, StVerified]"
proof -
  obtain a where h1: "h = a @ [StVerified]"
    using assms by (metis append_butlast_last_id)
  from path_step_back [of status_can_transition a StVerified "[]"] path assms(3)
  obtain b where h2: "h = b @ [StDone, StVerified]" by (auto simp: h1 transition_into)
  from path_step_back [of status_can_transition b StDone "[StVerified]"] path assms(3)
  obtain c where h3: "h = c @ [StInProgress, StDone, StVerified]" by (auto simp: h2 transition_into)
  from path_step_back [of status_can_transition c StInProgress "[StDone, StVerified]"] path assms(3)
  show ?thesis by (auto simp: h3 transition_into)
qed

lemma verified_history:
  "history_ok b \<Longrightarrow> be_status b = StVerified \<Longrightarrow>
   \<exists>pre. history_statuses b = pre @ [StTodo, StInProgress, StDone, StVerified]"
  unfolding history_ok_def by (rule verified_path) simp_all

subsection \<open>Properties\<close>

text \<open>
  C25: element ids print and parse back, with their type and number, and whatever the parser
  accepts it returns in a form that it accepts unchanged.
\<close>

theorem element_id_roundtrip:
  "element_id_parse (eid_str (element_id_new ty n)) = Inr (element_id_new ty n) \<and>
   element_id_type (element_id_new ty n) = ty \<and> element_id_number (element_id_new ty n) = Some n \<and>
   (element_id_parse s = Inr i \<longrightarrow> element_id_parse (eid_str i) = Inr i \<and> element_id_number i \<noteq> None)"
  using parse_canonical [of s i] canonical_number [of i] by (auto simp: canonical_id_def)

theorem element_id_roundtrip_witness:
  "element_id_parse ''Task-+7'' = Inr (ElementId ''Task-007'') \<and>
   element_id_parse (eid_str (ElementId ''Task-007'')) = Inr (ElementId ''Task-007'')"
proof -
  have ty: "element_type_from_str ''Task'' = Some TyTask" by code_simp
  have p: "pad3 7 = ''007''" by code_simp
  have n: "parse_unsigned 32 ''+7'' = Some 7"
    by (simp add: parse_unsigned_def parse_nat_def is_ascii_digit_def char_code_def)
  have "element_id_parse ''Task-+7'' = Inr (ElementId ''Task-007'')"
    by (simp add: element_id_parse_def ty n id_format_def p)
  with element_id_roundtrip [of TyTask 1 "''Task-+7''" "ElementId ''Task-007''"] show ?thesis by simp
qed

text \<open>
  blocking succeeds from Backlog only, but the reason is stored either way: a refused
  \<open>block\<close> leaves an element that is not blocked with a reason for being blocked.
\<close>

theorem block_stores_reason_first:
  "(fst (elem_block t t' reason e) = Inr () \<longleftrightarrow> elem_status e = StBacklog) \<and>
   elem_blocked_reason (snd (elem_block t t' reason e)) = Some reason \<and>
   elem_status (snd (elem_block t t' reason e)) =
     (if elem_status e = StBacklog then StBlocked else elem_status e)"
proof -
  have can: "status_can_transition s StBlocked \<longleftrightarrow> s = StBacklog" for s
    by (cases s) (simp_all add: status_can_transition_def)
  show ?thesis
    by (simp add: elem_block_def fst_elem_transition elem_base_transition base_transition_def
        elem_status_def elem_blocked_reason_def can)
qed

end
