(* ===== verification/Kanban_Transition.thy ===== *)
theory Kanban_Transition
  imports Kanban_Domain
begin

text \<open>
  The registry of transition rules of \<open>kanban/src/transition.rs\<close>. A rule names two status types
  and may look at the element (\<open>is_valid_for\<close>); elements are any type that implements
  \<open>KanbanElementTrait\<close>, here a type parameter. The registry is a vector in registration order.
\<close>

record 'e transition_rule =
  tr_from :: status_type
  tr_to :: status_type
  tr_is_valid_for :: "'e \<Rightarrow> bool"

type_synonym 'e transition_registry = "'e transition_rule list"

definition builtin_rule :: "status_type \<Rightarrow> status_type \<Rightarrow> 'e transition_rule" where
  "builtin_rule s t = \<lparr>tr_from = s, tr_to = t, tr_is_valid_for = (\<lambda>_. True)\<rparr>"

definition registry_new :: "'e transition_registry" where
  "registry_new = []"

definition register_rule :: "'e transition_rule \<Rightarrow> 'e transition_registry \<Rightarrow> 'e transition_registry" where
  "register_rule r reg = reg @ [r]"

definition builtin_rule_names :: "(string \<times> string) list" where
  "builtin_rule_names =
     [(''plan'', ''backlog''),
      (''backlog'', ''blocked''), (''backlog'', ''ready''), (''backlog'', ''todo''), (''backlog'', ''plan''),
      (''blocked'', ''backlog''),
      (''ready'', ''todo''), (''ready'', ''backlog''),
      (''todo'', ''in_progress''), (''todo'', ''ready''),
      (''in_progress'', ''done''), (''in_progress'', ''todo''),
      (''done'', ''verified''), (''done'', ''todo'')]"

definition register_builtin_rules :: "'e transition_registry \<Rightarrow> 'e transition_registry" where
  "register_builtin_rules reg =
     fold (\<lambda>(s, t). register_rule (builtin_rule (StatusType s) (StatusType t))) builtin_rule_names reg"

definition registry_can_transition ::
  "'e transition_registry \<Rightarrow> status_type \<Rightarrow> status_type \<Rightarrow> bool" where
  "registry_can_transition reg s t \<longleftrightarrow>
     (\<exists>r \<in> set reg. status_type_name (tr_from r) = status_type_name s \<and>
                    status_type_name (tr_to r) = status_type_name t)"

definition registry_can_transition_for ::
  "'e transition_registry \<Rightarrow> status_type \<Rightarrow> status_type \<Rightarrow> 'e \<Rightarrow> bool" where
  "registry_can_transition_for reg s t e \<longleftrightarrow>
     (\<exists>r \<in> set reg. status_type_name (tr_from r) = status_type_name s \<and>
                    status_type_name (tr_to r) = status_type_name t \<and> tr_is_valid_for r e)"

definition registry_valid_transitions :: "'e transition_registry \<Rightarrow> status_type \<Rightarrow> status_type list" where
  "registry_valid_transitions reg s =
     map tr_to (filter (\<lambda>r. status_type_name (tr_from r) = status_type_name s) reg)"

definition registry_valid_transitions_for ::
  "'e transition_registry \<Rightarrow> status_type \<Rightarrow> 'e \<Rightarrow> status_type list" where
  "registry_valid_transitions_for reg s e =
     map tr_to (filter (\<lambda>r. status_type_name (tr_from r) = status_type_name s \<and> tr_is_valid_for r e) reg)"

subsection \<open>The builtin rules and the enum\<close>

lemma builtin_registry_eq:
  "register_builtin_rules [] =
     map (\<lambda>(s, t). builtin_rule (StatusType s) (StatusType t)) builtin_rule_names"
  by (simp add: register_builtin_rules_def register_rule_def builtin_rule_names_def)

lemma builtin_valid_transitions:
  "registry_valid_transitions (register_builtin_rules registry_new) (to_status_type s) =
     map to_status_type (valid_transitions s)"
  by (cases s) (simp_all add: registry_valid_transitions_def registry_new_def builtin_registry_eq
      builtin_rule_names_def builtin_rule_def to_status_type_def)

lemma registry_can_transition_iff:
  "registry_can_transition reg s t \<longleftrightarrow> t \<in> set (registry_valid_transitions reg s)"
  by (auto simp: registry_can_transition_def registry_valid_transitions_def image_iff
      status_type.expand)

lemma builtin_can_transition:
  "registry_can_transition (register_builtin_rules registry_new) (to_status_type s) (to_status_type t)
     \<longleftrightarrow> status_can_transition s t"
  by (simp add: registry_can_transition_iff builtin_valid_transitions status_can_transition_def
      image_iff)

lemma builtin_statuses_only:
  "registry_can_transition (register_builtin_rules registry_new) s t \<Longrightarrow>
   \<exists>s' t'. s = to_status_type s' \<and> t = to_status_type t' \<and> status_can_transition s' t'"
proof -
  assume can: "registry_can_transition (register_builtin_rules registry_new) s t"
  then have "status_type_name s \<in> fst ` set builtin_rule_names"
    by (auto simp: registry_can_transition_def registry_new_def builtin_registry_eq builtin_rule_def
        rev_image_eqI)
  then obtain s' where "status_type_name s = status_as_str s'"
    unfolding builtin_rule_names_def using status_as_str.simps by (simp, metis)
  then have s: "s = to_status_type s'" by (simp add: to_status_type_def status_type.expand)
  from can have "t \<in> set (map to_status_type (valid_transitions s'))"
    by (simp only: registry_can_transition_iff s builtin_valid_transitions)
  then show ?thesis by (auto simp: s status_can_transition_def)
qed

text \<open>A later rule only adds transitions.\<close>

lemma register_rule_mono:
  "registry_can_transition reg s t \<Longrightarrow> registry_can_transition (register_rule r reg) s t"
  by (auto simp: registry_can_transition_def register_rule_def)

lemma can_transition_for_weaker:
  "registry_can_transition_for reg s t e \<Longrightarrow> registry_can_transition reg s t"
  by (auto simp: registry_can_transition_def registry_can_transition_for_def)

end
