(* ===== verification/Kanban_Repository.thy ===== *)
theory Kanban_Repository
  imports Kanban_Domain "HOL-Library.List_Lexorder"
begin

text \<open>
  The repository interface of \<open>kanban/src/repository.rs\<close> and its file implementation of
  \<open>file_repository.rs\<close>. The trait is a record of operations over a state, with the default
  methods as definitions on it; \<open>element_repository\<close> collects what a client may rely on.

  The file implementation keeps one JSON file per element, an index file with the ids, and a
  counter per element type. The directory is a map from file stems to contents. \<open>serde_json\<close>
  and the answers of the file system are parameters: \<open>json_codec\<close> holds the printing and
  parsing functions, and \<open>fs_fault\<close> tells which calls the operating system refuses and with
  which message. Contents are any type.
\<close>

subsection \<open>The interface\<close>

record 's repository =
  r_get :: "'s \<Rightarrow> element_id \<Rightarrow> kanban_error + kanban_element option"
  r_list :: "'s \<Rightarrow> kanban_error + kanban_element list"
  r_list_by_type :: "'s \<Rightarrow> element_type \<Rightarrow> kanban_error + kanban_element list"
  r_list_by_status :: "'s \<Rightarrow> status \<Rightarrow> kanban_error + kanban_element list"
  r_list_by_assignee :: "'s \<Rightarrow> string \<Rightarrow> kanban_error + kanban_element list"
  r_list_by_parent :: "'s \<Rightarrow> element_id \<Rightarrow> kanban_error + kanban_element list"
  r_list_by_sprint :: "'s \<Rightarrow> element_id \<Rightarrow> kanban_error + kanban_element list"
  r_list_blocked :: "'s \<Rightarrow> kanban_error + kanban_element list"
  r_save :: "kanban_element \<Rightarrow> 's \<Rightarrow> (kanban_error + unit) \<times> 's"
  r_delete :: "element_id \<Rightarrow> 's \<Rightarrow> (kanban_error + unit) \<times> 's"
  r_new_id :: "element_type \<Rightarrow> 's \<Rightarrow> (kanban_error + element_id) \<times> 's"

text \<open>The default methods on identifiers convert first.\<close>

definition list_by_type_identifier ::
  "'s repository \<Rightarrow> 's \<Rightarrow> element_type_identifier \<Rightarrow> kanban_error + kanban_element list" where
  "list_by_type_identifier R s ti =
     result_bind (map_err (\<lambda>_. ConversionError (''unknown element type: '' @ element_type_name ti))
                    (element_type_of_identifier ti))
       (r_list_by_type R s)"

definition list_by_status_type ::
  "'s repository \<Rightarrow> 's \<Rightarrow> status_type \<Rightarrow> kanban_error + kanban_element list" where
  "list_by_status_type R s st =
     result_bind (map_err (\<lambda>_. ConversionError (''unknown status type: '' @ status_type_name st))
                    (status_of_type st))
       (r_list_by_status R s)"

definition new_id_for_type ::
  "'s repository \<Rightarrow> element_type_identifier \<Rightarrow> 's \<Rightarrow> (kanban_error + element_id) \<times> 's" where
  "new_id_for_type R ti s =
     (case element_type_of_identifier ti of
        Inl _ \<Rightarrow> (Inl (ConversionError (''unknown element type: '' @ element_type_name ti)), s)
      | Inr ty \<Rightarrow> r_new_id R ty s)"

subsection \<open>Files\<close>

record 'c file_store =
  fs_elements :: "'c hashmap"
  fs_index :: "'c option"
  fs_counters :: "(element_type \<times> u32) list"

record 'c json_codec =
  enc_element :: "kanban_element \<Rightarrow> string + 'c"
  dec_element :: "'c \<Rightarrow> string + kanban_element"
  enc_index :: "string list \<Rightarrow> string + 'c"
  dec_index :: "'c \<Rightarrow> string + string list"

datatype fs_call =
  ReadElement string | WriteElement string | RemoveElement string | ReadIndex | WriteIndex

record 'c file_env =
  env_codec :: "'c json_codec"
  fs_fault :: "fs_call \<Rightarrow> string option"

definition fs_try :: "'c file_env \<Rightarrow> fs_call \<Rightarrow> string \<Rightarrow> kanban_error + unit" where
  "fs_try J call context =
     (case fs_fault J call of Some m \<Rightarrow> Inl (RepositoryError (context @ m)) | None \<Rightarrow> Inr ())"

definition element_path :: "element_id \<Rightarrow> string" where
  "element_path i = eid_str i"

definition counter_of :: "'c file_store \<Rightarrow> element_type \<Rightarrow> u32" where
  "counter_of s ty = (case map_of (fs_counters s) ty of Some n \<Rightarrow> n | None \<Rightarrow> 0)"

text \<open>\<open>load_counters\<close>: the files in directory order; stems that are no ids are skipped.\<close>

definition load_counter :: "string \<Rightarrow> 'c file_store \<Rightarrow> 'c file_store" where
  "load_counter stem s =
     (case element_id_parse stem of
        Inl _ \<Rightarrow> s
      | Inr i \<Rightarrow>
          (case element_id_number i of
             None \<Rightarrow> s
           | Some num \<Rightarrow>
               if counter_of s (element_id_type i) < num
               then s\<lparr>fs_counters := AList.update (element_id_type i) num (fs_counters s)\<rparr>
               else s))"

definition load_counters :: "'c file_store \<Rightarrow> 'c file_store" where
  "load_counters s = fold load_counter (map fst (fs_elements s)) s"

definition file_repository_new :: "'c hashmap \<Rightarrow> 'c option \<Rightarrow> 'c file_store" where
  "file_repository_new files idx =
     load_counters \<lparr>fs_elements = files, fs_index = idx, fs_counters = []\<rparr>"

definition update_index ::
  "'c file_env \<Rightarrow> element_id list \<Rightarrow> 'c file_store \<Rightarrow> (kanban_error + unit) \<times> 'c file_store" where
  "update_index J ids s =
     (case enc_index (env_codec J) (map eid_str ids) of
        Inl m \<Rightarrow> (Inl (SerializationError m), s)
      | Inr c \<Rightarrow>
          (case fs_try J WriteIndex ''failed to write index: '' of
             Inl e \<Rightarrow> (Inl e, s)
           | Inr _ \<Rightarrow> (Inr (), s\<lparr>fs_index := Some c\<rparr>)))"

definition read_index :: "'c file_env \<Rightarrow> 'c file_store \<Rightarrow> kanban_error + element_id list" where
  "read_index J s =
     (case fs_index s of
        None \<Rightarrow> Inr []
      | Some c \<Rightarrow>
          result_bind (fs_try J ReadIndex ''failed to read index: '') (\<lambda>_.
          result_bind (map_err SerializationError (dec_index (env_codec J) c)) (\<lambda>strs.
          map_err (\<lambda>e. SerializationError (''invalid index: '' @ id_parse_error_display e))
            (collect_results element_id_parse strs))))"

definition file_get ::
  "'c file_env \<Rightarrow> 'c file_store \<Rightarrow> element_id \<Rightarrow> kanban_error + kanban_element option" where
  "file_get J s i =
     (case map_of (fs_elements s) (element_path i) of
        None \<Rightarrow> Inr None
      | Some c \<Rightarrow>
          result_bind (fs_try J (ReadElement (element_path i)) ''failed to read element: '') (\<lambda>_.
          result_map Some (map_err SerializationError (dec_element (env_codec J) c))))"

text \<open>The loop of \<open>list\<close>: an id without a file is skipped, an unreadable file ends it.\<close>

fun load_elements ::
  "'c file_env \<Rightarrow> 'c file_store \<Rightarrow> element_id list \<Rightarrow> kanban_error + kanban_element list" where
  "load_elements J s [] = Inr []"
| "load_elements J s (i # ids) =
     result_bind (file_get J s i) (\<lambda>x.
     result_map (\<lambda>es. case x of Some e \<Rightarrow> e # es | None \<Rightarrow> es) (load_elements J s ids))"

definition id_key :: "kanban_element \<Rightarrow> string" where
  "id_key e = (case elem_id e of Some i \<Rightarrow> eid_str i | None \<Rightarrow> [])"

definition file_list :: "'c file_env \<Rightarrow> 'c file_store \<Rightarrow> kanban_error + kanban_element list" where
  "file_list J s =
     result_bind (read_index J s) (\<lambda>ids.
     result_map (sort_key id_key) (load_elements J s ids))"

definition file_list_where ::
  "(kanban_element \<Rightarrow> bool) \<Rightarrow> 'c file_env \<Rightarrow> 'c file_store \<Rightarrow> kanban_error + kanban_element list" where
  "file_list_where P J s = result_map (filter P) (file_list J s)"

definition file_save ::
  "'c file_env \<Rightarrow> kanban_element \<Rightarrow> 'c file_store \<Rightarrow> (kanban_error + unit) \<times> 'c file_store" where
  "file_save J e s =
     (case elem_id e of
        None \<Rightarrow> (Inl (RepositoryError ''element has no ID''), s)
      | Some i \<Rightarrow>
          (case enc_element (env_codec J) e of
             Inl m \<Rightarrow> (Inl (SerializationError m), s)
           | Inr c \<Rightarrow>
               (case fs_try J (WriteElement (element_path i)) ''failed to write element: '' of
                  Inl err \<Rightarrow> (Inl err, s)
                | Inr _ \<Rightarrow>
                    let s' = s\<lparr>fs_elements := AList.update (element_path i) c (fs_elements s)\<rparr> in
                    (case read_index J s' of
                       Inl err \<Rightarrow> (Inl err, s')
                     | Inr ids \<Rightarrow>
                         if i \<in> set ids then (Inr (), s')
                         else update_index J (sort_key eid_str (ids @ [i])) s'))))"

definition file_delete ::
  "'c file_env \<Rightarrow> element_id \<Rightarrow> 'c file_store \<Rightarrow> (kanban_error + unit) \<times> 'c file_store" where
  "file_delete J i s =
     (let finish = (\<lambda>s'. case read_index J s' of
                      Inl err \<Rightarrow> (Inl err, s')
                    | Inr ids \<Rightarrow> update_index J (filter (\<lambda>j. j \<noteq> i) ids) s') in
      if map_of (fs_elements s) (element_path i) \<noteq> None then
        (case fs_try J (RemoveElement (element_path i)) ''failed to delete element: '' of
           Inl err \<Rightarrow> (Inl err, s)
         | Inr _ \<Rightarrow> finish (s\<lparr>fs_elements := AList.delete (element_path i) (fs_elements s)\<rparr>))
      else finish s)"

text \<open>The counter is a \<open>u32\<close>; the addition wraps, as in a release build.\<close>

definition file_new_id ::
  "element_type \<Rightarrow> 'c file_store \<Rightarrow> (kanban_error + element_id) \<times> 'c file_store" where
  "file_new_id ty s =
     (let n = counter_of s ty + 1 in
      (Inr (element_id_new ty n), s\<lparr>fs_counters := AList.update ty n (fs_counters s)\<rparr>))"

definition file_repository :: "'c file_env \<Rightarrow> 'c file_store repository" where
  "file_repository J =
     \<lparr>r_get = file_get J, r_list = file_list J,
      r_list_by_type = (\<lambda>s ty. file_list_where (\<lambda>e. elem_type e = ty) J s),
      r_list_by_status = (\<lambda>s st. file_list_where (\<lambda>e. elem_status e = st) J s),
      r_list_by_assignee = (\<lambda>s a. file_list_where (\<lambda>e. elem_assignee e = Some a) J s),
      r_list_by_parent = (\<lambda>s p. file_list_where (\<lambda>e. elem_parent e = Some p) J s),
      r_list_by_sprint = (\<lambda>s p. file_list_where (\<lambda>e. elem_parent e = Some p) J s),
      r_list_blocked = file_list_where (\<lambda>e. elem_status e = StBlocked) J,
      r_save = file_save J, r_delete = file_delete J, r_new_id = file_new_id\<rparr>"

subsection \<open>What a client may rely on\<close>

text \<open>
  An \<open>ElementId\<close> is only made by \<open>new\<close> and \<open>parse\<close>, so the ids inside an element are
  strings that the parser returns unchanged.
\<close>

fun target_ids :: "kanban_element \<Rightarrow> element_id set" where
  "target_ids (ElTips t) = {tips_target_task t}"
| "target_ids _ = {}"

definition element_ids :: "kanban_element \<Rightarrow> element_id set" where
  "element_ids e =
     set_option (elem_id e) \<union> set (elem_dependencies e) \<union> set (elem_references e)
     \<union> set_option (elem_parent e) \<union> target_ids e"

definition ids_ok :: "kanban_element \<Rightarrow> bool" where
  "ids_ok e \<longleftrightarrow> (\<forall>i \<in> element_ids e. canonical_id i)"

locale element_repository =
  fixes R :: "'s repository"
    and ok :: "'s \<Rightarrow> bool"
    and view :: "'s \<Rightarrow> element_id \<Rightarrow> kanban_element option"
    and counter :: "'s \<Rightarrow> element_type \<Rightarrow> u32"
  assumes get: "ok s \<Longrightarrow> r_get R s i = Inr (view s i)"
    and stored: "ok s \<Longrightarrow> view s i = Some e \<Longrightarrow> elem_id e = Some i \<and> ids_ok e"
    and list_all: "ok s \<Longrightarrow> \<exists>es. r_list R s = Inr es \<and> distinct es \<and> sorted (map id_key es) \<and>
                    (\<forall>e. e \<in> set es \<longleftrightarrow> (\<exists>i. view s i = Some e))"
    and list_status: "ok s \<Longrightarrow> r_list_by_status R s st =
                    result_map (filter (\<lambda>e. elem_status e = st)) (r_list R s)"
    and save: "ok s \<Longrightarrow> elem_id e = Some i \<Longrightarrow> ids_ok e \<Longrightarrow>
                 \<exists>s'. r_save R e s = (Inr (), s') \<and> ok s' \<and> view s' = (view s)(i \<mapsto> e) \<and>
                      counter s' = counter s"
    and delete: "ok s \<Longrightarrow> \<exists>s'. r_delete R i s = (Inr (), s') \<and> ok s' \<and>
                      view s' = (view s)(i := None) \<and> counter s' = counter s"
    and new_id: "ok s \<Longrightarrow> \<exists>s'. r_new_id R ty s = (Inr (element_id_new ty (counter s ty + 1)), s') \<and>
                      ok s' \<and> view s' = view s \<and> counter s' = (counter s)(ty := counter s ty + 1)"
begin

lemma get_after_save:
  assumes "ok s" "elem_id e = Some i" "ids_ok e"
  shows "r_get R (snd (r_save R e s)) j = (if j = i then Inr (Some e) else r_get R s j)"
proof -
  from save [OF assms] obtain s' where
    s': "r_save R e s = (Inr (), s')" "ok s'" "view s' = (view s)(i \<mapsto> e)" by blast
  then show ?thesis using get [OF s'(2), of j] get [OF assms(1), of j] by simp
qed

lemma get_after_delete:
  assumes "ok s"
  shows "r_get R (snd (r_delete R i s)) j = (if j = i then Inr None else r_get R s j)"
proof -
  from delete [OF assms, of i] obtain s' where
    s': "r_delete R i s = (Inr (), s')" "ok s'" "view s' = (view s)(i := None)" by blast
  then show ?thesis using get [OF s'(2), of j] get [OF assms, of j] by simp
qed

end

subsection \<open>The files keep the contract\<close>

definition codec_ok :: "'c json_codec \<Rightarrow> bool" where
  "codec_ok C \<longleftrightarrow>
     (\<forall>e. ids_ok e \<longrightarrow> (\<exists>c. enc_element C e = Inr c \<and> dec_element C c = Inr e)) \<and>
     (\<forall>xs. \<exists>c. enc_index C xs = Inr c \<and> dec_index C c = Inr xs)"

text \<open>The environment answers as documented: JSON reads back what it wrote, no call is refused.\<close>

definition env_ok :: "'c file_env \<Rightarrow> bool" where
  "env_ok J \<longleftrightarrow> codec_ok (env_codec J) \<and> (\<forall>call. fs_fault J call = None)"

definition file_view :: "'c file_env \<Rightarrow> 'c file_store \<Rightarrow> element_id \<Rightarrow> kanban_element option" where
  "file_view J s i =
     (case map_of (fs_elements s) (eid_str i) of
        None \<Rightarrow> None
      | Some c \<Rightarrow> (case dec_element (env_codec J) c of Inr e \<Rightarrow> Some e | Inl _ \<Rightarrow> None))"

text \<open>Each file holds the element it is named after, and the index lists exactly the files.\<close>

definition files_ok :: "'c file_env \<Rightarrow> 'c file_store \<Rightarrow> bool" where
  "files_ok J s \<longleftrightarrow>
     (\<forall>stem c. map_of (fs_elements s) stem = Some c \<longrightarrow>
        (\<exists>e i. dec_element (env_codec J) c = Inr e \<and> elem_id e = Some i \<and> eid_str i = stem \<and> ids_ok e))"

definition index_ok :: "'c file_env \<Rightarrow> 'c file_store \<Rightarrow> bool" where
  "index_ok J s \<longleftrightarrow>
     (\<exists>ids. read_index J s = Inr ids \<and> distinct ids \<and>
            eid_str ` set ids = dom (map_of (fs_elements s)))"

definition file_ok :: "'c file_env \<Rightarrow> 'c file_store \<Rightarrow> bool" where
  "file_ok J s \<longleftrightarrow> env_ok J \<and> files_ok J s \<and> index_ok J s"

lemma eid_str_inj: "eid_str i = eid_str j \<longleftrightarrow> i = j"
  by (metis element_id.collapse)

lemma fs_try_ok [simp]: "env_ok J \<Longrightarrow> fs_try J call m = Inr ()"
  by (simp add: env_ok_def fs_try_def)

lemma ids_ok_id: "ids_ok e \<Longrightarrow> elem_id e = Some i \<Longrightarrow> canonical_id i"
  by (simp add: ids_ok_def element_ids_def)

lemma collect_parse_canonical:
  "\<forall>i \<in> set ids. canonical_id i \<Longrightarrow> collect_results element_id_parse (map eid_str ids) = Inr ids"
  by (induction ids) (simp_all add: canonical_id_def)

lemma collect_parse_set:
  "collect_results element_id_parse strs = Inr ids \<Longrightarrow> i \<in> set ids \<Longrightarrow> canonical_id i"
  by (induction strs arbitrary: ids) (auto simp: result_bind_Inr_iff dest: parse_canonical)

lemma read_index_canonical:
  "read_index J s = Inr ids \<Longrightarrow> i \<in> set ids \<Longrightarrow> canonical_id i"
  by (auto simp: read_index_def result_bind_Inr_iff dest: collect_parse_set split: option.splits)

lemma read_index_frame:
  "fs_index s' = fs_index s \<Longrightarrow> read_index J s' = read_index J s"
  by (simp add: read_index_def)

lemma update_index_ok:
  assumes "env_ok J" and "\<forall>i \<in> set ids. canonical_id i"
  obtains s' where "update_index J ids s = (Inr (), s')" "read_index J s' = Inr ids"
    "fs_elements s' = fs_elements s" "fs_counters s' = fs_counters s"
proof -
  from assms(1) obtain c where c: "enc_index (env_codec J) (map eid_str ids) = Inr c"
    "dec_index (env_codec J) c = Inr (map eid_str ids)"
    unfolding env_ok_def codec_ok_def by blast
  have "update_index J ids s = (Inr (), s\<lparr>fs_index := Some c\<rparr>)"
    using assms(1) by (simp add: update_index_def c)
  moreover have "read_index J (s\<lparr>fs_index := Some c\<rparr>) = Inr ids"
    using assms by (simp add: read_index_def c collect_parse_canonical)
  ultimately show thesis using that by auto
qed

lemma file_get_view:
  assumes "file_ok J s"
  shows "file_get J s i = Inr (file_view J s i)"
  using assms by (force simp: file_ok_def files_ok_def file_get_def file_view_def element_path_def
      split: option.splits sum.splits)

lemma file_view_stored:
  assumes "file_ok J s" "file_view J s i = Some e"
  shows "elem_id e = Some i \<and> ids_ok e"
proof -
  from assms(2) obtain c where c: "map_of (fs_elements s) (eid_str i) = Some c"
    "dec_element (env_codec J) c = Inr e"
    by (auto simp: file_view_def split: option.splits sum.splits)
  with assms(1) have "\<exists>j. elem_id e = Some j \<and> eid_str j = eid_str i \<and> ids_ok e"
    unfolding file_ok_def files_ok_def by fastforce
  then show ?thesis by (auto simp: eid_str_inj)
qed

lemma load_elements_view:
  assumes "file_ok J s"
  shows "load_elements J s ids = Inr (List.map_filter (file_view J s) ids)"
  by (induction ids) (auto simp: file_get_view [OF assms] List.map_filter_simps split: option.split)

lemma map_filter_distinct:
  "distinct xs \<Longrightarrow> (\<And>x y z. f x = Some z \<Longrightarrow> f y = Some z \<Longrightarrow> x = y) \<Longrightarrow>
   distinct (List.map_filter f xs)"
proof (induction xs)
  case (Cons x xs)
  have "z \<notin> set (List.map_filter f xs)" if "f x = Some z" for z
    using Cons.prems(1) Cons.prems(2) [OF that] by (auto simp: List.map_filter_def)
  with Cons show ?case by (auto simp: List.map_filter_simps split: option.split)
qed (simp add: List.map_filter_simps)

lemma file_list_view:
  assumes "file_ok J s"
  shows "\<exists>es. file_list J s = Inr es \<and> distinct es \<and> sorted (map id_key es) \<and>
              (\<forall>e. e \<in> set es \<longleftrightarrow> (\<exists>i. file_view J s i = Some e))"
proof -
  from assms obtain ids where ids: "read_index J s = Inr ids" "distinct ids"
    "eid_str ` set ids = dom (map_of (fs_elements s))"
    unfolding file_ok_def index_ok_def by blast
  let ?es = "List.map_filter (file_view J s) ids"
  have inj: "i = j" if "file_view J s i = Some e" "file_view J s j = Some e" for i j e
    using file_view_stored [OF assms that(1)] file_view_stored [OF assms that(2)] by simp
  have "i \<in> set ids" if "file_view J s i = Some e" for i e
  proof -
    from that have "eid_str i \<in> eid_str ` set ids"
      by (auto simp: ids(3) file_view_def split: option.splits)
    then show ?thesis by (auto simp: eid_str_inj)
  qed
  then have "e \<in> set ?es \<longleftrightarrow> (\<exists>i. file_view J s i = Some e)" for e
    by (auto simp: List.map_filter_def image_iff) force
  moreover have "file_list J s = Inr (sort_key id_key ?es)"
    by (simp add: file_list_def ids(1) load_elements_view [OF assms])
  ultimately show ?thesis using map_filter_distinct [OF ids(2) inj] by auto
qed

lemma env_ok_encode:
  assumes "env_ok J" "ids_ok e"
  obtains c where "enc_element (env_codec J) e = Inr c" "dec_element (env_codec J) c = Inr e"
  using assms unfolding env_ok_def codec_ok_def by blast

text \<open>Writing a file changes the view at its id; the index is not part of the view.\<close>

lemma file_view_write:
  assumes "dec_element (env_codec J) c = Inr e" "fs_elements s' = AList.update (eid_str i) c (fs_elements s)"
  shows "file_view J s' = (file_view J s)(i \<mapsto> e)"
  using assms by (auto simp: file_view_def fun_eq_iff update_conv' eid_str_inj)

lemma file_view_remove:
  assumes "fs_elements s' = AList.delete (eid_str i) (fs_elements s)"
  shows "file_view J s' = (file_view J s)(i := None)"
  using assms by (auto simp: file_view_def fun_eq_iff delete_conv' eid_str_inj)

lemma file_view_absent:
  assumes "map_of (fs_elements s) (eid_str i) = None"
  shows "(file_view J s)(i := None) = file_view J s"
  using assms by (auto simp: file_view_def fun_eq_iff)

lemma files_ok_write:
  assumes "files_ok J s" "dec_element (env_codec J) c = Inr e" "elem_id e = Some i" "ids_ok e"
    "fs_elements s' = AList.update (eid_str i) c (fs_elements s)"
  shows "files_ok J s'"
  using assms by (auto simp: files_ok_def update_conv')

lemma files_ok_remove:
  assumes "files_ok J s" "fs_elements s' = AList.delete k (fs_elements s)"
  shows "files_ok J s'"
  using assms by (auto simp: files_ok_def delete_conv' split: if_splits)

lemma index_okI:
  "read_index J s = Inr ids \<Longrightarrow> distinct ids \<Longrightarrow>
   eid_str ` set ids = dom (map_of (fs_elements s)) \<Longrightarrow> index_ok J s"
  by (auto simp: index_ok_def)

lemma file_save_ok:
  assumes ok: "file_ok J s" and i: "elem_id e = Some i" and e: "ids_ok e"
  shows "\<exists>s'. file_save J e s = (Inr (), s') \<and> file_ok J s' \<and>
              file_view J s' = (file_view J s)(i \<mapsto> e) \<and> counter_of s' = counter_of s"
proof -
  from ok have env: "env_ok J" and files: "files_ok J s" by (simp_all add: file_ok_def)
  from ok obtain ids where ids: "read_index J s = Inr ids" "distinct ids"
    "eid_str ` set ids = dom (map_of (fs_elements s))"
    unfolding file_ok_def index_ok_def by blast
  obtain c where c: "enc_element (env_codec J) e = Inr c" "dec_element (env_codec J) c = Inr e"
    using env e by (rule env_ok_encode)
  define s1 where "s1 = s\<lparr>fs_elements := AList.update (eid_str i) c (fs_elements s)\<rparr>"
  have r1: "read_index J s1 = Inr ids"
    using read_index_frame [of s1 s J] by (simp add: s1_def ids)
  have dom1: "dom (map_of (fs_elements s1)) = insert (eid_str i) (dom (map_of (fs_elements s)))"
    by (simp add: s1_def update_conv')
  have fin: ?thesis if sv: "file_save J e s = (Inr (), s2)" and rd: "read_index J s2 = Inr ids2"
    and d: "distinct ids2" "set ids2 = insert i (set ids)"
    and fr: "fs_elements s2 = fs_elements s1" "fs_counters s2 = fs_counters s1" for s2 ids2
  proof -
    have el: "fs_elements s2 = AList.update (eid_str i) c (fs_elements s)" by (simp add: fr s1_def)
    have "index_ok J s2" using rd d(1)
      by (rule index_okI) (simp only: fr dom1 ids(3) [symmetric] d(2) image_insert)
    moreover have "files_ok J s2" using files c(2) i e el by (rule files_ok_write)
    moreover have "counter_of s2 = counter_of s" by (rule ext) (simp add: counter_of_def fr s1_def)
    ultimately show ?thesis using sv env file_view_write [OF c(2) el] by (auto simp: file_ok_def)
  qed
  show ?thesis
  proof (cases "i \<in> set ids")
    case True
    then have "file_save J e s = (Inr (), s1)"
      by (simp add: file_save_def i c env element_path_def s1_def [symmetric] r1 Let_def)
    then show ?thesis using True by (intro fin [of s1 ids]) (auto simp: r1 ids)
  next
    case False
    have can: "\<forall>j \<in> set (sort_key eid_str (ids @ [i])). canonical_id j"
      using read_index_canonical [OF ids(1)] ids_ok_id [OF e i] by simp
    obtain s2 where s2: "update_index J (sort_key eid_str (ids @ [i])) s1 = (Inr (), s2)"
      "read_index J s2 = Inr (sort_key eid_str (ids @ [i]))"
      "fs_elements s2 = fs_elements s1" "fs_counters s2 = fs_counters s1"
      using env can by (rule update_index_ok)
    have "file_save J e s = (Inr (), s2)"
      using False s2(1) by (simp add: file_save_def i c env element_path_def s1_def [symmetric] r1 Let_def)
    then show ?thesis using False s2 ids(2) by (intro fin [OF _ s2(2)]) auto
  qed
qed

lemma file_delete_ok:
  assumes ok: "file_ok J s"
  shows "\<exists>s'. file_delete J i s = (Inr (), s') \<and> file_ok J s' \<and>
              file_view J s' = (file_view J s)(i := None) \<and> counter_of s' = counter_of s"
proof -
  from ok have env: "env_ok J" and files: "files_ok J s" by (simp_all add: file_ok_def)
  from ok obtain ids where ids: "read_index J s = Inr ids" "distinct ids"
    "eid_str ` set ids = dom (map_of (fs_elements s))"
    unfolding file_ok_def index_ok_def by blast
  let ?ids = "filter (\<lambda>j. j \<noteq> i) ids"
  define s1 where "s1 = (if map_of (fs_elements s) (eid_str i) \<noteq> None
    then s\<lparr>fs_elements := AList.delete (eid_str i) (fs_elements s)\<rparr> else s)"
  have r1: "read_index J s1 = Inr ids"
    using read_index_frame [of s1 s J] by (simp add: s1_def ids)
  have can: "\<forall>j \<in> set ?ids. canonical_id j" using read_index_canonical [OF ids(1)] by simp
  obtain s2 where s2: "update_index J ?ids s1 = (Inr (), s2)" "read_index J s2 = Inr ?ids"
    "fs_elements s2 = fs_elements s1" "fs_counters s2 = fs_counters s1"
    using env can by (rule update_index_ok)
  have m1: "map_of (fs_elements s1) = (map_of (fs_elements s))(eid_str i := None)"
    by (auto simp: s1_def delete_conv' fun_eq_iff)
  have "file_delete J i s = (Inr (), s2)"
    using s2(1) r1 by (auto simp: file_delete_def element_path_def env s1_def Let_def split: if_splits)
  moreover have "files_ok J s2" using files by (auto simp: files_ok_def s2(3) m1)
  moreover have "index_ok J s2"
    using s2(2) by (rule index_okI) (auto simp: ids(2) s2(3) m1 ids(3) [symmetric] eid_str_inj)
  moreover have "file_view J s2 = (file_view J s)(i := None)"
    by (auto simp: file_view_def fun_eq_iff s2(3) m1 eid_str_inj)
  moreover have "counter_of s2 = counter_of s" by (rule ext) (simp add: counter_of_def s2(4) s1_def)
  ultimately show ?thesis using env by (auto simp: file_ok_def)
qed

lemma file_new_id_ok:
  assumes ok: "file_ok J s"
  shows "\<exists>s'. file_new_id ty s = (Inr (element_id_new ty (counter_of s ty + 1)), s') \<and>
              file_ok J s' \<and> file_view J s' = file_view J s \<and>
              counter_of s' = (counter_of s)(ty := counter_of s ty + 1)"
proof -
  define s' where "s' = s\<lparr>fs_counters := AList.update ty (counter_of s ty + 1) (fs_counters s)\<rparr>"
  have "file_ok J s'"
    using ok by (simp add: file_ok_def files_ok_def index_ok_def read_index_def s'_def)
  moreover have "file_view J s' = file_view J s" by (rule ext) (simp add: file_view_def s'_def)
  moreover have "counter_of s' = (counter_of s)(ty := counter_of s ty + 1)"
    by (rule ext) (simp add: counter_of_def s'_def update_conv')
  ultimately show ?thesis by (simp add: file_new_id_def Let_def s'_def)
qed

interpretation files: element_repository "file_repository J" "file_ok J" "file_view J" counter_of for J
  by unfold_locales
    (simp_all add: file_repository_def file_get_view file_view_stored file_list_view
      file_list_where_def file_save_ok file_delete_ok file_new_id_ok)

end
