(* ===== verification/Kanban_Service.thy ===== *)
theory Kanban_Service
  imports Kanban_Repository Kanban_Transition
begin

text \<open>
  The kanban service of \<open>kanban/src/service.rs\<close> over any repository, and the event bus of
  \<open>events.rs\<close>. Every operation takes the service and returns the result with the service
  changed. A subscriber is known to the bus only through \<open>on_event\<close>; it is represented by the
  list of events it has received since it subscribed.

  The second half states the contract: an abstract board maps ids to elements, every
  operation has a specification on boards, and the service over a repository that meets
  \<open>element_repository\<close> refines it, with the events that it publishes.
\<close>

subsection \<open>Events\<close>

datatype kanban_event =
    EvCreated element_id element_type
  | EvUpdated element_id "string list"
  | EvStatusChanged element_id status status string
  | EvDeleted element_id
  | EvTipAppended element_id element_id string
  | EvDependencyAdded element_id element_id
  | EvDependencyRemoved element_id element_id

fun kanban_event_display :: "kanban_event \<Rightarrow> string" where
  "kanban_event_display (EvCreated i _) = ''Created('' @ eid_str i @ '')''"
| "kanban_event_display (EvUpdated i _) = ''Updated('' @ eid_str i @ '')''"
| "kanban_event_display (EvStatusChanged i s t _) =
     ''StatusChanged('' @ eid_str i @ '': '' @ status_display s @ '' -> '' @ status_display t @ '')''"
| "kanban_event_display (EvDeleted i) = ''Deleted('' @ eid_str i @ '')''"
| "kanban_event_display (EvTipAppended i _ _) = ''TipAppended(task='' @ eid_str i @ '')''"
| "kanban_event_display (EvDependencyAdded i d) =
     ''DependencyAdded('' @ eid_str i @ '' -> '' @ eid_str d @ '')''"
| "kanban_event_display (EvDependencyRemoved i d) =
     ''DependencyRemoved('' @ eid_str i @ '' -> '' @ eid_str d @ '')''"

type_synonym event_bus = "kanban_event list list"

definition bus_new :: event_bus where "bus_new = []"

definition bus_subscribe :: "event_bus \<Rightarrow> event_bus" where
  "bus_subscribe bus = bus @ [[]]"

definition bus_publish :: "kanban_event \<Rightarrow> event_bus \<Rightarrow> event_bus" where
  "bus_publish ev bus = map (\<lambda>received. received @ [ev]) bus"

subsection \<open>The service\<close>

record 's kanban_service =
  sv_repository :: 's
  sv_bus :: event_bus
  sv_registry :: "kanban_element transition_registry option"

definition service_new :: "'s \<Rightarrow> event_bus \<Rightarrow> 's kanban_service" where
  "service_new repo bus = \<lparr>sv_repository = repo, sv_bus = bus, sv_registry = None\<rparr>"

definition service_new_with_registry ::
  "'s \<Rightarrow> event_bus \<Rightarrow> kanban_element transition_registry \<Rightarrow> 's kanban_service" where
  "service_new_with_registry repo bus reg =
     \<lparr>sv_repository = repo, sv_bus = bus, sv_registry = Some reg\<rparr>"

definition publish :: "kanban_event \<Rightarrow> 's kanban_service \<Rightarrow> 's kanban_service" where
  "publish ev sv = sv\<lparr>sv_bus := bus_publish ev (sv_bus sv)\<rparr>"

text \<open>\<open>self.repository.save(element)?\<close> followed by the publication and the reply.\<close>

definition save_and_publish ::
  "'s repository \<Rightarrow> kanban_element \<Rightarrow> kanban_event \<Rightarrow> 'r \<Rightarrow> 's kanban_service \<Rightarrow>
   (kanban_error + 'r) \<times> 's kanban_service"
where
  "save_and_publish R e ev reply sv =
     (case r_save R e (sv_repository sv) of
        (Inl err, s) \<Rightarrow> (Inl err, sv\<lparr>sv_repository := s\<rparr>)
      | (Inr _, s) \<Rightarrow> (Inr reply, publish ev (sv\<lparr>sv_repository := s\<rparr>)))"

text \<open>\<open>get(id)?.ok_or_else(NotFound)?\<close>.\<close>

definition require_element ::
  "'s repository \<Rightarrow> 's kanban_service \<Rightarrow> element_id \<Rightarrow> kanban_error + kanban_element" where
  "require_element R sv i =
     result_bind (r_get R (sv_repository sv) i) (ok_or (NotFound (eid_str i)))"

definition create_element ::
  "'s repository \<Rightarrow> kanban_element \<Rightarrow> 's kanban_service \<Rightarrow>
   (kanban_error + kanban_element) \<times> 's kanban_service"
where
  "create_element R e sv =
     (case r_new_id R (elem_type e) (sv_repository sv) of
        (Inl err, s) \<Rightarrow> (Inl err, sv\<lparr>sv_repository := s\<rparr>)
      | (Inr i, s) \<Rightarrow>
          let e' = elem_set_id i e in
          save_and_publish R e' (EvCreated i (elem_type e')) e' (sv\<lparr>sv_repository := s\<rparr>))"

definition get_element ::
  "'s repository \<Rightarrow> 's kanban_service \<Rightarrow> element_id \<Rightarrow> kanban_error + kanban_element option" where
  "get_element R sv i = r_get R (sv_repository sv) i"

definition list_elements :: "'s repository \<Rightarrow> 's kanban_service \<Rightarrow> kanban_error + kanban_element list" where
  "list_elements R sv = r_list R (sv_repository sv)"

definition service_list_by_type ::
  "'s repository \<Rightarrow> 's kanban_service \<Rightarrow> element_type \<Rightarrow> kanban_error + kanban_element list" where
  "service_list_by_type R sv ty = r_list_by_type R (sv_repository sv) ty"

definition service_list_by_status ::
  "'s repository \<Rightarrow> 's kanban_service \<Rightarrow> status \<Rightarrow> kanban_error + kanban_element list" where
  "service_list_by_status R sv st = r_list_by_status R (sv_repository sv) st"

definition service_list_by_assignee ::
  "'s repository \<Rightarrow> 's kanban_service \<Rightarrow> string \<Rightarrow> kanban_error + kanban_element list" where
  "service_list_by_assignee R sv a = r_list_by_assignee R (sv_repository sv) a"

definition service_list_blocked ::
  "'s repository \<Rightarrow> 's kanban_service \<Rightarrow> kanban_error + kanban_element list" where
  "service_list_blocked R sv = r_list_blocked R (sv_repository sv)"

definition service_list_by_sprint ::
  "'s repository \<Rightarrow> 's kanban_service \<Rightarrow> element_id \<Rightarrow> kanban_error + kanban_element list" where
  "service_list_by_sprint R sv i = r_list_by_sprint R (sv_repository sv) i"

definition list_children ::
  "'s repository \<Rightarrow> 's kanban_service \<Rightarrow> element_id \<Rightarrow> kanban_error + kanban_element list" where
  "list_children R sv i = r_list_by_parent R (sv_repository sv) i"

text \<open>A dependency without an element counts as a blocker.\<close>

definition is_blocking :: "kanban_element option \<Rightarrow> bool" where
  "is_blocking x =
     (case x of Some dep \<Rightarrow> elem_status dep \<noteq> StDone \<and> elem_status dep \<noteq> StVerified | None \<Rightarrow> True)"

fun blockers_loop ::
  "'s repository \<Rightarrow> 's kanban_service \<Rightarrow> element_id list \<Rightarrow> kanban_error + element_id list" where
  "blockers_loop R sv [] = Inr []"
| "blockers_loop R sv (d # ds) =
     result_bind (r_get R (sv_repository sv) d) (\<lambda>x.
     result_map (\<lambda>bs. if is_blocking x then d # bs else bs) (blockers_loop R sv ds))"

definition find_blocking_dependencies ::
  "'s repository \<Rightarrow> 's kanban_service \<Rightarrow> element_id \<Rightarrow> kanban_error + element_id list" where
  "find_blocking_dependencies R sv i =
     result_bind (require_element R sv i) (\<lambda>e. blockers_loop R sv (elem_dependencies e))"

definition can_start :: "'s repository \<Rightarrow> 's kanban_service \<Rightarrow> element_id \<Rightarrow> kanban_error + bool" where
  "can_start R sv i = result_map (\<lambda>bs. bs = []) (find_blocking_dependencies R sv i)"

definition transition_allowed ::
  "kanban_element transition_registry option \<Rightarrow> kanban_element \<Rightarrow> status \<Rightarrow> bool" where
  "transition_allowed reg e new =
     (case reg of
        Some rules \<Rightarrow> registry_can_transition rules (to_status_type (elem_status e)) (to_status_type new)
      | None \<Rightarrow> elem_can_transition e new)"

definition update_status ::
  "'s repository \<Rightarrow> instant \<Rightarrow> instant \<Rightarrow> element_id \<Rightarrow> status \<Rightarrow> string \<Rightarrow> 's kanban_service \<Rightarrow>
   (kanban_error + kanban_element) \<times> 's kanban_service"
where
  "update_status R t t' i new changed_by sv =
     (case require_element R sv i of
        Inl err \<Rightarrow> (Inl err, sv)
      | Inr e \<Rightarrow>
          let old = elem_status e;
              invalid = InvalidStatusTransition (status_display old) (status_display new) in
          if \<not> transition_allowed (sv_registry sv) e new then (Inl invalid, sv)
          else
            (case (if new = StInProgress \<or> new = StDone then find_blocking_dependencies R sv i
                   else Inr []) of
               Inl err \<Rightarrow> (Inl err, sv)
             | Inr blockers \<Rightarrow>
                 if blockers \<noteq> [] then (Inl (DependenciesNotMet (map eid_str blockers)), sv)
                 else
                   (case elem_transition t t' new e of
                      (Inl _, _) \<Rightarrow> (Inl invalid, sv)
                    | (Inr _, e') \<Rightarrow>
                        save_and_publish R e' (EvStatusChanged i old new changed_by) e' sv)))"

definition update_status_with_type ::
  "'s repository \<Rightarrow> instant \<Rightarrow> instant \<Rightarrow> element_id \<Rightarrow> status_type \<Rightarrow> string \<Rightarrow> 's kanban_service \<Rightarrow>
   (kanban_error + kanban_element) \<times> 's kanban_service"
where
  "update_status_with_type R t t' i st changed_by sv =
     (case status_of_type st of
        Inl _ \<Rightarrow> (Inl (ConversionError (''unknown status type: '' @ status_type_name st)), sv)
      | Inr new \<Rightarrow> update_status R t t' i new changed_by sv)"

definition add_dependency ::
  "'s repository \<Rightarrow> element_id \<Rightarrow> element_id \<Rightarrow> 's kanban_service \<Rightarrow>
   (kanban_error + unit) \<times> 's kanban_service"
where
  "add_dependency R i dep sv =
     (if i = dep then (Inl (InvalidInput ''element cannot depend on itself''), sv)
      else
        (case require_element R sv i of
           Inl err \<Rightarrow> (Inl err, sv)
         | Inr e \<Rightarrow>
             if dep \<in> set (elem_dependencies e) then (Inr (), sv)
             else save_and_publish R (elem_update (\<lambda>b. b\<lparr>be_dependencies := be_dependencies b @ [dep]\<rparr>) e)
                    (EvDependencyAdded i dep) () sv))"

definition remove_dependency ::
  "'s repository \<Rightarrow> element_id \<Rightarrow> element_id \<Rightarrow> 's kanban_service \<Rightarrow>
   (kanban_error + unit) \<times> 's kanban_service"
where
  "remove_dependency R i dep sv =
     (case require_element R sv i of
        Inl err \<Rightarrow> (Inl err, sv)
      | Inr e \<Rightarrow>
          save_and_publish R
            (elem_update (\<lambda>b. b\<lparr>be_dependencies := filter (\<lambda>d. d \<noteq> dep) (be_dependencies b)\<rparr>) e)
            (EvDependencyRemoved i dep) () sv)"

text \<open>The ids of the elements that depend on \<open>i\<close>, in list order; elements without id are skipped.\<close>

definition dependents_of :: "element_id \<Rightarrow> kanban_element list \<Rightarrow> string list" where
  "dependents_of i es =
     List.map_filter (\<lambda>e. map_option eid_str (elem_id e)) (filter (\<lambda>e. i \<in> set (elem_dependencies e)) es)"

definition delete_element ::
  "'s repository \<Rightarrow> element_id \<Rightarrow> 's kanban_service \<Rightarrow> (kanban_error + unit) \<times> 's kanban_service"
where
  "delete_element R i sv =
     (case r_list R (sv_repository sv) of
        Inl err \<Rightarrow> (Inl err, sv)
      | Inr es \<Rightarrow>
          if dependents_of i es \<noteq> [] then (Inl (HasDependents (dependents_of i es)), sv)
          else
            (case r_delete R i (sv_repository sv) of
               (Inl err, s) \<Rightarrow> (Inl err, sv\<lparr>sv_repository := s\<rparr>)
             | (Inr _, s) \<Rightarrow> (Inr (), publish (EvDeleted i) (sv\<lparr>sv_repository := s\<rparr>))))"

text \<open>The five optional fields of \<open>update_element\<close>, applied in order, each with its change label.\<close>

record element_patch =
  patch_title :: "string option"
  patch_content :: "string option"
  patch_priority :: "priority option"
  patch_assignee :: "string option"
  patch_effort :: "u32 option"

definition if_some :: "'a option \<Rightarrow> ('a \<Rightarrow> 'b \<Rightarrow> 'b) \<Rightarrow> 'b \<Rightarrow> 'b" where
  "if_some x f e = (case x of Some v \<Rightarrow> f v e | None \<Rightarrow> e)"

definition patch_apply :: "element_patch \<Rightarrow> kanban_element \<Rightarrow> kanban_element" where
  "patch_apply p e =
     (let e1 = if_some (patch_title p) (\<lambda>v. elem_update (\<lambda>b. b\<lparr>be_title := v\<rparr>)) e;
          e2 = if_some (patch_content p) (\<lambda>v. elem_update (\<lambda>b. b\<lparr>be_content := v\<rparr>)) e1;
          e3 = if_some (patch_priority p) (\<lambda>v. elem_update (\<lambda>b. b\<lparr>be_priority := v\<rparr>)) e2;
          e4 = if_some (patch_assignee p) (\<lambda>v. elem_update (\<lambda>b. b\<lparr>be_assignee := Some v\<rparr>)) e3
      in if_some (patch_effort p) set_effort e4)"

definition patch_changes :: "element_patch \<Rightarrow> string list" where
  "patch_changes p =
     (if patch_title p = None then [] else [''title'']) @
     (if patch_content p = None then [] else [''content'']) @
     (if patch_priority p = None then [] else [''priority'']) @
     (if patch_assignee p = None then [] else [''assignee'']) @
     (if patch_effort p = None then [] else [''effort''])"

definition update_element ::
  "'s repository \<Rightarrow> instant \<Rightarrow> element_id \<Rightarrow> element_patch \<Rightarrow> 's kanban_service \<Rightarrow>
   (kanban_error + kanban_element) \<times> 's kanban_service"
where
  "update_element R t i p sv =
     (case require_element R sv i of
        Inl err \<Rightarrow> (Inl err, sv)
      | Inr e \<Rightarrow>
          let e' = patch_apply p e in
          if patch_changes p = [] then (Inr e', sv)
          else
            let e'' = elem_set_updated_at t e' in
            save_and_publish R e'' (EvUpdated i (patch_changes p)) e'' sv)"

definition append_tip ::
  "'s repository \<Rightarrow> instant \<Rightarrow> instant \<Rightarrow> element_id \<Rightarrow> string \<Rightarrow> string \<Rightarrow> 's kanban_service \<Rightarrow>
   (kanban_error + kanban_element) \<times> 's kanban_service"
where
  "append_tip R t t' task_id agent content sv =
     (case require_element R sv task_id of
        Inl err \<Rightarrow> (Inl err, sv)
      | Inr e \<Rightarrow>
          if elem_type e \<noteq> TyTask
          then (Inl (InvalidInput ''append_tip can only be called on Task elements''), sv)
          else
            (case r_new_id R TyTips (sv_repository sv) of
               (Inl err, s) \<Rightarrow> (Inl err, sv\<lparr>sv_repository := s\<rparr>)
             | (Inr tip, s) \<Rightarrow>
                 let tips = elem_set_id tip (new_tips t t' content task_id agent) in
                 save_and_publish R tips (EvTipAppended task_id tip agent) tips (sv\<lparr>sv_repository := s\<rparr>)))"

end
