(* ===== verification/Kanban_Board.thy ===== *)
theory Kanban_Board
  imports Kanban_Service
begin

text \<open>
  The contract of the kanban service. A board maps ids to elements and counts the ids given
  out per type; \<open>board_step\<close> says for every request what the reply is, how the board changes
  and which events are published. The service over a repository that meets
  \<open>element_repository\<close> refines the board, request by request and over whole runs; the
  file repository is one. The invariants of boards are proved on the contract.
\<close>

subsection \<open>Requests and the board\<close>

datatype kanban_request =
    ReqCreate kanban_element
  | ReqStatus instant instant element_id status string
  | ReqAddDependency element_id element_id
  | ReqRemoveDependency element_id element_id
  | ReqDelete element_id
  | ReqUpdate instant element_id element_patch
  | ReqTip instant instant element_id string string

text \<open>The service answers a request with an element, with nothing, or with an error.\<close>

fun serve ::
  "'s repository \<Rightarrow> kanban_request \<Rightarrow> 's kanban_service \<Rightarrow>
   (kanban_error + kanban_element option) \<times> 's kanban_service"
where
  "serve R (ReqCreate e) sv = map_prod (result_map Some) id (create_element R e sv)"
| "serve R (ReqStatus t t' i new by_whom) sv =
     map_prod (result_map Some) id (update_status R t t' i new by_whom sv)"
| "serve R (ReqAddDependency i d) sv = map_prod (result_map (\<lambda>_. None)) id (add_dependency R i d sv)"
| "serve R (ReqRemoveDependency i d) sv =
     map_prod (result_map (\<lambda>_. None)) id (remove_dependency R i d sv)"
| "serve R (ReqDelete i) sv = map_prod (result_map (\<lambda>_. None)) id (delete_element R i sv)"
| "serve R (ReqUpdate t i p) sv = map_prod (result_map Some) id (update_element R t i p sv)"
| "serve R (ReqTip t t' i agent content) sv =
     map_prod (result_map Some) id (append_tip R t t' i agent content sv)"

record board =
  bd_elems :: "element_id \<Rightarrow> kanban_element option"
  bd_counter :: "element_type \<Rightarrow> u32"

definition board_put :: "element_id \<Rightarrow> kanban_element \<Rightarrow> board \<Rightarrow> board" where
  "board_put i e b = b\<lparr>bd_elems := (bd_elems b)(i \<mapsto> e)\<rparr>"

definition board_fresh :: "element_type \<Rightarrow> board \<Rightarrow> element_id" where
  "board_fresh ty b = element_id_new ty (bd_counter b ty + 1)"

definition board_insert :: "kanban_element \<Rightarrow> board \<Rightarrow> board" where
  "board_insert e b =
     board_put (board_fresh (elem_type e) b) (elem_set_id (board_fresh (elem_type e) b) e)
       (b\<lparr>bd_counter := (bd_counter b)(elem_type e := bd_counter b (elem_type e) + 1)\<rparr>)"

definition board_blockers :: "board \<Rightarrow> kanban_element \<Rightarrow> element_id list" where
  "board_blockers b e = filter (\<lambda>d. is_blocking (bd_elems b d)) (elem_dependencies e)"

definition depends_on :: "board \<Rightarrow> element_id \<Rightarrow> element_id \<Rightarrow> bool" where
  "depends_on b j i \<longleftrightarrow> (\<exists>e. bd_elems b j = Some e \<and> i \<in> set (elem_dependencies e))"

definition with_element ::
  "board \<Rightarrow> element_id \<Rightarrow>
   (kanban_element \<Rightarrow> (kanban_error + kanban_element option) \<times> board \<times> kanban_event list) \<Rightarrow>
   (kanban_error + kanban_element option) \<times> board \<times> kanban_event list"
where
  "with_element b i f =
     (case bd_elems b i of None \<Rightarrow> (Inl (NotFound (eid_str i)), b, []) | Some e \<Rightarrow> f e)"

definition board_status ::
  "kanban_element transition_registry option \<Rightarrow> instant \<Rightarrow> instant \<Rightarrow> element_id \<Rightarrow> status \<Rightarrow> string \<Rightarrow>
   board \<Rightarrow> kanban_element \<Rightarrow> (kanban_error + kanban_element option) \<times> board \<times> kanban_event list"
where
  "board_status reg t t' i new by_whom b e =
     (let invalid = InvalidStatusTransition (status_display (elem_status e)) (status_display new);
          e' = snd (elem_transition t t' new e) in
      if \<not> transition_allowed reg e new then (Inl invalid, b, [])
      else if (new = StInProgress \<or> new = StDone) \<and> board_blockers b e \<noteq> []
      then (Inl (DependenciesNotMet (map eid_str (board_blockers b e))), b, [])
      else if \<not> elem_can_transition e new then (Inl invalid, b, [])
      else (Inr (Some e'), board_put i e' b, [EvStatusChanged i (elem_status e) new by_whom]))"

fun board_step ::
  "kanban_element transition_registry option \<Rightarrow> kanban_request \<Rightarrow> board \<Rightarrow>
   (kanban_error + kanban_element option) \<times> board \<times> kanban_event list"
where
  "board_step reg (ReqCreate e) b =
     (Inr (Some (elem_set_id (board_fresh (elem_type e) b) e)), board_insert e b,
      [EvCreated (board_fresh (elem_type e) b) (elem_type e)])"
| "board_step reg (ReqStatus t t' i new by_whom) b =
     with_element b i (board_status reg t t' i new by_whom b)"
| "board_step reg (ReqAddDependency i d) b =
     (if i = d then (Inl (InvalidInput ''element cannot depend on itself''), b, [])
      else with_element b i (\<lambda>e.
        if d \<in> set (elem_dependencies e) then (Inr None, b, [])
        else (Inr None,
              board_put i (elem_update (\<lambda>x. x\<lparr>be_dependencies := be_dependencies x @ [d]\<rparr>) e) b,
              [EvDependencyAdded i d])))"
| "board_step reg (ReqRemoveDependency i d) b =
     with_element b i (\<lambda>e.
       (Inr None,
        board_put i (elem_update (\<lambda>x. x\<lparr>be_dependencies := filter (\<lambda>y. y \<noteq> d) (be_dependencies x)\<rparr>) e) b,
        [EvDependencyRemoved i d]))"
| "board_step reg (ReqDelete i) b =
     (if {j. depends_on b j i} \<noteq> {}
      then (Inl (HasDependents (sorted_list_of_set (eid_str ` {j. depends_on b j i}))), b, [])
      else (Inr None, b\<lparr>bd_elems := (bd_elems b)(i := None)\<rparr>, [EvDeleted i]))"
| "board_step reg (ReqUpdate t i p) b =
     with_element b i (\<lambda>e.
       if patch_changes p = [] then (Inr (Some e), b, [])
       else (let e' = elem_set_updated_at t (patch_apply p e) in
             (Inr (Some e'), board_put i e' b, [EvUpdated i (patch_changes p)])))"
| "board_step reg (ReqTip t t' i agent content) b =
     with_element b i (\<lambda>e.
       if elem_type e \<noteq> TyTask
       then (Inl (InvalidInput ''append_tip can only be called on Task elements''), b, [])
       else (let tip = new_tips t t' content i agent in
             (Inr (Some (elem_set_id (board_fresh TyTips b) tip)), board_insert tip b,
              [EvTipAppended i (board_fresh TyTips b) agent])))"

text \<open>The ids that a request brings in are ids made by \<open>new\<close> or \<open>parse\<close>.\<close>

fun request_ok :: "kanban_request \<Rightarrow> bool" where
  "request_ok (ReqCreate e) = ids_ok e"
| "request_ok (ReqAddDependency i d) = canonical_id d"
| "request_ok _ = True"

subsection \<open>Ids inside changed elements\<close>

lemma ids_ok_update:
  assumes "ids_ok e" and "elem_id (elem_update f e) = elem_id e \<or> (\<exists>i. elem_id (elem_update f e) = Some i \<and> canonical_id i)"
    and "\<forall>i \<in> set (elem_dependencies (elem_update f e)). canonical_id i"
    and "elem_references (elem_update f e) = elem_references e" "elem_parent (elem_update f e) = elem_parent e"
  shows "ids_ok (elem_update f e)"
proof -
  have "target_ids (elem_update f e) = target_ids e" by (cases e) (simp_all add: elem_update_def)
  then show ?thesis using assms by (auto simp: ids_ok_def element_ids_def)
qed

lemma ids_ok_deps: "ids_ok e \<Longrightarrow> d \<in> set (elem_dependencies e) \<Longrightarrow> canonical_id d"
  by (simp add: ids_ok_def element_ids_def)

lemma elem_id_set_id [simp]: "elem_id (elem_set_id i e) = Some i"
  by (simp add: elem_set_id_def elem_id_def)

lemma elem_type_set_id [simp]: "elem_type (elem_set_id i e) = elem_type e"
  by (simp add: elem_set_id_def)

lemma elem_type_new_tips [simp]: "elem_type (new_tips t t' title i a) = TyTips"
  by (simp add: new_tips_def)

lemma ids_ok_set_id: "ids_ok e \<Longrightarrow> canonical_id i \<Longrightarrow> ids_ok (elem_set_id i e)"
  unfolding elem_set_id_def by (rule ids_ok_update) (auto simp: elem_accessors intro: ids_ok_deps)

lemma ids_ok_transition: "ids_ok e \<Longrightarrow> ids_ok (snd (elem_transition t t' s e))"
proof -
  have "target_ids (snd (elem_transition t t' s e)) = target_ids e"
    by (cases e) (simp_all add: elem_transition_def base_transition_def)
  then show "ids_ok e \<Longrightarrow> ?thesis" by (simp add: ids_ok_def element_ids_def)
qed

lemma ids_ok_new_tips: "canonical_id i \<Longrightarrow> ids_ok (new_tips t t' title i agent)"
  by (simp add: ids_ok_def element_ids_def new_tips_def elem_accessors base_new_def)

text \<open>A patch writes the five fields and nothing else.\<close>

lemma elem_update_comp: "elem_update f (elem_update g e) = elem_update (\<lambda>b. f (g b)) e"
  by (simp add: elem_update_def)

lemma if_some_update:
  "if_some x (\<lambda>v. elem_update (f v)) e =
     elem_update (\<lambda>b. case x of Some v \<Rightarrow> f v b | None \<Rightarrow> b) e"
  by (cases x) (simp_all add: if_some_def elem_update_def)

definition patch_base :: "element_patch \<Rightarrow> base_element \<Rightarrow> base_element" where
  "patch_base p b =
     b\<lparr>be_title := (case patch_title p of Some v \<Rightarrow> v | None \<Rightarrow> be_title b),
       be_content := (case patch_content p of Some v \<Rightarrow> v | None \<Rightarrow> be_content b),
       be_priority := (case patch_priority p of Some v \<Rightarrow> v | None \<Rightarrow> be_priority b),
       be_assignee := (case patch_assignee p of Some v \<Rightarrow> Some v | None \<Rightarrow> be_assignee b),
       be_effort := (case patch_effort p of Some v \<Rightarrow> Some v | None \<Rightarrow> be_effort b)\<rparr>"

lemma patch_apply_eq: "patch_apply p e = elem_update (patch_base p) e"
  unfolding patch_apply_def Let_def set_effort_def if_some_update elem_update_comp
  by (rule arg_cong [where f = "\<lambda>f. elem_update f e"]) (auto simp: patch_base_def split: option.split)

lemma patch_base_frame [simp]:
  "be_id (patch_base p b) = be_id b" "be_status (patch_base p b) = be_status b"
  "be_dependencies (patch_base p b) = be_dependencies b"
  "be_references (patch_base p b) = be_references b" "be_parent (patch_base p b) = be_parent b"
  "be_status_history (patch_base p b) = be_status_history b"
  by (simp_all add: patch_base_def)

lemma patched_eq:
  "elem_set_updated_at t (patch_apply p e) =
     elem_update (\<lambda>b. (patch_base p b)\<lparr>be_updated_at := t\<rparr>) e"
  by (simp add: elem_set_updated_at_def patch_apply_eq elem_update_comp)

lemma patch_apply_none: "patch_changes p = [] \<Longrightarrow> patch_apply p e = e"
  by (simp add: patch_changes_def patch_apply_def if_some_def split: if_splits)

lemma ids_ok_patch: "ids_ok e \<Longrightarrow> ids_ok (elem_set_updated_at t (patch_apply p e))"
  unfolding patched_eq by (rule ids_ok_update) (auto simp: elem_accessors intro: ids_ok_deps)

lemma elem_id_patch [simp]: "elem_id (elem_set_updated_at t (patch_apply p e)) = elem_id e"
  by (simp add: patched_eq elem_id_def)

lemma ids_ok_add_dep:
  "ids_ok e \<Longrightarrow> canonical_id d \<Longrightarrow>
   ids_ok (elem_update (\<lambda>x. x\<lparr>be_dependencies := be_dependencies x @ [d]\<rparr>) e)"
  by (rule ids_ok_update) (auto simp: elem_accessors ids_ok_def element_ids_def)

lemma ids_ok_remove_dep:
  "ids_ok e \<Longrightarrow>
   ids_ok (elem_update (\<lambda>x. x\<lparr>be_dependencies := filter P (be_dependencies x)\<rparr>) e)"
  by (rule ids_ok_update) (auto simp: elem_accessors ids_ok_def element_ids_def)

lemma elem_id_dependencies [simp]:
  "elem_id (elem_update (\<lambda>x. x\<lparr>be_dependencies := f x\<rparr>) e) = elem_id e"
  by (simp add: elem_id_def)

subsection \<open>The service refines the board\<close>

definition board_of ::
  "('s \<Rightarrow> element_id \<Rightarrow> kanban_element option) \<Rightarrow> ('s \<Rightarrow> element_type \<Rightarrow> u32) \<Rightarrow> 's kanban_service \<Rightarrow> board"
where
  "board_of view counter sv =
     \<lparr>bd_elems = view (sv_repository sv), bd_counter = counter (sv_repository sv)\<rparr>"

lemma board_of_simps [simp]:
  "bd_elems (board_of view counter sv) = view (sv_repository sv)"
  "bd_counter (board_of view counter sv) = counter (sv_repository sv)"
  by (simp_all add: board_of_def)

text \<open>The service answered with the reply of the specification, moved to its board, kept its
  repository consistent and sent every subscriber the events of the specification.\<close>

definition service_matches ::
  "('s \<Rightarrow> bool) \<Rightarrow> ('s \<Rightarrow> element_id \<Rightarrow> kanban_element option) \<Rightarrow> ('s \<Rightarrow> element_type \<Rightarrow> u32) \<Rightarrow>
   's kanban_service \<Rightarrow> (kanban_error + kanban_element option) \<times> 's kanban_service \<Rightarrow>
   (kanban_error + kanban_element option) \<times> board \<times> kanban_event list \<Rightarrow> bool"
where
  "service_matches ok view counter sv out spec \<longleftrightarrow>
     fst out = fst spec \<and> ok (sv_repository (snd out)) \<and>
     board_of view counter (snd out) = fst (snd spec) \<and>
     sv_bus (snd out) = map (\<lambda>received. received @ snd (snd spec)) (sv_bus sv) \<and>
     sv_registry (snd out) = sv_registry sv"

lemma map_filter_total: "(\<And>x. x \<in> set xs \<Longrightarrow> f x = Some (g x)) \<Longrightarrow> List.map_filter f xs = map g xs"
  by (induction xs) (simp_all add: List.map_filter_simps)

lemma map_filter_sorted_ids:
  assumes es: "distinct es" "sorted (map id_key es)"
    and mem: "\<forall>e. e \<in> set es \<longleftrightarrow> (\<exists>i. V i = Some e)"
    and ids: "\<forall>i e. V i = Some e \<longrightarrow> elem_id e = Some i"
  shows "dependents_of i es = sorted_list_of_set (eid_str ` {j. \<exists>e. V j = Some e \<and> i \<in> set (elem_dependencies e)})"
proof -
  let ?fs = "filter (\<lambda>e. i \<in> set (elem_dependencies e)) es"
  have has: "\<exists>j. elem_id e = Some j \<and> V j = Some e" if "e \<in> set es" for e
    using mem ids that by blast
  have key: "id_key e = eid_str j" if "elem_id e = Some j" for e j using that by (simp add: id_key_def)
  have eq: "dependents_of i es = map id_key ?fs"
    unfolding dependents_of_def using has key by (intro map_filter_total) fastforce
  have "inj_on id_key (set es)"
  proof (rule inj_onI)
    fix e f assume "e \<in> set es" "f \<in> set es" and k: "id_key e = id_key f"
    then obtain a b where a: "elem_id e = Some a" "V a = Some e" and b: "elem_id f = Some b" "V b = Some f"
      using has by blast
    with k show "e = f" by (simp add: key eid_str_inj)
  qed
  then have "distinct (map id_key ?fs)" using es(1)
    by (simp add: distinct_map inj_on_subset)
  moreover have "sorted (map id_key ?fs)" using es(2) by (rule sorted_filter)
  moreover have "set (map id_key ?fs) = eid_str ` {j. \<exists>e. V j = Some e \<and> i \<in> set (elem_dependencies e)}"
  proof (rule set_eqI)
    fix x
    show "x \<in> set (map id_key ?fs) \<longleftrightarrow> x \<in> eid_str ` {j. \<exists>e. V j = Some e \<and> i \<in> set (elem_dependencies e)}"
      using has key mem ids by (auto simp: image_iff)
  qed
  ultimately show ?thesis
    unfolding eq by (metis sorted_list_of_set.idem_if_sorted_distinct)
qed

context element_repository
begin

lemma save_and_publish_ok:
  assumes "ok (sv_repository sv)" "elem_id e = Some i" "ids_ok e"
  shows "\<exists>s'. save_and_publish R e ev reply sv = (Inr reply, publish ev (sv\<lparr>sv_repository := s'\<rparr>)) \<and>
    ok s' \<and> view s' = (view (sv_repository sv))(i \<mapsto> e) \<and> counter s' = counter (sv_repository sv)"
  using save [OF assms] by (auto simp: save_and_publish_def)

lemma saved_matches:
  assumes "ok (sv_repository sv)" "elem_id e = Some i" "ids_ok e"
    and "spec = (result_map f (Inr reply), board_put i e (board_of view counter sv), [ev])"
  shows "service_matches ok view counter sv (map_prod (result_map f) id (save_and_publish R e ev reply sv)) spec"
  using save_and_publish_ok [OF assms(1-3), of ev reply]
  by (auto simp: service_matches_def assms(4) board_put_def board_of_def publish_def bus_publish_def)

lemma unchanged_matches:
  "ok (sv_repository sv) \<Longrightarrow> spec = (r, board_of view counter sv, []) \<Longrightarrow>
   service_matches ok view counter sv (r, sv) spec"
  by (simp add: service_matches_def)

lemma require_element_eq:
  "ok (sv_repository sv) \<Longrightarrow>
   require_element R sv i =
     (case view (sv_repository sv) i of None \<Rightarrow> Inl (NotFound (eid_str i)) | Some e \<Rightarrow> Inr e)"
  by (simp add: require_element_def get split: option.split)

lemma blockers_loop_eq:
  "ok (sv_repository sv) \<Longrightarrow>
   blockers_loop R sv ds = Inr (filter (\<lambda>d. is_blocking (view (sv_repository sv) d)) ds)"
  by (induction ds) (simp_all add: get)

lemma blocking_dependencies_eq:
  "ok (sv_repository sv) \<Longrightarrow> view (sv_repository sv) i = Some e \<Longrightarrow>
   find_blocking_dependencies R sv i = Inr (board_blockers (board_of view counter sv) e)"
  by (simp add: find_blocking_dependencies_def require_element_eq blockers_loop_eq
      board_blockers_def board_of_def)

lemma inserted_matches:
  assumes ok: "ok (sv_repository sv)" and e: "ids_ok e" and id: "r_new_id R (elem_type e) (sv_repository sv) = (Inr i, s)"
    and spec: "spec = (Inr (Some (elem_set_id i e)), board_insert e (board_of view counter sv), [ev])"
  shows "service_matches ok view counter sv
    (map_prod (result_map Some) id
      (save_and_publish R (elem_set_id i e) ev (elem_set_id i e) (sv\<lparr>sv_repository := s\<rparr>))) spec"
proof -
  let ?n = "counter (sv_repository sv) (elem_type e) + 1"
  from new_id [OF ok, of "elem_type e"] id have s: "i = element_id_new (elem_type e) ?n" "ok s"
    "view s = view (sv_repository sv)" "counter s = (counter (sv_repository sv))(elem_type e := ?n)"
    by auto
  have "ids_ok (elem_set_id i e)" using e by (simp add: ids_ok_set_id s(1))
  then have "service_matches ok view counter (sv\<lparr>sv_repository := s\<rparr>)
    (map_prod (result_map Some) id
      (save_and_publish R (elem_set_id i e) ev (elem_set_id i e) (sv\<lparr>sv_repository := s\<rparr>)))
    (Inr (Some (elem_set_id i e)),
     board_put i (elem_set_id i e) (board_of view counter (sv\<lparr>sv_repository := s\<rparr>)), [ev])"
    by (intro saved_matches) (simp_all add: s)
  then show ?thesis
    by (simp add: service_matches_def spec board_insert_def board_fresh_def board_put_def board_of_def s)
qed

lemma create_matches:
  assumes "ok (sv_repository sv)" "ids_ok e"
  shows "service_matches ok view counter sv (serve R (ReqCreate e) sv)
           (board_step reg (ReqCreate e) (board_of view counter sv))"
proof -
  obtain s where s: "r_new_id R (elem_type e) (sv_repository sv) =
      (Inr (element_id_new (elem_type e) (counter (sv_repository sv) (elem_type e) + 1)), s)"
    using new_id [OF assms(1)] by blast
  show ?thesis
    using inserted_matches [OF assms s] by (simp add: create_element_def s Let_def board_fresh_def board_of_def)
qed

lemma status_matches:
  assumes ok: "ok (sv_repository sv)"
  shows "service_matches ok view counter sv (serve R (ReqStatus t t' i new w) sv)
           (board_step (sv_registry sv) (ReqStatus t t' i new w) (board_of view counter sv))"
proof (cases "view (sv_repository sv) i")
  case None
  then show ?thesis
    using unchanged_matches [OF ok]
    by (simp add: update_status_def require_element_eq ok with_element_def board_of_def)
next
  case (Some e)
  let ?B = "board_of view counter sv"
  obtain r e' where tr: "elem_transition t t' new e = (r, e')" by (cases "elem_transition t t' new e")
  have r: "elem_can_transition e new \<longleftrightarrow> r = Inr ()"
    using elem_transition_Inr_iff [of t t' new e] by (simp add: tr)
  have e': "elem_id e' = Some i" "ids_ok e'"
    using stored [OF ok Some] ids_ok_transition [of e t t' new] elem_transition_frame(1) [of t t' new e]
    by (simp_all add: tr)
  have spec: "board_step (sv_registry sv) (ReqStatus t t' i new w) ?B =
      board_status (sv_registry sv) t t' i new w ?B e"
    using Some by (simp add: with_element_def board_of_def)
  show ?thesis
    unfolding spec board_status_def Let_def using Some r e'
    by (auto simp: update_status_def require_element_eq blocking_dependencies_eq ok tr Let_def
        split: sum.split intro!: unchanged_matches saved_matches)
qed

lemma missing_matches:
  assumes "ok (sv_repository sv)" "view (sv_repository sv) i = None"
  shows "service_matches ok view counter sv (Inl (NotFound (eid_str i)), sv)
           (with_element (board_of view counter sv) i f)"
  using assms by (intro unchanged_matches) (simp_all add: with_element_def board_of_def)

lemma with_present:
  "view (sv_repository sv) i = Some e \<Longrightarrow> with_element (board_of view counter sv) i f = f e"
  by (simp add: with_element_def board_of_def)

lemma add_dependency_matches:
  assumes ok: "ok (sv_repository sv)" and d: "canonical_id d"
  shows "service_matches ok view counter sv (serve R (ReqAddDependency i d) sv)
           (board_step reg (ReqAddDependency i d) (board_of view counter sv))"
proof (cases "view (sv_repository sv) i")
  case None
  then show ?thesis
    using missing_matches [OF ok None] unchanged_matches [OF ok]
    by (simp add: add_dependency_def require_element_eq ok)
next
  case (Some e)
  from stored [OF ok Some] have "elem_id e = Some i" "ids_ok e" by simp_all
  with Some d show ?thesis
    by (auto simp: add_dependency_def require_element_eq ok with_present
        intro!: unchanged_matches saved_matches ids_ok_add_dep)
qed

lemma remove_dependency_matches:
  assumes ok: "ok (sv_repository sv)"
  shows "service_matches ok view counter sv (serve R (ReqRemoveDependency i d) sv)
           (board_step reg (ReqRemoveDependency i d) (board_of view counter sv))"
proof (cases "view (sv_repository sv) i")
  case None
  then show ?thesis
    using missing_matches [OF ok None] by (simp add: remove_dependency_def require_element_eq ok)
next
  case (Some e)
  from stored [OF ok Some] have "elem_id e = Some i" "ids_ok e" by simp_all
  with Some show ?thesis
    by (auto simp: remove_dependency_def require_element_eq ok with_present
        intro!: saved_matches ids_ok_remove_dep)
qed

lemma delete_matches:
  assumes ok: "ok (sv_repository sv)"
  shows "service_matches ok view counter sv (serve R (ReqDelete i) sv)
           (board_step reg (ReqDelete i) (board_of view counter sv))"
proof -
  let ?V = "view (sv_repository sv)"
  let ?D = "{j. depends_on (board_of view counter sv) j i}"
  from list_all [OF ok] obtain es where es: "r_list R (sv_repository sv) = Inr es" "distinct es"
    "sorted (map id_key es)" "\<forall>e. e \<in> set es \<longleftrightarrow> (\<exists>i. ?V i = Some e)"
    by blast
  have D: "?D = {j. \<exists>e. ?V j = Some e \<and> i \<in> set (elem_dependencies e)}"
    by (simp add: depends_on_def board_of_def)
  have dep: "dependents_of i es = sorted_list_of_set (eid_str ` ?D)"
    unfolding D using es(2-4) stored [OF ok] by (intro map_filter_sorted_ids) blast+
  have "?D \<subseteq> (\<lambda>e. the (elem_id e)) ` set es"
    unfolding D using es(4) stored [OF ok] by (force simp: image_iff)
  then have "finite ?D" by (rule finite_subset) simp
  then have emp: "dependents_of i es = [] \<longleftrightarrow> ?D = {}" by (simp add: dep)
  obtain s where "r_delete R i (sv_repository sv) = (Inr (), s)" "ok s" "view s = ?V(i := None)"
    "counter s = counter (sv_repository sv)"
    using delete [OF ok] by blast
  then show ?thesis
    using emp ok by (auto simp: delete_element_def es(1) dep service_matches_def board_of_def publish_def
        bus_publish_def)
qed

lemma update_matches:
  assumes ok: "ok (sv_repository sv)"
  shows "service_matches ok view counter sv (serve R (ReqUpdate t i p) sv)
           (board_step reg (ReqUpdate t i p) (board_of view counter sv))"
proof (cases "view (sv_repository sv) i")
  case None
  then show ?thesis
    using missing_matches [OF ok None] by (simp add: update_element_def require_element_eq ok)
next
  case (Some e)
  from stored [OF ok Some] have "elem_id e = Some i" "ids_ok e" by simp_all
  with Some show ?thesis
    by (auto simp: update_element_def require_element_eq ok with_present Let_def patch_apply_none
        intro!: unchanged_matches saved_matches ids_ok_patch)
qed

lemma tip_matches:
  assumes ok: "ok (sv_repository sv)"
  shows "service_matches ok view counter sv (serve R (ReqTip t t' i a c) sv)
           (board_step reg (ReqTip t t' i a c) (board_of view counter sv))"
proof (cases "view (sv_repository sv) i")
  case None
  then show ?thesis
    using missing_matches [OF ok None] by (simp add: append_tip_def require_element_eq ok)
next
  case (Some e)
  from stored [OF ok Some] have "canonical_id i" using ids_ok_id by blast
  then have tip: "ids_ok (new_tips t t' c i a)" by (rule ids_ok_new_tips)
  obtain s where s: "r_new_id R TyTips (sv_repository sv) =
      (Inr (element_id_new TyTips (counter (sv_repository sv) TyTips + 1)), s)"
    using new_id [OF ok] by blast
  show ?thesis
    using inserted_matches [OF ok tip, simplified, OF s, OF refl] unchanged_matches [OF ok] Some
    by (simp add: append_tip_def require_element_eq ok with_present s Let_def board_fresh_def)
qed

text \<open>One request: the service is the board, with its errors and its events.\<close>

lemma serve_matches:
  assumes "ok (sv_repository sv)" "request_ok req"
  shows "service_matches ok view counter sv (serve R req sv)
           (board_step (sv_registry sv) req (board_of view counter sv))"
  using assms create_matches status_matches add_dependency_matches remove_dependency_matches
    delete_matches update_matches tip_matches
  by (cases req) simp_all

end

subsection \<open>Runs\<close>

fun serve_all :: "'s repository \<Rightarrow> kanban_request list \<Rightarrow> 's kanban_service \<Rightarrow> 's kanban_service" where
  "serve_all R [] sv = sv"
| "serve_all R (req # reqs) sv = serve_all R reqs (snd (serve R req sv))"

fun board_run ::
  "kanban_element transition_registry option \<Rightarrow> kanban_request list \<Rightarrow> board \<Rightarrow> board \<times> kanban_event list"
where
  "board_run reg [] b = (b, [])"
| "board_run reg (req # reqs) b =
     (case board_step reg req b of
        (_, b', evs) \<Rightarrow> (case board_run reg reqs b' of (b'', evs') \<Rightarrow> (b'', evs @ evs')))"

context element_repository
begin

lemma serve_all_matches:
  assumes "ok (sv_repository sv)" "\<forall>req \<in> set reqs. request_ok req"
  shows "ok (sv_repository (serve_all R reqs sv)) \<and>
    board_of view counter (serve_all R reqs sv) =
      fst (board_run (sv_registry sv) reqs (board_of view counter sv)) \<and>
    sv_bus (serve_all R reqs sv) =
      map (\<lambda>received. received @ snd (board_run (sv_registry sv) reqs (board_of view counter sv))) (sv_bus sv)"
  using assms
proof (induction reqs arbitrary: sv)
  case Nil
  then show ?case by simp
next
  case (Cons req reqs)
  obtain r b evs where st: "board_step (sv_registry sv) req (board_of view counter sv) = (r, b, evs)"
    by (metis prod_cases3)
  have "service_matches ok view counter sv (serve R req sv) (r, b, evs)"
    using serve_matches [of sv req] Cons.prems st by simp
  with Cons.IH [of "snd (serve R req sv)"] Cons.prems st show ?case
    by (auto simp: service_matches_def split: prod.split)
qed

lemma serve_all_registry:
  assumes "ok (sv_repository sv)" "\<forall>req \<in> set reqs. request_ok req"
  shows "sv_registry (serve_all R reqs sv) = sv_registry sv"
  using assms
proof (induction reqs arbitrary: sv)
  case Nil
  then show ?case by simp
next
  case (Cons req reqs)
  have "service_matches ok view counter sv (serve R req sv)
      (board_step (sv_registry sv) req (board_of view counter sv))"
    using Cons.prems by (intro serve_matches) simp_all
  then have "ok (sv_repository (snd (serve R req sv)))" "sv_registry (snd (serve R req sv)) = sv_registry sv"
    by (simp_all add: service_matches_def)
  then show ?case using Cons.IH [of "snd (serve R req sv)"] Cons.prems(2) by simp
qed

end

end
