(* ===== verification/Kanban_Laws.thy ===== *)
theory Kanban_Laws
  imports Kanban_Board
begin

text \<open>
  What holds of every board that the service can reach: statuses move along the table and the
  history records how, ids are given out once, dependencies guard the start and the end of
  work, deletion leaves no new dangling dependency. The laws are proved on the contract of
  \<open>Kanban_Board\<close> and carried to the files by the refinement.
\<close>

subsection \<open>One step on the elements\<close>

lemma bd_elems_put [simp]: "bd_elems (board_put i e b) = (bd_elems b)(i \<mapsto> e)"
  by (simp add: board_put_def)

lemma bd_counter_put [simp]: "bd_counter (board_put i e b) = bd_counter b"
  by (simp add: board_put_def)

lemma bd_elems_insert [simp]:
  "bd_elems (board_insert e b) =
     (bd_elems b)(board_fresh (elem_type e) b \<mapsto> elem_set_id (board_fresh (elem_type e) b) e)"
  by (simp add: board_insert_def)

lemma bd_counter_insert [simp]:
  "bd_counter (board_insert e b) =
     (bd_counter b)(elem_type e := bd_counter b (elem_type e) + 1)"
  by (simp add: board_insert_def)

text \<open>What a step may do to the elements: nothing, insert a new one, remove one nobody depends
  on, or replace one by a changed version of it.\<close>

inductive elem_step :: "board \<Rightarrow> kanban_request \<Rightarrow> element_id \<Rightarrow> kanban_element \<Rightarrow> kanban_element \<Rightarrow> bool"
  for b where
  transitioned: "elem_can_transition e s \<Longrightarrow>
    (s = StInProgress \<or> s = StDone \<longrightarrow> board_blockers b e = []) \<Longrightarrow>
    elem_step b (ReqStatus t t' i s w) i e (snd (elem_transition t t' s e))"
| dep_added: "i \<noteq> d \<Longrightarrow> elem_step b (ReqAddDependency i d) i e
    (elem_update (\<lambda>x. x\<lparr>be_dependencies := be_dependencies x @ [d]\<rparr>) e)"
| dep_removed: "elem_step b (ReqRemoveDependency i d) i e
    (elem_update (\<lambda>x. x\<lparr>be_dependencies := filter (\<lambda>y. y \<noteq> d) (be_dependencies x)\<rparr>) e)"
| patched: "elem_step b (ReqUpdate t i p) i e (elem_set_updated_at t (patch_apply p e))"

fun request_creates :: "kanban_request \<Rightarrow> kanban_element set" where
  "request_creates (ReqCreate e) = {e}"
| "request_creates (ReqTip t t' i agent content) = {new_tips t t' content i agent}"
| "request_creates _ = {}"

definition replaces :: "kanban_request \<Rightarrow> board \<Rightarrow> board \<Rightarrow> bool" where
  "replaces req b b' \<longleftrightarrow>
     (\<exists>i e e'. bd_elems b i = Some e \<and> elem_step b req i e e' \<and> b' = board_put i e' b)"

lemma replacesI:
  "bd_elems b i = Some e \<Longrightarrow> elem_step b req i e e' \<Longrightarrow> replaces req b (board_put i e' b)"
  by (auto simp: replaces_def)

lemma board_step_shape:
  assumes "board_step reg req b = (r, b', evs)"
  shows "b' = b \<or> (\<exists>e \<in> request_creates req. b' = board_insert e b) \<or>
    (\<exists>i. req = ReqDelete i \<and> (\<forall>j. \<not> depends_on b j i) \<and> b' = b\<lparr>bd_elems := (bd_elems b)(i := None)\<rparr>) \<or>
    replaces req b b'"
proof (cases req)
  case (ReqStatus t t' i new w)
  with assms show ?thesis
    by (cases "bd_elems b i")
      (auto simp: with_element_def board_status_def Let_def split: if_splits
        intro: replacesI elem_step.transitioned)
next
  case (ReqAddDependency i d)
  with assms show ?thesis
    by (cases "bd_elems b i")
      (auto simp: with_element_def split: if_splits intro: replacesI elem_step.dep_added)
next
  case (ReqRemoveDependency i d)
  with assms show ?thesis
    by (cases "bd_elems b i") (auto simp: with_element_def intro: replacesI elem_step.dep_removed)
next
  case (ReqUpdate t i p)
  with assms show ?thesis
    by (cases "bd_elems b i")
      (auto simp: with_element_def Let_def split: if_splits intro: replacesI elem_step.patched)
next
  case (ReqTip t t' i a c)
  with assms show ?thesis
    by (cases "bd_elems b i") (auto simp: with_element_def Let_def split: if_splits)
qed (use assms in \<open>auto split: if_splits\<close>)

lemma board_step_cases [consumes 1, case_names unchanged inserted removed replaced]:
  assumes "board_step reg req b = (r, b', evs)"
  obtains "b' = b"
  | e where "e \<in> request_creates req" "b' = board_insert e b"
  | i where "req = ReqDelete i" "\<forall>j. \<not> depends_on b j i" "b' = b\<lparr>bd_elems := (bd_elems b)(i := None)\<rparr>"
  | i e e' where "bd_elems b i = Some e" "elem_step b req i e e'" "b' = board_put i e' b"
  using board_step_shape [OF assms] unfolding replaces_def by blast

text \<open>Errors change nothing and publish nothing.\<close>

lemma board_step_error:
  assumes "board_step reg req b = (Inl err, b', evs)"
  shows "b' = b \<and> evs = []"
  using assms
  by (cases req)
    (auto simp: with_element_def board_status_def Let_def split: if_splits option.splits)

lemma board_step_events:
  assumes "board_step reg req b = (r, b', evs)"
  shows "length evs \<le> 1 \<and> (evs = [] \<longrightarrow> b' = b)"
  using assms
  by (cases req)
    (auto simp: with_element_def board_status_def Let_def split: if_splits option.splits)

subsection \<open>Invariants of single elements\<close>

definition all_elements :: "(element_id \<Rightarrow> kanban_element \<Rightarrow> bool) \<Rightarrow> board \<Rightarrow> bool" where
  "all_elements P b \<longleftrightarrow> (\<forall>i e. bd_elems b i = Some e \<longrightarrow> P i e)"

lemma all_elements_step:
  assumes "all_elements P b" and "board_step reg req b = (r, b', evs)"
    and keep: "\<And>i e e'. P i e \<Longrightarrow> elem_step b req i e e' \<Longrightarrow> P i e'"
    and new: "\<And>e i. e \<in> request_creates req \<Longrightarrow> P i (elem_set_id i e)"
  shows "all_elements P b'"
  using assms(2)
proof (cases rule: board_step_cases)
  case (replaced i e e')
  from assms(1) replaced(1) have "P i e" by (simp add: all_elements_def)
  then have "P i e'" using replaced(2) by (rule keep)
  with assms(1) show ?thesis by (auto simp: all_elements_def replaced(3))
qed (use assms(1) new in \<open>auto simp: all_elements_def split: if_splits\<close>)

text \<open>An element of a board that only sees elements made by the constructors.\<close>

definition element_ok :: "element_id \<Rightarrow> kanban_element \<Rightarrow> bool" where
  "element_ok i e \<longleftrightarrow>
     elem_id e = Some i \<and> history_ok (elem_base e) \<and> i \<notin> set (elem_dependencies e)"

fun request_fresh :: "kanban_request \<Rightarrow> bool" where
  "request_fresh (ReqCreate e) \<longleftrightarrow> history_ok (elem_base e) \<and> elem_dependencies e = []"
| "request_fresh _ \<longleftrightarrow> True"

lemma element_ok_update:
  assumes "element_ok i e" "be_id (f (elem_base e)) = be_id (elem_base e)"
    "be_status (f (elem_base e)) = be_status (elem_base e)"
    "be_status_history (f (elem_base e)) = be_status_history (elem_base e)"
    "i \<notin> set (be_dependencies (f (elem_base e)))"
  shows "element_ok i (elem_update f e)"
  using assms history_ok_frame [of "f (elem_base e)" "elem_base e"]
  by (simp add: element_ok_def elem_id_def elem_dependencies_def)

lemma element_ok_step: "elem_step b req i e e' \<Longrightarrow> element_ok i e \<Longrightarrow> element_ok i e'"
proof (induction rule: elem_step.induct)
  case (transitioned e s t t' i w)
  then show ?case by (simp add: element_ok_def history_ok_elem_transition)
next
  case (dep_added i d e)
  then show ?case by (intro element_ok_update) (auto simp: element_ok_def elem_dependencies_def)
next
  case (dep_removed i d e)
  then show ?case by (intro element_ok_update) (auto simp: element_ok_def elem_dependencies_def)
next
  case (patched t i p e)
  then show ?case unfolding patched_eq
    by (intro element_ok_update) (auto simp: element_ok_def elem_dependencies_def)
qed

lemma fresh_tips: "history_ok (elem_base (new_tips t t' title i a)) \<and> elem_dependencies (new_tips t t' title i a) = []"
  by (simp add: new_tips_def history_ok_new elem_dependencies_def) (simp add: base_new_def)

lemma created_fresh:
  "request_fresh req \<Longrightarrow> e \<in> request_creates req \<Longrightarrow>
   history_ok (elem_base e) \<and> elem_dependencies e = []"
  by (cases req) (simp_all add: fresh_tips)

lemma element_ok_created:
  "history_ok (elem_base e) \<and> elem_dependencies e = [] \<Longrightarrow> element_ok i (elem_set_id i e)"
  using history_ok_frame [of "(elem_base e)\<lparr>be_id := Some i\<rparr>" "elem_base e"]
  by (simp add: element_ok_def elem_set_id_def elem_id_def elem_dependencies_def)

lemmas created_ok = element_ok_created [OF created_fresh]

lemma all_elements_ok_step:
  assumes "all_elements element_ok b" "request_fresh req" "board_step reg req b = (r, b', evs)"
  shows "all_elements element_ok b'"
proof (rule all_elements_step [OF assms(1,3)])
  show "element_ok i e'" if "element_ok i e" "elem_step b req i e e'" for i e e'
    using that(2,1) by (rule element_ok_step)
  show "element_ok i (elem_set_id i e)" if "e \<in> request_creates req" for e i
    using assms(2) that by (rule created_ok)
qed

subsection \<open>Runs\<close>

lemma board_run_invariant:
  assumes step: "\<And>req b r b' evs. req \<in> set reqs \<Longrightarrow> I b \<Longrightarrow> board_step reg req b = (r, b', evs) \<Longrightarrow> I b'"
    and "I b"
  shows "I (fst (board_run reg reqs b))"
  using assms
proof (induction reqs arbitrary: b)
  case Nil
  then show ?case by simp
next
  case (Cons req reqs)
  obtain r b' evs where st: "board_step reg req b = (r, b', evs)" by (metis prod_cases3)
  have "I b'" using Cons.prems(1) [OF _ Cons.prems(2) st] by simp
  have "I (fst (board_run reg reqs b'))"
  proof (rule Cons.IH [OF _ \<open>I b'\<close>])
    show "I b2" if "rq \<in> set reqs" "I b1" "board_step reg rq b1 = (r2, b2, evs2)" for rq b1 r2 b2 evs2
      using Cons.prems(1) [OF _ that(2,3)] that(1) by simp
  qed
  then show ?case by (cases "board_run reg reqs b'") (simp add: st)
qed

lemma board_run_ok:
  assumes "all_elements element_ok b" "\<forall>req \<in> set reqs. request_fresh req"
  shows "all_elements element_ok (fst (board_run reg reqs b))"
proof (rule board_run_invariant [where I = "all_elements element_ok", OF _ assms(1)])
  show "all_elements element_ok b'"
    if "req \<in> set reqs" "all_elements element_ok b1" "board_step reg req b1 = (r, b', evs)"
    for req b1 r b' evs
    using that(2) _ that(3) by (rule all_elements_ok_step) (use assms(2) that(1) in simp)
qed

lemma empty_board_ok: "all_elements P \<lparr>bd_elems = (\<lambda>_. None), bd_counter = c\<rparr>"
  by (simp add: all_elements_def)

subsection \<open>Ids are given out once\<close>

text \<open>The stored ids are numbered up to the counter of their type.\<close>

definition numbered :: "board \<Rightarrow> bool" where
  "numbered b \<longleftrightarrow>
     (\<forall>i e. bd_elems b i = Some e \<longrightarrow> (\<exists>ty n. i = element_id_new ty n \<and> n \<le> bd_counter b ty))"

lemma board_fresh_new:
  assumes "numbered b" "bd_counter b ty \<noteq> - 1"
  shows "bd_elems b (board_fresh ty b) = None"
proof (rule ccontr)
  assume "bd_elems b (board_fresh ty b) \<noteq> None"
  then obtain e where "bd_elems b (board_fresh ty b) = Some e" by auto
  then have "bd_counter b ty + 1 \<le> bd_counter b ty"
    using assms(1) unfolding numbered_def board_fresh_def by (metis element_id_new_inj)
  with assms(2) show False by (simp add: inc_less_eq_self_iff_eq)
qed

text \<open>Room for \<open>n\<close> more ids of each type before the \<open>u32\<close> counter wraps.\<close>

definition room :: "nat \<Rightarrow> board \<Rightarrow> bool" where
  "room n b \<longleftrightarrow> (\<forall>ty. unat (bd_counter b ty) + n < 2 ^ 32)"

lemma counter_next:
  assumes "room (Suc n) b"
  shows "unat (bd_counter b ty + 1) = Suc (unat (bd_counter b ty))"
proof -
  have "unat (bd_counter b ty) + Suc n < 2 ^ 32" using assms by (simp add: room_def)
  then show ?thesis by (simp add: unat_word_ariths)
qed

lemma room_not_max:
  assumes "room (Suc n) b"
  shows "bd_counter b ty \<noteq> - 1"
proof
  assume "bd_counter b ty = - 1"
  with counter_next [OF assms, of ty] show False by simp
qed

lemma room_less: "room (Suc n) b \<Longrightarrow> room n b"
  unfolding room_def by (metis Suc_lessD add_Suc_right)

lemma room_mono: "room n b \<Longrightarrow> m \<le> n \<Longrightarrow> room m b"
  unfolding room_def by (meson add_le_cancel_left le_less_trans)

lemma insert_numbered:
  assumes "numbered b" "room (Suc n) b"
  shows "numbered (board_insert e b) \<and> room n (board_insert e b)"
proof
  have le: "bd_counter b ty \<le> bd_counter (board_insert e b) ty" for ty
    using room_not_max [OF assms(2)] by (auto simp: word_le_nat_alt counter_next [OF assms(2)])
  show "numbered (board_insert e b)"
    unfolding numbered_def
  proof (intro allI impI)
    fix i x assume x: "bd_elems (board_insert e b) i = Some x"
    show "\<exists>ty n. i = element_id_new ty n \<and> n \<le> bd_counter (board_insert e b) ty"
    proof (cases "i = board_fresh (elem_type e) b")
      case True
      then show ?thesis by (auto simp: board_fresh_def)
    next
      case False
      with x assms(1) obtain ty n where "i = element_id_new ty n" "n \<le> bd_counter b ty"
        unfolding numbered_def by fastforce
      then show ?thesis using le [of ty] by (blast intro: order_trans)
    qed
  qed
  show "room n (board_insert e b)"
    using assms(2) room_less [OF assms(2)] by (auto simp: room_def counter_next [OF assms(2)])
qed

lemma numbered_step:
  assumes "numbered b" "room (Suc n) b" "board_step reg req b = (r, b', evs)"
  shows "numbered b' \<and> room n b'"
  using assms(3)
proof (cases rule: board_step_cases)
  case unchanged
  then show ?thesis using assms(1) room_less [OF assms(2)] by simp
next
  case (inserted e)
  then show ?thesis using insert_numbered [OF assms(1,2)] by simp
next
  case (removed i)
  then show ?thesis using assms(1) room_less [OF assms(2)] by (auto simp: numbered_def room_def)
next
  case (replaced i e e')
  then show ?thesis using assms(1) room_less [OF assms(2)] by (auto simp: numbered_def room_def)
qed

lemma numbered_run:
  "numbered b \<Longrightarrow> room (length reqs + n) b \<Longrightarrow>
   numbered (fst (board_run reg reqs b)) \<and> room n (fst (board_run reg reqs b))"
proof (induction reqs arbitrary: b)
  case Nil
  then show ?case by simp
next
  case (Cons req reqs)
  obtain r b' evs where st: "board_step reg req b = (r, b', evs)" by (metis prod_cases3)
  have "numbered b' \<and> room (length reqs + n) b'"
    using Cons.prems st by (intro numbered_step) simp_all
  with Cons.IH [of b'] show ?case by (cases "board_run reg reqs b'") (simp add: st)
qed

subsection \<open>Dependencies guard the start and the end of work\<close>

definition finished :: "kanban_element option \<Rightarrow> bool" where
  "finished x \<longleftrightarrow> (\<exists>e. x = Some e \<and> (elem_status e = StDone \<or> elem_status e = StVerified))"

lemma is_blocking_iff: "is_blocking x \<longleftrightarrow> \<not> finished x"
  by (auto simp: is_blocking_def finished_def split: option.split)

lemma no_blockers_iff:
  "board_blockers b e = [] \<longleftrightarrow> (\<forall>d \<in> set (elem_dependencies e). finished (bd_elems b d))"
  by (auto simp: board_blockers_def filter_empty_conv is_blocking_iff)

text \<open>
  A ring: every member waits on a member, is waited on by a member, and has not been started.
\<close>

definition ring :: "element_id set \<Rightarrow> board \<Rightarrow> bool" where
  "ring C b \<longleftrightarrow>
     (\<forall>i \<in> C. (\<exists>e. bd_elems b i = Some e \<and>
                   elem_status e \<notin> {StInProgress, StDone, StVerified} \<and>
                   set (elem_dependencies e) \<inter> C \<noteq> {}) \<and>
              (\<exists>j \<in> C. depends_on b j i))"

fun leaves_ring :: "element_id set \<Rightarrow> kanban_request \<Rightarrow> bool" where
  "leaves_ring C (ReqRemoveDependency i d) \<longleftrightarrow> i \<notin> C"
| "leaves_ring C _ \<longleftrightarrow> True"

lemma ring_blocked:
  assumes "ring C b" "i \<in> C" "bd_elems b i = Some e"
  shows "board_blockers b e \<noteq> []"
proof -
  from assms obtain d where d: "d \<in> set (elem_dependencies e)" "d \<in> C" unfolding ring_def by fastforce
  with assms(1) have "\<not> finished (bd_elems b d)" unfolding ring_def finished_def by fastforce
  with d show ?thesis by (auto simp: no_blockers_iff)
qed

text \<open>A member that changes keeps waiting on what it waited on.\<close>

lemma ring_member_step:
  assumes "ring C b" "i \<in> C" "leaves_ring C req" "bd_elems b i = Some e" "elem_step b req i e e'"
  shows "set (elem_dependencies e) \<subseteq> set (elem_dependencies e')"
    and "elem_status e' \<notin> {StInProgress, StDone, StVerified}"
proof -
  have waiting: "elem_status e \<notin> {StInProgress, StDone, StVerified}"
    using assms(1,2,4) unfolding ring_def by fastforce
  from assms(5) have "set (elem_dependencies e) \<subseteq> set (elem_dependencies e') \<and>
      elem_status e' \<notin> {StInProgress, StDone, StVerified}"
  proof cases
    case (transitioned s t t' w)
    then have "s \<notin> {StInProgress, StDone}" using ring_blocked [OF assms(1,2,4)] by auto
    moreover have "s \<noteq> StVerified"
      using transitioned waiting by (auto simp: elem_can_transition_def transition_into)
    ultimately show ?thesis using transitioned by (simp add: elem_transition_status)
  next
    case (dep_added d)
    then show ?thesis using waiting by (auto simp: elem_dependencies_def elem_status_def)
  next
    case (dep_removed d)
    then show ?thesis using assms(2,3) by simp
  next
    case (patched t p)
    then show ?thesis using waiting by (simp add: patched_eq elem_dependencies_def elem_status_def)
  qed
  then show "set (elem_dependencies e) \<subseteq> set (elem_dependencies e')"
    and "elem_status e' \<notin> {StInProgress, StDone, StVerified}" by simp_all
qed

text \<open>The ring survives any change that keeps its members waiting on what they waited on.\<close>

lemma ring_mono:
  assumes "ring C b"
    and "\<And>i e. i \<in> C \<Longrightarrow> bd_elems b i = Some e \<Longrightarrow>
      \<exists>e'. bd_elems b' i = Some e' \<and> set (elem_dependencies e) \<subseteq> set (elem_dependencies e') \<and>
           elem_status e' \<notin> {StInProgress, StDone, StVerified}"
  shows "ring C b'"
  unfolding ring_def
proof (intro ballI conjI)
  fix i assume i: "i \<in> C"
  with assms(1) obtain e where e: "bd_elems b i = Some e" "set (elem_dependencies e) \<inter> C \<noteq> {}"
    unfolding ring_def by blast
  from assms(2) [OF i e(1)] e(2)
  show "\<exists>e. bd_elems b' i = Some e \<and> elem_status e \<notin> {StInProgress, StDone, StVerified} \<and>
      set (elem_dependencies e) \<inter> C \<noteq> {}" by blast
  from assms(1) i obtain j x where j: "j \<in> C" "bd_elems b j = Some x" "i \<in> set (elem_dependencies x)"
    unfolding ring_def depends_on_def by blast
  from assms(2) [OF j(1,2)] j show "\<exists>j \<in> C. depends_on b' j i" unfolding depends_on_def by blast
qed

lemma ring_step:
  assumes "ring C b" "numbered b" "room (Suc n) b" "leaves_ring C req" "board_step reg req b = (r, b', evs)"
  shows "ring C b'"
  using assms(1)
proof (rule ring_mono)
  fix i e assume i: "i \<in> C" "bd_elems b i = Some e"
  have waiting: "elem_status e \<notin> {StInProgress, StDone, StVerified}"
    using assms(1) i unfolding ring_def by fastforce
  show "\<exists>e'. bd_elems b' i = Some e' \<and> set (elem_dependencies e) \<subseteq> set (elem_dependencies e') \<and>
           elem_status e' \<notin> {StInProgress, StDone, StVerified}"
    using assms(5)
  proof (cases rule: board_step_cases)
    case unchanged
    then show ?thesis using i(2) waiting by auto
  next
    case (inserted x)
    have "board_fresh (elem_type x) b \<noteq> i"
      using board_fresh_new [OF assms(2) room_not_max [OF assms(3)]] i(2) by force
    then show ?thesis using i(2) waiting inserted(2) by auto
  next
    case (removed k)
    from assms(1) i(1) obtain j where "depends_on b j i" unfolding ring_def by blast
    with removed(2) have "k \<noteq> i" by blast
    then show ?thesis using i(2) waiting removed(3) by auto
  next
    case (replaced k x x')
    show ?thesis
    proof (cases "k = i")
      case True
      with replaced i have "x = e" by simp
      with True replaced ring_member_step [OF assms(1) i(1) assms(4) i(2)] show ?thesis by simp
    next
      case False
      then show ?thesis using i(2) waiting replaced(3) by auto
    qed
  qed
qed

lemma ring_run:
  "ring C b \<Longrightarrow> numbered b \<Longrightarrow> room (length reqs) b \<Longrightarrow> \<forall>req \<in> set reqs. leaves_ring C req \<Longrightarrow>
   ring C (fst (board_run reg reqs b))"
proof (induction reqs arbitrary: b)
  case Nil
  then show ?case by simp
next
  case (Cons req reqs)
  obtain r b' evs where st: "board_step reg req b = (r, b', evs)" by (metis prod_cases3)
  have "room (Suc (length reqs)) b" using Cons.prems(3) by simp
  then have "ring C b'" "numbered b' \<and> room (length reqs) b'"
    using ring_step [OF Cons.prems(1,2) _ _ st] numbered_step [OF Cons.prems(2) _ st] Cons.prems(4)
    by simp_all
  with Cons.IH [of b'] Cons.prems(4) show ?case by (cases "board_run reg reqs b'") (simp add: st)
qed

subsection \<open>Deletion\<close>

definition dangling :: "board \<Rightarrow> (element_id \<times> element_id) set" where
  "dangling b = {(j, d). depends_on b j d \<and> bd_elems b d = None}"

lemma delete_dangling:
  assumes "board_step reg (ReqDelete i) b = (Inr x, b', evs)"
  shows "bd_elems b' i = None \<and> (\<forall>j. j \<noteq> i \<longrightarrow> bd_elems b' j = bd_elems b j) \<and> dangling b' \<subseteq> dangling b"
proof -
  from assms have none: "\<not> depends_on b j i" for j by (auto split: if_splits)
  from assms have b': "b' = b\<lparr>bd_elems := (bd_elems b)(i := None)\<rparr>" by (auto split: if_splits)
  have "depends_on b j d \<and> bd_elems b d = None" if "depends_on b' j d" "bd_elems b' d = None" for j d
  proof -
    from that(1) have "depends_on b j d" by (auto simp: depends_on_def b' split: if_splits)
    moreover from this none have "d \<noteq> i" by auto
    ultimately show ?thesis using that(2) by (simp add: b')
  qed
  then show ?thesis by (auto simp: b' dangling_def)
qed

subsection \<open>The registry of builtin rules changes nothing\<close>

lemma transition_allowed_builtin:
  "transition_allowed (Some (register_builtin_rules registry_new)) e s = elem_can_transition e s"
  by (simp add: transition_allowed_def builtin_can_transition elem_can_transition_def)

lemma board_step_builtin:
  "board_step (Some (register_builtin_rules registry_new)) req b = board_step None req b"
proof (cases req)
  case (ReqStatus t t' i new w)
  have "board_status (Some (register_builtin_rules registry_new)) t t' i new w b =
        board_status None t t' i new w b"
    by (rule ext)
      (simp add: board_status_def Let_def transition_allowed_builtin transition_allowed_def [of None])
  then show ?thesis by (simp only: ReqStatus board_step.simps)
qed simp_all

text \<open>No registry lets a status leave the table: the element checks again.\<close>

lemma board_status_legal:
  assumes "board_step reg (ReqStatus t t' i new w) b = (Inr x, b', evs)"
  obtains e where "bd_elems b i = Some e" "status_can_transition (elem_status e) new"
    "transition_allowed reg e new" "new = StInProgress \<or> new = StDone \<longrightarrow> board_blockers b e = []"
    "x = Some (snd (elem_transition t t' new e))" "b' = board_put i (snd (elem_transition t t' new e)) b"
    "evs = [EvStatusChanged i (elem_status e) new w]"
  using assms
  by (cases "bd_elems b i")
    (auto simp: with_element_def board_status_def Let_def elem_can_transition_def split: if_splits)

subsection \<open>Counters after a restart\<close>

lemma load_counter_mono: "counter_of s ty \<le> counter_of (load_counter stem s) ty"
  by (auto simp: load_counter_def counter_of_def update_conv' split: sum.split option.split)

lemma load_counter_covers:
  "counter_of (load_counter (eid_str (element_id_new ty n)) s) ty \<ge> n"
  by (auto simp: load_counter_def counter_of_def update_conv' not_less split: option.split)

lemma fold_load_mono: "counter_of s ty \<le> counter_of (fold load_counter stems s) ty"
proof (induction stems arbitrary: s)
  case (Cons stem stems)
  have "counter_of s ty \<le> counter_of (load_counter stem s) ty" by (rule load_counter_mono)
  also have "\<dots> \<le> counter_of (fold load_counter stems (load_counter stem s)) ty" by (rule Cons.IH)
  finally show ?case by simp
qed simp

lemma fold_load_covers:
  "eid_str (element_id_new ty n) \<in> set stems \<Longrightarrow> n \<le> counter_of (fold load_counter stems s) ty"
proof (induction stems arbitrary: s)
  case (Cons stem stems)
  show ?case
  proof (cases "stem = eid_str (element_id_new ty n)")
    case True
    have "n \<le> counter_of (load_counter stem s) ty" unfolding True by (rule load_counter_covers)
    also have "\<dots> \<le> counter_of (fold load_counter stems (load_counter stem s)) ty" by (rule fold_load_mono)
    finally show ?thesis by simp
  next
    case False
    then show ?thesis using Cons by simp
  qed
qed simp

lemma load_counter_frame [simp]:
  "fs_elements (load_counter stem s) = fs_elements s" "fs_index (load_counter stem s) = fs_index s"
  by (simp_all add: load_counter_def split: sum.split option.split)

lemma fold_load_frame [simp]:
  "fs_elements (fold load_counter stems s) = fs_elements s"
  "fs_index (fold load_counter stems s) = fs_index s"
  by (induction stems arbitrary: s) simp_all

lemma file_repository_new_frame [simp]:
  "fs_elements (file_repository_new fl idx) = fl" "fs_index (file_repository_new fl idx) = idx"
  by (simp_all add: file_repository_new_def load_counters_def)

end
