(* ===== verification/Kanban_Files.thy ===== *)
theory Kanban_Files
  imports Kanban_Laws
begin

text \<open>
  The kanban service over its file repository: the laws of boards, restated for what
  \<open>get\<close> reads back from the files. \<open>sample_env\<close> is an environment that keeps the values
  themselves as file contents; it shows that the assumptions on JSON and the file system can
  be met.
\<close>

subsection \<open>A repository that starts empty\<close>

definition start_service ::
  "kanban_element transition_registry option \<Rightarrow> event_bus \<Rightarrow> 'c file_store kanban_service" where
  "start_service reg bus =
     \<lparr>sv_repository = file_repository_new [] None, sv_bus = bus, sv_registry = reg\<rparr>"

lemma empty_store: "file_repository_new [] None = \<lparr>fs_elements = [], fs_index = None, fs_counters = []\<rparr>"
  by (simp add: file_repository_new_def load_counters_def)

lemma empty_store_ok: "env_ok J \<Longrightarrow> file_ok J (file_repository_new [] None)"
  by (simp add: file_ok_def files_ok_def index_ok_def read_index_def empty_store)

abbreviation file_board :: "'c file_env \<Rightarrow> 'c file_store kanban_service \<Rightarrow> board" where
  "file_board J \<equiv> board_of (file_view J) counter_of"

lemma start_board [simp]:
  "file_board J (start_service reg bus) = \<lparr>bd_elems = (\<lambda>_. None), bd_counter = (\<lambda>_. 0)\<rparr>"
  by (rule board.equality)
    (simp_all add: start_service_def empty_store file_view_def counter_of_def fun_eq_iff)

lemma start_simps [simp]:
  "sv_repository (start_service reg bus) = file_repository_new [] None"
  "sv_registry (start_service reg bus) = reg" "sv_bus (start_service reg bus) = bus"
  by (simp_all add: start_service_def)

lemma start_run:
  assumes "env_ok J" "\<forall>req \<in> set reqs. request_ok req"
  shows "file_ok J (sv_repository (serve_all (file_repository J) reqs (start_service reg bus)))"
    and "file_board J (serve_all (file_repository J) reqs (start_service reg bus)) =
           fst (board_run reg reqs \<lparr>bd_elems = (\<lambda>_. None), bd_counter = (\<lambda>_. 0)\<rparr>)"
  using files.serve_all_matches [of J "start_service reg bus" reqs] assms
  by (simp_all add: empty_store_ok)

lemma file_get_board:
  "file_ok J (sv_repository sv) \<Longrightarrow>
   file_get J (sv_repository sv) i = Inr (bd_elems (file_board J sv) i)"
  by (simp add: file_get_view)

subsection \<open>A sample environment\<close>

definition sample_codec :: "(kanban_element + string list) json_codec" where
  "sample_codec =
     \<lparr>enc_element = (\<lambda>e. Inr (Inl e)),
      dec_element = (\<lambda>c. case c of Inl e \<Rightarrow> Inr e | Inr _ \<Rightarrow> Inl ''not an element''),
      enc_index = (\<lambda>xs. Inr (Inr xs)),
      dec_index = (\<lambda>c. case c of Inr xs \<Rightarrow> Inr xs | Inl _ \<Rightarrow> Inl ''not an index'')\<rparr>"

definition sample_files :: "(kanban_element + string list) file_env" where
  "sample_files = \<lparr>env_codec = sample_codec, fs_fault = (\<lambda>_. None)\<rparr>"

lemma sample_files_ok: "env_ok sample_files"
  by (simp add: env_ok_def codec_ok_def sample_files_def sample_codec_def)

definition sample_task :: kanban_element where
  "sample_task = new_task 0 0 ''write it''"

lemma sample_task_fresh:
  "ids_ok sample_task \<and> history_ok (elem_base sample_task) \<and> elem_dependencies sample_task = []"
  by (simp add: sample_task_def new_task_def history_ok_new ids_ok_def element_ids_def elem_accessors)
    (simp add: base_new_def)

text \<open>The ids of the first two tasks.\<close>

definition task1 :: element_id where "task1 = element_id_new TyTask 1"
definition task2 :: element_id where "task2 = element_id_new TyTask 2"

lemma task_ids [simp]: "task1 \<noteq> task2" "canonical_id task1" "canonical_id task2"
  by (simp_all add: task1_def task2_def)

definition two_tasks :: "kanban_request list" where
  "two_tasks = [ReqCreate sample_task, ReqCreate sample_task]"

definition ring_requests :: "kanban_request list" where
  "ring_requests = two_tasks @ [ReqAddDependency task1 task2, ReqAddDependency task2 task1]"

lemma ring_requests_ok: "\<forall>req \<in> set ring_requests. request_ok req \<and> request_fresh req"
  using sample_task_fresh by (simp add: ring_requests_def two_tasks_def)

lemma board_run_append:
  "fst (board_run reg (xs @ ys) b) = fst (board_run reg ys (fst (board_run reg xs b)))"
  by (induction xs arbitrary: b) (simp_all add: case_prod_beta)

lemma run_two_tasks:
  "fst (board_run reg two_tasks \<lparr>bd_elems = (\<lambda>_. None), bd_counter = (\<lambda>_. 0)\<rparr>) =
     \<lparr>bd_elems = [task1 \<mapsto> elem_set_id task1 sample_task, task2 \<mapsto> elem_set_id task2 sample_task],
      bd_counter = (\<lambda>_. 0)(TyTask := 2)\<rparr>"
  by (rule board.equality)
    (simp_all add: two_tasks_def board_fresh_def task1_def task2_def sample_task_def new_task_def fun_eq_iff)

lemma sample_task_fields [simp]:
  "elem_dependencies (elem_set_id i sample_task) = []" "elem_status (elem_set_id i sample_task) = StPlan"
  by (simp_all add: sample_task_def new_task_def elem_set_id_def elem_accessors) (simp_all add: base_new_def)

lemma run_ring:
  "fst (board_run reg ring_requests \<lparr>bd_elems = (\<lambda>_. None), bd_counter = (\<lambda>_. 0)\<rparr>) =
     \<lparr>bd_elems =
        [task1 \<mapsto> elem_update (\<lambda>x. x\<lparr>be_dependencies := be_dependencies x @ [task2]\<rparr>) (elem_set_id task1 sample_task),
         task2 \<mapsto> elem_update (\<lambda>x. x\<lparr>be_dependencies := be_dependencies x @ [task1]\<rparr>) (elem_set_id task2 sample_task)],
      bd_counter = (\<lambda>_. 0)(TyTask := 2)\<rparr>"
  unfolding ring_requests_def board_run_append run_two_tasks
  by (rule board.equality) (simp_all add: with_element_def board_put_def fun_eq_iff)

lemma sample_ring:
  "ring {task1, task2} (fst (board_run reg ring_requests \<lparr>bd_elems = (\<lambda>_. None), bd_counter = (\<lambda>_. 0)\<rparr>))"
  unfolding run_ring
  by (auto simp: ring_def depends_on_def elem_dependencies_def elem_status_def sample_task_def new_task_def
      elem_set_id_def base_new_def)

subsection \<open>Properties\<close>

text \<open>
  C3: over files that meet the documented behaviour of JSON and the file system, the service
  answers every request with the reply of the abstract board (errors included), moves to its
  board, keeps the files consistent and sends every subscriber exactly its events.
\<close>

theorem service_refines_board:
  assumes "file_ok J (sv_repository sv)" "request_ok req"
    and "serve (file_repository J) req sv = (reply, sv')"
    and "board_step (sv_registry sv) req (file_board J sv) = (reply', b', evs)"
  shows "reply = reply' \<and> file_board J sv' = b' \<and> file_ok J (sv_repository sv') \<and>
    sv_bus sv' = map (\<lambda>received. received @ evs) (sv_bus sv) \<and> sv_registry sv' = sv_registry sv"
  using files.serve_matches [OF assms(1,2)] by (simp add: assms(3,4) service_matches_def)

theorem service_refines_board_witness:
  "\<exists>sv' b'. serve (file_repository sample_files) (ReqDelete task1) (start_service None [[]]) = (Inr None, sv') \<and>
     file_board sample_files sv' = b' \<and> sv_bus sv' = [[EvDeleted task1]]"
proof -
  obtain reply sv' where sv: "serve (file_repository sample_files) (ReqDelete task1)
      (start_service None [[]] :: (kanban_element + string list) file_store kanban_service) = (reply, sv')"
    by fastforce
  have "board_step (sv_registry (start_service None [[]] :: (kanban_element + string list) file_store kanban_service))
      (ReqDelete task1) (file_board sample_files (start_service None [[]])) =
      (Inr None, \<lparr>bd_elems = (\<lambda>_. None)(task1 := None), bd_counter = (\<lambda>_. 0)\<rparr>, [EvDeleted task1])"
    by (simp add: depends_on_def)
  from service_refines_board [OF _ _ sv this] sv show ?thesis
    by (simp add: empty_store_ok sample_files_ok)
qed

text \<open>
  C10: whatever fresh elements are created and whatever else is requested, with any transition
  registry, an element read from the files has a status history that starts in Plan, follows
  the transition table and ends in its status; a Verified element went through Todo,
  InProgress and Done immediately before; no element depends on itself.
\<close>

theorem stored_history_legal:
  assumes "env_ok J" "\<forall>req \<in> set reqs. request_ok req \<and> request_fresh req"
    and "file_get J (sv_repository (serve_all (file_repository J) reqs (start_service reg bus))) i = Inr (Some e)"
  shows "elem_id e = Some i \<and> i \<notin> set (elem_dependencies e) \<and>
    (let h = map she_status (elem_status_history e) in
       h \<noteq> [] \<and> hd h = StPlan \<and> last h = elem_status e \<and> successively status_can_transition h \<and>
       (elem_status e = StVerified \<longrightarrow> (\<exists>pre. h = pre @ [StTodo, StInProgress, StDone, StVerified])))"
proof -
  let ?sv = "serve_all (file_repository J) reqs (start_service reg bus)"
  from assms(2) have "\<forall>req \<in> set reqs. request_ok req" "\<forall>req \<in> set reqs. request_fresh req" by auto
  note run = start_run [OF assms(1) this(1), of reg bus] and ok = board_run_ok [OF empty_board_ok this(2), of reg]
  from assms(3) have "bd_elems (file_board J ?sv) i = Some e" by (simp add: file_get_board run(1))
  with ok [of "\<lambda>_. 0"] have e: "element_ok i e" by (simp add: run(2) all_elements_def)
  then show ?thesis
    using verified_history [of "elem_base e"]
    by (auto simp: element_ok_def history_ok_def history_statuses_def elem_status_def elem_status_history_def Let_def)
qed

theorem stored_history_legal_witness:
  "\<exists>e. file_get sample_files
         (sv_repository (serve_all (file_repository sample_files) two_tasks (start_service None []))) task2
       = Inr (Some e) \<and> elem_id e = Some task2"
proof -
  let ?sv = "serve_all (file_repository sample_files) two_tasks (start_service None [])"
  have fresh: "\<forall>req \<in> set two_tasks. request_ok req \<and> request_fresh req"
    using ring_requests_ok by (simp add: ring_requests_def)
  then have "\<forall>req \<in> set two_tasks. request_ok req" by blast
  note run = start_run [OF sample_files_ok this, of None "[]"]
  have get: "file_get sample_files (sv_repository ?sv) task2 = Inr (Some (elem_set_id task2 sample_task))"
    by (simp add: file_get_board run run_two_tasks)
  from stored_history_legal [OF sample_files_ok fresh get] get show ?thesis by blast
qed

text \<open>
  C12: a request to start or to finish work that succeeds was legal for the element, and every
  dependency of the element is stored and Done or Verified.
\<close>

theorem work_needs_finished_dependencies:
  assumes "file_ok J (sv_repository sv)" "new = StInProgress \<or> new = StDone"
    and "update_status (file_repository J) t t' i new w sv = (Inr e, sv')"
  shows "elem_status e = new \<and> file_get J (sv_repository sv') i = Inr (Some e) \<and>
    (\<exists>e0. file_get J (sv_repository sv) i = Inr (Some e0) \<and> status_can_transition (elem_status e0) new) \<and>
    (\<forall>d \<in> set (elem_dependencies e). \<exists>x. file_get J (sv_repository sv) d = Inr (Some x) \<and>
       (elem_status x = StDone \<or> elem_status x = StVerified))"
proof -
  obtain r b' evs where st: "board_step (sv_registry sv) (ReqStatus t t' i new w) (file_board J sv) = (r, b', evs)"
    by (metis prod_cases3)
  have m: "r = Inr (Some e) \<and> file_board J sv' = b' \<and> file_ok J (sv_repository sv')"
    using files.serve_matches [OF assms(1), of "ReqStatus t t' i new w"]
    by (simp add: assms(3) st service_matches_def del: board_step.simps)
  with st obtain e0 where e0: "bd_elems (file_board J sv) i = Some e0" "status_can_transition (elem_status e0) new"
    "board_blockers (file_board J sv) e0 = []" "e = snd (elem_transition t t' new e0)"
    "b' = board_put i e (file_board J sv)"
    using board_status_legal [of "sv_registry sv" t t' i new w "file_board J sv" "Some e" b' evs] assms(2)
    by (metis option.inject)
  have "elem_status e = new" using e0(2) by (simp add: e0(4) elem_transition_status elem_can_transition_def)
  moreover have "file_get J (sv_repository sv') i = Inr (Some e)"
    using file_get_board [of J sv' i] m by (simp add: e0(5) del: board_of_simps)
  moreover have "\<exists>x. file_get J (sv_repository sv) d = Inr (Some x) \<and>
      (elem_status x = StDone \<or> elem_status x = StVerified)" if "d \<in> set (elem_dependencies e)" for d
  proof -
    from that e0(3) have "finished (bd_elems (file_board J sv) d)" by (simp add: e0(4) no_blockers_iff)
    then show ?thesis by (auto simp: file_get_board [OF assms(1)] finished_def)
  qed
  ultimately show ?thesis using e0(1,2) by (simp add: file_get_board [OF assms(1)])
qed

text \<open>A task that was created, moved to the backlog and scheduled.\<close>

definition scheduled_requests :: "kanban_request list" where
  "scheduled_requests =
     [ReqCreate sample_task, ReqStatus 1 1 task1 StBacklog ''u'', ReqStatus 2 2 task1 StTodo ''u'']"

definition scheduled_service :: "(kanban_element + string list) file_store kanban_service" where
  "scheduled_service = serve_all (file_repository sample_files) scheduled_requests (start_service None [])"

definition scheduled_task :: kanban_element where
  "scheduled_task = snd (elem_transition 2 2 StTodo (snd (elem_transition 1 1 StBacklog (elem_set_id task1 sample_task))))"

lemma scheduled_task_fields [simp]:
  "elem_status scheduled_task = StTodo" "elem_dependencies scheduled_task = []"
  unfolding scheduled_task_def
  by (simp_all add: elem_transition_status elem_can_transition_def status_can_transition_def)

lemma run_scheduled:
  "fst (board_run None scheduled_requests \<lparr>bd_elems = (\<lambda>_. None), bd_counter = (\<lambda>_. 0)\<rparr>) =
     \<lparr>bd_elems = [task1 \<mapsto> scheduled_task], bd_counter = (\<lambda>_. 0)(TyTask := 1)\<rparr>"
proof -
  have t: "elem_type sample_task = TyTask" by (simp add: sample_task_def new_task_def)
  show ?thesis
    by (rule board.equality)
      (simp_all add: scheduled_requests_def board_fresh_def task1_def [symmetric] t with_element_def
        board_status_def transition_allowed_def elem_can_transition_def elem_transition_status
        status_can_transition_def Let_def fun_eq_iff scheduled_task_def)
qed

lemma scheduled_service_state:
  "file_ok sample_files (sv_repository scheduled_service)"
  "file_board sample_files scheduled_service =
     \<lparr>bd_elems = [task1 \<mapsto> scheduled_task], bd_counter = (\<lambda>_. 0)(TyTask := 1)\<rparr>"
  "sv_registry scheduled_service = None"
proof -
  have ok: "\<forall>req \<in> set scheduled_requests. request_ok req"
    using sample_task_fresh by (simp add: scheduled_requests_def)
  note run = start_run [OF sample_files_ok ok, of None "[]"]
  show "file_ok sample_files (sv_repository scheduled_service)"
    unfolding scheduled_service_def by (rule run(1))
  show "file_board sample_files scheduled_service =
     \<lparr>bd_elems = [task1 \<mapsto> scheduled_task], bd_counter = (\<lambda>_. 0)(TyTask := 1)\<rparr>"
    unfolding scheduled_service_def run(2) by (rule run_scheduled)
  show "sv_registry scheduled_service = None"
    unfolding scheduled_service_def
    using files.serve_all_registry [of sample_files "start_service None []" scheduled_requests] ok
    by (simp add: empty_store_ok sample_files_ok)
qed

lemma scheduled_step:
  "board_step None (ReqStatus 3 3 task1 StInProgress ''u'') (file_board sample_files scheduled_service) =
     (Inr (Some (snd (elem_transition 3 3 StInProgress scheduled_task))),
      board_put task1 (snd (elem_transition 3 3 StInProgress scheduled_task)) (file_board sample_files scheduled_service),
      [EvStatusChanged task1 StTodo StInProgress ''u''])"
  unfolding scheduled_service_state(2)
  by (simp add: with_element_def board_status_def transition_allowed_def elem_can_transition_def
      status_can_transition_def board_blockers_def Let_def)

theorem work_needs_finished_dependencies_witness:
  "\<exists>e sv'. update_status (file_repository sample_files) 3 3 task1 StInProgress ''u'' scheduled_service = (Inr e, sv') \<and>
     elem_status e = StInProgress"
proof -
  obtain r sv' where u: "update_status (file_repository sample_files) 3 3 task1 StInProgress ''u'' scheduled_service = (r, sv')"
    by fastforce
  have "result_map Some r = Inr (Some (snd (elem_transition 3 3 StInProgress scheduled_task)))"
    using files.serve_matches [OF scheduled_service_state(1), of "ReqStatus 3 3 task1 StInProgress ''u''"]
      scheduled_step scheduled_service_state(3)
    by (simp add: u service_matches_def del: board_step.simps board_of_simps)
  then obtain e where "r = Inr e" by (cases r) auto
  with u work_needs_finished_dependencies [OF scheduled_service_state(1) _ u [unfolded \<open>r = Inr e\<close>]]
  show ?thesis by auto
qed

text \<open>
  C19: elements that wait on each other in a ring are never started or finished, whatever is
  requested, unless a dependency of a member is removed. The ids must not run out.
\<close>

theorem dependency_ring_never_starts:
  assumes "file_ok J (sv_repository sv)" "numbered (file_board J sv)"
    "room (length reqs) (file_board J sv)" "ring C (file_board J sv)"
    and "\<forall>req \<in> set reqs. request_ok req \<and> leaves_ring C req" "i \<in> C"
  shows "\<exists>e. file_get J (sv_repository (serve_all (file_repository J) reqs sv)) i = Inr (Some e) \<and>
    elem_status e \<notin> {StInProgress, StDone, StVerified}"
proof -
  let ?sv = "serve_all (file_repository J) reqs sv"
  have m: "file_ok J (sv_repository ?sv)"
    "file_board J ?sv = fst (board_run (sv_registry sv) reqs (file_board J sv))"
    using files.serve_all_matches [OF assms(1), of reqs] assms(5) by auto
  have "ring C (file_board J ?sv)"
    unfolding m(2) using assms(2-5) by (intro ring_run) auto
  then show ?thesis using assms(6) by (auto simp: ring_def file_get_board [OF m(1)])
qed

text \<open>Two tasks that \<open>add_dependency\<close> made depend on each other are such a ring.\<close>

definition ring_service :: "(kanban_element + string list) file_store kanban_service" where
  "ring_service = serve_all (file_repository sample_files) ring_requests (start_service None [])"

lemma ring_service_state:
  "file_ok sample_files (sv_repository ring_service)"
  "ring {task1, task2} (file_board sample_files ring_service)"
  "numbered (file_board sample_files ring_service)" "room 1000 (file_board sample_files ring_service)"
proof -
  have "\<forall>req \<in> set ring_requests. request_ok req" using ring_requests_ok by blast
  note run = start_run [OF sample_files_ok this, of None "[]"]
  show "file_ok sample_files (sv_repository ring_service)"
    unfolding ring_service_def by (rule run(1))
  show "ring {task1, task2} (file_board sample_files ring_service)"
    unfolding ring_service_def run(2) by (rule sample_ring)
  have "numbered (file_board sample_files ring_service) \<and> room 1000 (file_board sample_files ring_service)"
    unfolding ring_service_def run(2)
    by (rule numbered_run) (simp_all add: numbered_def room_def ring_requests_def two_tasks_def)
  then show "numbered (file_board sample_files ring_service)" "room 1000 (file_board sample_files ring_service)"
    by simp_all
qed

theorem dependency_ring_never_starts_witness:
  "\<exists>e. file_get sample_files (sv_repository (serve_all (file_repository sample_files)
         [ReqStatus 1 1 task1 StBacklog ''u'', ReqStatus 2 2 task1 StTodo ''u'',
          ReqStatus 3 3 task1 StInProgress ''u''] ring_service)) task1 = Inr (Some e) \<and>
     elem_status e \<notin> {StInProgress, StDone, StVerified}"
proof (rule dependency_ring_never_starts [where C = "{task1, task2}"])
  show "room (length [ReqStatus 1 1 task1 StBacklog ''u'', ReqStatus 2 2 task1 StTodo ''u'',
          ReqStatus 3 3 task1 StInProgress ''u'']) (file_board sample_files ring_service)"
    using ring_service_state(4) by (rule room_mono) simp
qed (simp_all add: ring_service_state del: board_of_simps)

text \<open>
  C21: \<open>delete\<close> succeeds exactly when no stored element depends on the id; then the element is
  gone, every other element reads as before, and no new dangling dependency appears. A refusal
  names the dependents in order and changes nothing.
\<close>

theorem delete_keeps_dependencies:
  assumes "file_ok J (sv_repository sv)" "delete_element (file_repository J) i sv = (r, sv')"
  shows "(r = Inr () \<longleftrightarrow> (\<forall>j. \<not> depends_on (file_board J sv) j i)) \<and>
    (r = Inr () \<longrightarrow> file_get J (sv_repository sv') i = Inr None \<and>
       (\<forall>j. j \<noteq> i \<longrightarrow> file_get J (sv_repository sv') j = file_get J (sv_repository sv) j) \<and>
       dangling (file_board J sv') \<subseteq> dangling (file_board J sv)) \<and>
    (r \<noteq> Inr () \<longrightarrow> r = Inl (HasDependents (sorted_list_of_set (eid_str ` {j. depends_on (file_board J sv) j i}))) \<and>
       file_board J sv' = file_board J sv \<and> sv_bus sv' = sv_bus sv)"
proof -
  let ?b = "file_board J sv"
  have m: "service_matches (file_ok J) (file_view J) counter_of sv (map_prod (result_map (\<lambda>_. None)) id (r, sv'))
      (board_step (sv_registry sv) (ReqDelete i) ?b)"
    using files.serve_matches [OF assms(1), of "ReqDelete i"] by (simp add: assms(2))
  show ?thesis
  proof (cases "{j. depends_on ?b j i} = {}")
    case True
    then have st: "board_step (sv_registry sv) (ReqDelete i) ?b =
        (Inr None, ?b\<lparr>bd_elems := (bd_elems ?b)(i := None)\<rparr>, [EvDeleted i])" by simp
    have "r = Inr ()" "file_ok J (sv_repository sv')"
      "file_board J sv' = ?b\<lparr>bd_elems := (bd_elems ?b)(i := None)\<rparr>"
      using m unfolding st by (cases r; simp add: service_matches_def del: board_of_simps)+
    then show ?thesis
      using delete_dangling [OF st] True
      by (simp add: file_get_board assms(1) del: board_of_simps)
  next
    case False
    then have st: "board_step (sv_registry sv) (ReqDelete i) ?b =
        (Inl (HasDependents (sorted_list_of_set (eid_str ` {j. depends_on ?b j i}))), ?b, [])" by simp
    then show ?thesis using m False unfolding st
      by (cases r) (auto simp: service_matches_def)
  qed
qed

theorem delete_keeps_dependencies_witness:
  "fst (delete_element (file_repository sample_files) task1 ring_service) \<noteq> Inr ()"
proof -
  obtain r sv' where d: "delete_element (file_repository sample_files) task1 ring_service = (r, sv')"
    by fastforce
  have "\<exists>j. depends_on (file_board sample_files ring_service) j task1"
    using ring_service_state(2) unfolding ring_def by blast
  with delete_keeps_dependencies [OF ring_service_state(1) d] d show ?thesis by auto
qed



text \<open>
  C36: reopening the repository keeps ids fresh: the counters read back from the file names are at
  least the number of every element file that \<open>new_id\<close> named.
\<close>

theorem reopened_counters_cover:
  assumes "map_of fl (eid_str (element_id_new ty n)) = Some c"
  shows "n \<le> counter_of (file_repository_new fl idx) ty"
  unfolding file_repository_new_def load_counters_def
  using assms by (intro fold_load_covers) (force dest: map_of_SomeD)

theorem reopened_counters_cover_witness:
  "3 \<le> counter_of (file_repository_new [(''notes'', ()), (eid_str (element_id_new TyTask 3), ())] None) TyTask"
  by (rule reopened_counters_cover) (simp add: element_id_new_def id_format_def)



text \<open>
  C29: the registry of builtin rules is the transition table of the enum, name for name and in
  the same order, so a service with that registry answers every request as one without.
\<close>

theorem builtin_registry_is_the_enum:
  "registry_valid_transitions (register_builtin_rules registry_new) (to_status_type s) =
     map to_status_type (valid_transitions s) \<and>
   update_status R t t' i new w (sv\<lparr>sv_registry := Some (register_builtin_rules registry_new)\<rparr>) =
     map_prod id (\<lambda>sv'. sv'\<lparr>sv_registry := Some (register_builtin_rules registry_new)\<rparr>)
       (update_status R t t' i new w (sv\<lparr>sv_registry := None\<rparr>))"
proof -
  have loop: "blockers_loop R (sv\<lparr>sv_registry := x\<rparr>) ds = blockers_loop R sv ds" for x ds
    by (induction ds) simp_all
  have req: "require_element R (sv\<lparr>sv_registry := x\<rparr>) i = require_element R sv i" for x
    by (simp add: require_element_def)
  have fbd: "find_blocking_dependencies R (sv\<lparr>sv_registry := x\<rparr>) i = find_blocking_dependencies R sv i" for x
    by (simp add: find_blocking_dependencies_def req loop)
  have save: "save_and_publish R e ev e (sv\<lparr>sv_registry := Some reg\<rparr>) =
      map_prod id (\<lambda>sv'. sv'\<lparr>sv_registry := Some reg\<rparr>) (save_and_publish R e ev e (sv\<lparr>sv_registry := None\<rparr>))"
    for e ev reg
    by (simp add: save_and_publish_def publish_def split: prod.split sum.split)
  have allowed: "transition_allowed None e x = elem_can_transition e x" for e x
    by (simp add: transition_allowed_def)
  show ?thesis
    by (cases "require_element R sv i")
      (auto simp: builtin_valid_transitions update_status_def req fbd save transition_allowed_builtin
        allowed Let_def split: sum.split prod.split)
qed



end
