(* ===== verification/Decision_Kanban.thy ===== *)
theory Decision_Kanban
  imports Kanban_Files Backlog
begin

text \<open>
  \<open>DecisionKanbanIntegration\<close> of \<open>kanban/src/decision_kanban.rs\<close>: it carries the end of a
  backlog task over to the kanban board and fills the backlog from it. The service is that of
  \<open>Kanban_Service\<close>, the backlog that of \<open>Backlog\<close>. Listed elements are expected to
  have an id (\<open>elem.id().unwrap()\<close>); a result \<^const>\<open>None\<close> is the panic when one has none.
\<close>

record decision_kanban_config =
  auto_sync :: bool
  select_from_kanban :: bool
  notify_completion :: bool
  notify_failure :: bool

definition decision_kanban_config_default :: decision_kanban_config where
  "decision_kanban_config_default =
     \<lparr>auto_sync = True, select_from_kanban = True, notify_completion = True, notify_failure = True\<rparr>"

record task_kanban_mapping =
  tkm_task_id :: string
  tkm_kanban_id :: element_id
  tkm_created_at :: instant

datatype kanban_sync_result =
    Synced string element_id
  | SyncNotFound string
  | SyncFailed string string
  | SyncNoKanbanService

datatype next_task_result =
    Selected kanban_element task_item
  | NoTasksAvailable
  | NextNoKanbanService
  | NextFailed string

record 's decision_kanban =
  dk_kanban :: "'s kanban_service option"
  dk_config :: decision_kanban_config
  dk_mappings :: "task_kanban_mapping list"

definition dk_new :: "'s kanban_service option \<Rightarrow> 's decision_kanban" where
  "dk_new kanban = \<lparr>dk_kanban = kanban, dk_config = decision_kanban_config_default, dk_mappings = []\<rparr>"

definition dk_with_config ::
  "'s kanban_service option \<Rightarrow> decision_kanban_config \<Rightarrow> 's decision_kanban" where
  "dk_with_config kanban config = \<lparr>dk_kanban = kanban, dk_config = config, dk_mappings = []\<rparr>"

definition has_kanban :: "'s decision_kanban \<Rightarrow> bool" where
  "has_kanban dk \<longleftrightarrow> dk_kanban dk \<noteq> None"


definition find_kanban_id :: "string \<Rightarrow> 's decision_kanban \<Rightarrow> element_id option" where
  "find_kanban_id tid dk = map_option tkm_kanban_id (find (\<lambda>m. tkm_task_id m = tid) (dk_mappings dk))"


text \<open>The search by title: the first Task with the title whose update succeeds; failures are skipped.\<close>

fun sync_by_title ::
  "'s repository \<Rightarrow> instant \<Rightarrow> instant \<Rightarrow> string \<Rightarrow> kanban_element list \<Rightarrow> 's kanban_service \<Rightarrow>
   (element_id option \<times> 's kanban_service) option"
where
  "sync_by_title R t t' objective [] sv = Some (None, sv)"
| "sync_by_title R t t' objective (e # es) sv =
     (if elem_type e = TyTask \<and> elem_title e = objective then
        (case elem_id e of
           None \<Rightarrow> None
         | Some i \<Rightarrow>
             (case update_status R t t' i StDone ''decision_layer'' sv of
                (Inr _, sv') \<Rightarrow> Some (Some i, sv')
              | (Inl _, sv') \<Rightarrow> sync_by_title R t t' objective es sv'))
      else sync_by_title R t t' objective es sv)"


definition sync_task_failure ::
  "'s repository \<Rightarrow> instant \<Rightarrow> instant \<Rightarrow> string \<Rightarrow> string \<Rightarrow> 's decision_kanban \<Rightarrow> backlog_state \<Rightarrow>
   kanban_sync_result \<times> 's decision_kanban \<times> backlog_state"
where
  "sync_task_failure R t t' tid err dk bl =
     (case dk_kanban dk of
        None \<Rightarrow> (SyncNoKanbanService, dk, snd (fail_task tid err bl))
      | Some sv \<Rightarrow>
          (case find_kanban_id tid dk of
             Some kid \<Rightarrow>
               (case update_status R t t' kid StTodo ''decision_layer'' sv of
                  (Inr _, sv') \<Rightarrow> (Synced tid kid, dk\<lparr>dk_kanban := Some sv'\<rparr>, snd (fail_task tid err bl))
                | (Inl e, sv') \<Rightarrow> (SyncFailed tid (kanban_error_display e), dk\<lparr>dk_kanban := Some sv'\<rparr>, bl))
           | None \<Rightarrow> (SyncNotFound tid, dk, bl)))"

text \<open>The backlog task made from a kanban task: it carries the kanban id.\<close>

definition task_of_element :: "element_id \<Rightarrow> kanban_element \<Rightarrow> task_item" where
  "task_of_element i e =
     \<lparr>ti_id = eid_str i,
      ti_todo_id = (case elem_parent e of Some p \<Rightarrow> eid_str p | None \<Rightarrow> []),
      ti_objective = elem_title e, ti_scope = elem_content e, ti_constraints = [],
      ti_verification_plan = [], ti_status = TaskReady, ti_result_summary = None\<rparr>"

fun select_loop ::
  "kanban_element list \<Rightarrow> backlog_state \<Rightarrow> (next_task_result \<times> backlog_state) option" where
  "select_loop [] bl = Some (NoTasksAvailable, bl)"
| "select_loop (e # es) bl =
     (if elem_type e = TyTask then
        (case elem_id e of
           None \<Rightarrow> None
         | Some i \<Rightarrow>
             if find_task (eid_str i) bl = None
             then Some (Selected e (task_of_element i e), push_task (task_of_element i e) bl)
             else select_loop es bl)
      else select_loop es bl)"

definition select_next_task ::
  "'s repository \<Rightarrow> instant \<Rightarrow> instant \<Rightarrow> 's decision_kanban \<Rightarrow> backlog_state \<Rightarrow>
   (next_task_result \<times> backlog_state) option"
where
  "select_next_task R t t' dk bl =
     (case dk_kanban dk of
        Some sv \<Rightarrow>
          (case service_list_by_status R sv StTodo of
             Inl err \<Rightarrow> Some (NextFailed (kanban_error_display err), bl)
           | Inr es \<Rightarrow> select_loop es bl)
      | None \<Rightarrow>
          (case ready_tasks bl of
             [] \<Rightarrow> Some (NextNoKanbanService, bl)
           | task # _ \<Rightarrow> Some (Selected (new_task t t' (ti_objective task)) task, bl)))"

definition load_definition ::
  "'s repository \<Rightarrow> element_type \<Rightarrow> string \<Rightarrow> 's decision_kanban \<Rightarrow> kanban_element option" where
  "load_definition R ty i dk =
     (case dk_kanban dk of
        None \<Rightarrow> None
      | Some sv \<Rightarrow>
          (case element_id_parse i of
             Inl _ \<Rightarrow> None
           | Inr eid \<Rightarrow>
               (case get_element R sv eid of
                  Inr (Some e) \<Rightarrow> if elem_type e = ty then Some e else None
                | _ \<Rightarrow> None)))"

definition load_story_definition :: "'s repository \<Rightarrow> string \<Rightarrow> 's decision_kanban \<Rightarrow> string option" where
  "load_story_definition R i dk = map_option elem_content (load_definition R TyStory i dk)"

definition load_task_definition ::
  "'s repository \<Rightarrow> string \<Rightarrow> 's decision_kanban \<Rightarrow> kanban_element option" where
  "load_task_definition R i dk = load_definition R TyTask i dk"

definition notify_pr_submission ::
  "'s repository \<Rightarrow> instant \<Rightarrow> instant \<Rightarrow> string \<Rightarrow> 's decision_kanban \<Rightarrow>
   kanban_sync_result \<times> 's decision_kanban"
where
  "notify_pr_submission R t t' tid dk =
     (case dk_kanban dk of
        None \<Rightarrow> (SyncNoKanbanService, dk)
      | Some sv \<Rightarrow>
          (case find_kanban_id tid dk of
             None \<Rightarrow> (SyncNotFound tid, dk)
           | Some kid \<Rightarrow>
               if (case get_element R sv kid of Inr (Some e) \<Rightarrow> elem_status e = StInProgress | _ \<Rightarrow> False)
               then (Synced tid kid, dk)
               else
                 (case update_status R t t' kid StInProgress ''pr_submitted'' sv of
                    (Inr _, sv') \<Rightarrow> (Synced tid kid, dk\<lparr>dk_kanban := Some sv'\<rparr>)
                  | (Inl e, sv') \<Rightarrow> (SyncFailed tid (kanban_error_display e), dk\<lparr>dk_kanban := Some sv'\<rparr>))))"

subsection \<open>What the service contract gives the integration\<close>

text \<open>A status change over a repository that meets its contract: done and stored, or nothing.\<close>

context element_repository
begin

lemma update_status_outcome:
  assumes ok: "ok (sv_repository sv)" and u: "update_status R t t' i new w sv = (r, sv')"
  shows "ok (sv_repository sv') \<and>
    (case r of
       Inr e \<Rightarrow> view (sv_repository sv') = (view (sv_repository sv))(i \<mapsto> e) \<and> elem_status e = new \<and>
                (\<exists>e0. view (sv_repository sv) i = Some e0 \<and> status_can_transition (elem_status e0) new)
     | Inl _ \<Rightarrow> view (sv_repository sv') = view (sv_repository sv) \<and> sv_bus sv' = sv_bus sv)"
proof -
  obtain q b evs where st: "board_step (sv_registry sv) (ReqStatus t t' i new w) (board_of view counter sv) = (q, b, evs)"
    by (metis prod_cases3)
  have m: "result_map Some r = q" "ok (sv_repository sv')" "board_of view counter sv' = b"
    "sv_bus sv' = map (\<lambda>received. received @ evs) (sv_bus sv)"
    using serve_matches [OF ok, of "ReqStatus t t' i new w"]
    by (simp_all add: u st service_matches_def del: board_step.simps)
  show ?thesis
  proof (cases r)
    case (Inl err)
    with m(1) have "q = Inl err" by simp
    with st board_step_error [of _ _ _ err b evs] have "b = board_of view counter sv" "evs = []"
      by (simp_all del: board_step.simps)
    with m Inl show ?thesis by (auto simp: board_of_def)
  next
    case (Inr e)
    with m(1) have "q = Inr (Some e)" by auto
    with st obtain e0 where "view (sv_repository sv) i = Some e0" "status_can_transition (elem_status e0) new"
      "e = snd (elem_transition t t' new e0)" "b = board_put i e (board_of view counter sv)"
      by (auto elim!: board_status_legal simp del: board_step.simps)
    with m Inr show ?thesis
      by (auto simp: elem_transition_status elem_can_transition_def board_of_def board_put_def)
  qed
qed

lemma sync_by_title_outcome:
  assumes "ok (sv_repository sv)" "\<And>e. e \<in> set es \<Longrightarrow> elem_id e \<noteq> None"
  shows "\<exists>x sv'. sync_by_title R t t' obj es sv = Some (x, sv') \<and> ok (sv_repository sv') \<and>
    (case x of
       None \<Rightarrow> view (sv_repository sv') = view (sv_repository sv) \<and> sv_bus sv' = sv_bus sv
     | Some i \<Rightarrow> \<exists>e. view (sv_repository sv') = (view (sv_repository sv))(i \<mapsto> e) \<and> elem_status e = StDone)"
  using assms
proof (induction es arbitrary: sv)
  case Nil
  then show ?case by simp
next
  case (Cons e es)
  show ?case
  proof (cases "elem_type e = TyTask \<and> elem_title e = obj")
    case False
    then have "sync_by_title R t t' obj (e # es) sv = sync_by_title R t t' obj es sv" by auto
    with Cons show ?thesis by simp
  next
    case True
    obtain i where i: "elem_id e = Some i" using Cons.prems(2) [of e] by auto
    obtain r sv1 where u: "update_status R t t' i StDone ''decision_layer'' sv = (r, sv1)" by fastforce
    note o = update_status_outcome [OF Cons.prems(1) u]
    show ?thesis
    proof (cases r)
      case (Inr x)
      then show ?thesis using True i u o by auto
    next
      case (Inl err)
      with o have sv1: "ok (sv_repository sv1)" "view (sv_repository sv1) = view (sv_repository sv)"
        "sv_bus sv1 = sv_bus sv" by auto
      show ?thesis using Cons.IH [OF sv1(1), unfolded sv1(2,3)] Cons.prems(2) True i u Inl by simp
    qed
  qed
qed

end

definition available :: "backlog_state \<Rightarrow> kanban_element \<Rightarrow> bool" where
  "available bl e \<longleftrightarrow> elem_type e = TyTask \<and> find_task (eid_str (the (elem_id e))) bl = None"

lemma select_loop_eq:
  assumes "\<And>e. e \<in> set es \<Longrightarrow> elem_id e \<noteq> None"
  shows "select_loop es bl =
    Some (case find (available bl) es of
            None \<Rightarrow> (NoTasksAvailable, bl)
          | Some e \<Rightarrow>
              (Selected e (task_of_element (the (elem_id e)) e),
               push_task (task_of_element (the (elem_id e)) e) bl))"
  using assms
proof (induction es)
  case Nil
  then show ?case by simp
next
  case (Cons e es)
  obtain i where i: "elem_id e = Some i" using Cons.prems [of e] by auto
  show ?case
  proof (cases "available bl e")
    case True
    then show ?thesis using i by (simp add: available_def)
  next
    case False
    then have "select_loop (e # es) bl = select_loop es bl" using i by (auto simp: available_def)
    with False Cons show ?thesis by simp
  qed
qed

lemma task_of_element_status: "ti_status (task_of_element i e) = TaskReady"
  by (simp add: task_of_element_def)

lemma find_append:
  "find P (xs @ ys) = (case find P xs of Some u \<Rightarrow> Some u | None \<Rightarrow> find P ys)"
  by (induction xs) auto

lemma find_task_push:
  "find_task i (push_task t bl) = (case find_task i bl of Some u \<Rightarrow> Some u | None \<Rightarrow> if ti_id t = i then Some t else None)"
  by (simp add: find_task_def push_task_def find_append split: option.split)

subsection \<open>Properties\<close>





text \<open>
  C23: the next task is the first stored Todo task, in the order of ids, whose id the backlog
  does not know; it enters the backlog as a Ready task with that id, and is never selected
  again. When there is none, nothing changes.
\<close>

theorem next_task_is_first_unknown:
  assumes "dk_kanban dk = Some sv" "file_ok J (sv_repository sv)"
  shows "\<exists>es. distinct es \<and> sorted (map id_key es) \<and>
    (\<forall>e. e \<in> set es \<longleftrightarrow> elem_status e = StTodo \<and> (\<exists>i. file_get J (sv_repository sv) i = Inr (Some e))) \<and>
    (case find (available bl) es of
       None \<Rightarrow> select_next_task (file_repository J) t t' dk bl = Some (NoTasksAvailable, bl)
     | Some e \<Rightarrow>
         (let task = task_of_element (the (elem_id e)) e in
          select_next_task (file_repository J) t t' dk bl = Some (Selected e task, push_task task bl) \<and>
          ti_status task = TaskReady \<and> \<not> available (push_task task bl) e))"
proof -
  from files.list_all [OF assms(2)] obtain es where es: "r_list (file_repository J) (sv_repository sv) = Inr es"
    "distinct es" "sorted (map id_key es)"
    "\<forall>e. e \<in> set es \<longleftrightarrow> (\<exists>i. file_view J (sv_repository sv) i = Some e)" by blast
  let ?es = "filter (\<lambda>e. elem_status e = StTodo) es"
  have ids: "elem_id e \<noteq> None" if "e \<in> set ?es" for e
    using that es(4) file_view_stored [OF assms(2)] by fastforce
  have "select_next_task (file_repository J) t t' dk bl = select_loop ?es bl"
    using assms(1) files.list_status [OF assms(2), of StTodo]
    by (simp add: select_next_task_def service_list_by_status_def es(1))
  also have "\<dots> = Some (case find (available bl) ?es of
            None \<Rightarrow> (NoTasksAvailable, bl)
          | Some e \<Rightarrow>
              (Selected e (task_of_element (the (elem_id e)) e),
               push_task (task_of_element (the (elem_id e)) e) bl))"
    using ids by (rule select_loop_eq)
  finally have sel: "select_next_task (file_repository J) t t' dk bl = \<dots>" .
  have "distinct ?es" "sorted (map id_key ?es)" using es(2,3) by (simp_all add: sorted_filter)
  moreover have "\<forall>e. e \<in> set ?es \<longleftrightarrow> elem_status e = StTodo \<and> (\<exists>i. file_get J (sv_repository sv) i = Inr (Some e))"
    using es(4) by (auto simp: file_get_view assms(2))
  moreover have "\<not> available (push_task (task_of_element (the (elem_id e)) e) bl) e" for e
    by (auto simp: available_def find_task_push task_of_element_def split: option.split)
  ultimately show ?thesis
    using sel by (intro exI [of _ ?es]) (simp add: Let_def task_of_element_status split: option.split)
qed

theorem next_task_is_first_unknown_witness:
  "\<exists>e task bl'. select_next_task (file_repository sample_files) 0 0 (dk_new (Some scheduled_service)) bl_default
      = Some (Selected e task, bl') \<and> elem_status e = StTodo"
proof -
  have "dk_kanban (dk_new (Some scheduled_service)) = Some scheduled_service" by (simp add: dk_new_def)
  from next_task_is_first_unknown [OF this scheduled_service_state(1), where bl = bl_default and t = 0 and t' = 0]
  obtain es where es: "\<forall>e. e \<in> set es \<longleftrightarrow> elem_status e = StTodo \<and>
      (\<exists>i. file_get sample_files (sv_repository scheduled_service) i = Inr (Some e))"
    "case find (available bl_default) es of
       None \<Rightarrow> select_next_task (file_repository sample_files) 0 0 (dk_new (Some scheduled_service)) bl_default
                = Some (NoTasksAvailable, bl_default)
     | Some e \<Rightarrow> (let task = task_of_element (the (elem_id e)) e in
          select_next_task (file_repository sample_files) 0 0 (dk_new (Some scheduled_service)) bl_default
            = Some (Selected e task, push_task task bl_default) \<and>
          ti_status task = TaskReady \<and> \<not> available (push_task task bl_default) e)"
    by blast
  have "file_get sample_files (sv_repository scheduled_service) task1 = Inr (Some scheduled_task)"
    unfolding file_get_board [OF scheduled_service_state(1)] scheduled_service_state(2) by simp
  with es(1) have in_es: "scheduled_task \<in> set es" by auto
  have "available bl_default scheduled_task"
    by (simp add: available_def find_task_def bl_default_def scheduled_task_def sample_task_def new_task_def)
  with in_es obtain e where e: "find (available bl_default) es = Some e"
    by (cases "find (available bl_default) es") (auto simp: find_None_iff)
  then have "e \<in> set es" by (auto simp: find_Some_iff)
  with es e show ?thesis by (auto simp: Let_def)
qed

end
