(* ===== verification/Kanban_Elements.thy ===== *)
theory Kanban_Elements
  imports Kanban_Domain
begin

text \<open>
  The trait layer of the kanban crate: the builtin statuses and element types of
  \<open>builtin.rs\<close>, the wrappers of \<open>elements.rs\<close> that implement \<open>KanbanElementTrait\<close>, the
  registries of \<open>registry.rs\<close>, the serialization proxy of \<open>serde.rs\<close> and the factory of
  \<open>factory.rs\<close>. A boxed trait object is the value of its concrete type.
\<close>

subsection \<open>Builtin statuses and element types\<close>

datatype kanban_status_impl =
    PlanStatus | BacklogStatus | BlockedStatus | ReadyStatus
  | TodoStatus | InProgressStatus | DoneStatus | VerifiedStatus

fun ks_status_type :: "kanban_status_impl \<Rightarrow> status_type" where
  "ks_status_type PlanStatus = StatusType ''plan''"
| "ks_status_type BacklogStatus = StatusType ''backlog''"
| "ks_status_type BlockedStatus = StatusType ''blocked''"
| "ks_status_type ReadyStatus = StatusType ''ready''"
| "ks_status_type TodoStatus = StatusType ''todo''"
| "ks_status_type InProgressStatus = StatusType ''in_progress''"
| "ks_status_type DoneStatus = StatusType ''done''"
| "ks_status_type VerifiedStatus = StatusType ''verified''"

fun ks_implementation_type :: "kanban_status_impl \<Rightarrow> string" where
  "ks_implementation_type PlanStatus = ''PlanStatus''"
| "ks_implementation_type BacklogStatus = ''BacklogStatus''"
| "ks_implementation_type BlockedStatus = ''BlockedStatus''"
| "ks_implementation_type ReadyStatus = ''ReadyStatus''"
| "ks_implementation_type TodoStatus = ''TodoStatus''"
| "ks_implementation_type InProgressStatus = ''InProgressStatus''"
| "ks_implementation_type DoneStatus = ''DoneStatus''"
| "ks_implementation_type VerifiedStatus = ''VerifiedStatus''"

fun ks_is_terminal :: "kanban_status_impl \<Rightarrow> bool" where
  "ks_is_terminal PlanStatus = False"
| "ks_is_terminal BacklogStatus = False"
| "ks_is_terminal BlockedStatus = False"
| "ks_is_terminal ReadyStatus = False"
| "ks_is_terminal TodoStatus = False"
| "ks_is_terminal InProgressStatus = False"
| "ks_is_terminal DoneStatus = False"
| "ks_is_terminal VerifiedStatus = True"

definition statuses_impl_all :: "kanban_status_impl list" where
  "statuses_impl_all =
     [PlanStatus, BacklogStatus, BlockedStatus, ReadyStatus, TodoStatus, InProgressStatus,
      DoneStatus, VerifiedStatus]"

datatype element_type_impl =
    SprintElementType | StoryElementType | TaskElementType
  | IdeaElementType | IssueElementType | TipsElementType

fun et_element_type :: "element_type_impl \<Rightarrow> element_type_identifier" where
  "et_element_type SprintElementType = ElementTypeIdentifier ''sprint''"
| "et_element_type StoryElementType = ElementTypeIdentifier ''story''"
| "et_element_type TaskElementType = ElementTypeIdentifier ''task''"
| "et_element_type IdeaElementType = ElementTypeIdentifier ''idea''"
| "et_element_type IssueElementType = ElementTypeIdentifier ''issue''"
| "et_element_type TipsElementType = ElementTypeIdentifier ''tips''"

fun et_implementation_type :: "element_type_impl \<Rightarrow> string" where
  "et_implementation_type SprintElementType = ''SprintElementType''"
| "et_implementation_type StoryElementType = ''StoryElementType''"
| "et_implementation_type TaskElementType = ''TaskElementType''"
| "et_implementation_type IdeaElementType = ''IdeaElementType''"
| "et_implementation_type IssueElementType = ''IssueElementType''"
| "et_implementation_type TipsElementType = ''TipsElementType''"

fun et_default_status :: "element_type_impl \<Rightarrow> status_type" where
  "et_default_status SprintElementType = StatusType ''plan''"
| "et_default_status StoryElementType = StatusType ''plan''"
| "et_default_status TaskElementType = StatusType ''plan''"
| "et_default_status IdeaElementType = StatusType ''plan''"
| "et_default_status IssueElementType = StatusType ''plan''"
| "et_default_status TipsElementType = StatusType ''plan''"

definition element_types_impl_all :: "element_type_impl list" where
  "element_types_impl_all =
     [SprintElementType, StoryElementType, TaskElementType, IdeaElementType, IssueElementType,
      TipsElementType]"

subsection \<open>Element wrappers\<close>

datatype element_object =
    SprintElement (eo_inner: kanban_element)
  | StoryElement (eo_inner: kanban_element)
  | TaskElement (eo_inner: kanban_element)
  | IdeaElement (eo_inner: kanban_element)
  | IssueElement (eo_inner: kanban_element)
  | TipsElement (eo_inner: kanban_element)

definition sprint_element_new :: "instant \<Rightarrow> instant \<Rightarrow> string \<Rightarrow> string \<Rightarrow> element_object" where
  "sprint_element_new t t' title goal = SprintElement (new_sprint t t' title goal)"
definition story_element_new :: "instant \<Rightarrow> instant \<Rightarrow> string \<Rightarrow> string \<Rightarrow> element_object" where
  "story_element_new t t' title content = StoryElement (new_story t t' title content)"
definition task_element_new :: "instant \<Rightarrow> instant \<Rightarrow> string \<Rightarrow> element_object" where
  "task_element_new t t' title = TaskElement (new_task t t' title)"
definition idea_element_new :: "instant \<Rightarrow> instant \<Rightarrow> string \<Rightarrow> element_object" where
  "idea_element_new t t' title = IdeaElement (new_idea t t' title)"
definition issue_element_new :: "instant \<Rightarrow> instant \<Rightarrow> string \<Rightarrow> element_object" where
  "issue_element_new t t' title = IssueElement (new_issue t t' title)"

fun eo_element_type :: "element_object \<Rightarrow> element_type_identifier" where
  "eo_element_type (SprintElement _) = ElementTypeIdentifier ''sprint''"
| "eo_element_type (StoryElement _) = ElementTypeIdentifier ''story''"
| "eo_element_type (TaskElement _) = ElementTypeIdentifier ''task''"
| "eo_element_type (IdeaElement _) = ElementTypeIdentifier ''idea''"
| "eo_element_type (IssueElement _) = ElementTypeIdentifier ''issue''"
| "eo_element_type (TipsElement _) = ElementTypeIdentifier ''tips''"

fun eo_implementation_type :: "element_object \<Rightarrow> string" where
  "eo_implementation_type (SprintElement _) = ''SprintElement''"
| "eo_implementation_type (StoryElement _) = ''StoryElement''"
| "eo_implementation_type (TaskElement _) = ''TaskElement''"
| "eo_implementation_type (IdeaElement _) = ''IdeaElement''"
| "eo_implementation_type (IssueElement _) = ''IssueElement''"
| "eo_implementation_type (TipsElement _) = ''TipsElement''"

definition eo_id :: "element_object \<Rightarrow> element_id option" where
  "eo_id x = elem_id (eo_inner x)"

definition eo_status :: "element_object \<Rightarrow> status_type" where
  "eo_status x = to_status_type (elem_status (eo_inner x))"


definition sprint_element_goal :: "element_object \<Rightarrow> string" where
  "sprint_element_goal x = (case eo_inner x of ElSprint s \<Rightarrow> sprint_goal s | _ \<Rightarrow> [])"

definition sprint_element_start_date :: "element_object \<Rightarrow> string option" where
  "sprint_element_start_date x = (case eo_inner x of ElSprint s \<Rightarrow> sprint_start_date s | _ \<Rightarrow> None)"

definition sprint_element_end_date :: "element_object \<Rightarrow> string option" where
  "sprint_element_end_date x = (case eo_inner x of ElSprint s \<Rightarrow> sprint_end_date s | _ \<Rightarrow> None)"


fun eo_update :: "(kanban_element \<Rightarrow> kanban_element) \<Rightarrow> element_object \<Rightarrow> element_object" where
  "eo_update f (SprintElement e) = SprintElement (f e)"
| "eo_update f (StoryElement e) = StoryElement (f e)"
| "eo_update f (TaskElement e) = TaskElement (f e)"
| "eo_update f (IdeaElement e) = IdeaElement (f e)"
| "eo_update f (IssueElement e) = IssueElement (f e)"
| "eo_update f (TipsElement e) = TipsElement (f e)"



definition tips_element_target :: "element_object \<Rightarrow> element_id" where
  "tips_element_target x =
     (case eo_inner x of ElTips t \<Rightarrow> tips_target_task t | _ \<Rightarrow> element_id_new TyTask 0)"

definition tips_element_agent :: "element_object \<Rightarrow> string" where
  "tips_element_agent x = (case eo_inner x of ElTips t \<Rightarrow> tips_agent_id t | _ \<Rightarrow> [])"

subsection \<open>Registries\<close>

type_synonym status_registry = "kanban_status_impl hashmap"
type_synonym element_type_registry = "element_type_impl hashmap"
type_synonym element_registry = "element_object list"

definition sreg_register :: "kanban_status_impl \<Rightarrow> status_registry \<Rightarrow> status_registry" where
  "sreg_register s reg = AList.update (status_type_name (ks_status_type s)) s reg"
definition sreg_get :: "status_registry \<Rightarrow> status_type \<Rightarrow> kanban_status_impl option" where
  "sreg_get reg st = map_of reg (status_type_name st)"
definition sreg_contains :: "status_registry \<Rightarrow> status_type \<Rightarrow> bool" where
  "sreg_contains reg st \<longleftrightarrow> map_of reg (status_type_name st) \<noteq> None"
definition sreg_list_types :: "status_registry \<Rightarrow> status_type list" where
  "sreg_list_types reg = map (\<lambda>(k, _). StatusType k) reg"

definition treg_register :: "element_type_impl \<Rightarrow> element_type_registry \<Rightarrow> element_type_registry" where
  "treg_register ty reg = AList.update (element_type_name (et_element_type ty)) ty reg"
definition treg_get :: "element_type_registry \<Rightarrow> element_type_identifier \<Rightarrow> element_type_impl option" where
  "treg_get reg ti = map_of reg (element_type_name ti)"
definition treg_contains :: "element_type_registry \<Rightarrow> element_type_identifier \<Rightarrow> bool" where
  "treg_contains reg ti \<longleftrightarrow> map_of reg (element_type_name ti) \<noteq> None"
definition treg_list_types :: "element_type_registry \<Rightarrow> element_type_identifier list" where
  "treg_list_types reg = map (\<lambda>(k, _). ElementTypeIdentifier k) reg"

definition ereg_register :: "element_object \<Rightarrow> element_registry \<Rightarrow> element_registry" where
  "ereg_register x reg = reg @ [x]"
definition ereg_get_by_id :: "element_registry \<Rightarrow> element_id \<Rightarrow> element_object option" where
  "ereg_get_by_id reg i = find (\<lambda>x. eo_id x = Some i) reg"
definition ereg_list_by_type :: "element_registry \<Rightarrow> element_type_identifier \<Rightarrow> element_object list" where
  "ereg_list_by_type reg ti =
     filter (\<lambda>x. element_type_name (eo_element_type x) = element_type_name ti) reg"
definition ereg_list_by_status :: "element_registry \<Rightarrow> status_type \<Rightarrow> element_object list" where
  "ereg_list_by_status reg st =
     filter (\<lambda>x. status_type_name (eo_status x) = status_type_name st) reg"
definition ereg_delete :: "element_id \<Rightarrow> element_registry \<Rightarrow> element_registry" where
  "ereg_delete i reg = filter (\<lambda>x. eo_id x \<noteq> Some i) reg"

subsection \<open>The serialization proxy and the factory\<close>



definition can_create :: "element_type_identifier \<Rightarrow> bool" where
  "can_create ti \<longleftrightarrow>
     element_type_name ti \<in> {''sprint'', ''story'', ''task'', ''idea'', ''issue'', ''tips''}"

definition create_with_content ::
  "instant \<Rightarrow> instant \<Rightarrow> element_type_identifier \<Rightarrow> string \<Rightarrow> string \<Rightarrow> element_object option" where
  "create_with_content t t' ti title content =
     (let n = element_type_name ti in
      if n = ''sprint'' then Some (sprint_element_new t t' title content)
      else if n = ''story'' then Some (story_element_new t t' title content)
      else if n = ''task'' then Some (task_element_new t t' title)
      else if n = ''idea'' then Some (idea_element_new t t' title)
      else if n = ''issue'' then Some (issue_element_new t t' title)
      else None)"

definition create_object ::
  "instant \<Rightarrow> instant \<Rightarrow> element_type_identifier \<Rightarrow> string \<Rightarrow> element_object option" where
  "create_object t t' ti title =
     (let n = element_type_name ti in
      if n = ''sprint'' then Some (sprint_element_new t t' title [])
      else if n = ''story'' then Some (story_element_new t t' title [])
      else if n = ''task'' then Some (task_element_new t t' title)
      else if n = ''idea'' then Some (idea_element_new t t' title)
      else if n = ''issue'' then Some (issue_element_new t t' title)
      else None)"




subsection \<open>Builtins agree with the enums\<close>

fun status_of_impl :: "kanban_status_impl \<Rightarrow> status" where
  "status_of_impl PlanStatus = StPlan"
| "status_of_impl BacklogStatus = StBacklog"
| "status_of_impl BlockedStatus = StBlocked"
| "status_of_impl ReadyStatus = StReady"
| "status_of_impl TodoStatus = StTodo"
| "status_of_impl InProgressStatus = StInProgress"
| "status_of_impl DoneStatus = StDone"
| "status_of_impl VerifiedStatus = StVerified"

lemma builtin_status_agrees:
  "ks_status_type k = to_status_type (status_of_impl k) \<and>
   (ks_is_terminal k \<longleftrightarrow> status_is_terminal (status_of_impl k)) \<and>
   (ks_is_terminal k \<longleftrightarrow> valid_transitions (status_of_impl k) = [])"
  by (cases k) (simp_all add: to_status_type_def status_is_terminal_def)

lemma builtin_statuses_listed: "map ks_status_type statuses_impl_all = builtin_statuses_all"
  by (simp add: statuses_impl_all_def builtin_statuses_all_def)

lemma builtin_types_listed: "map et_element_type element_types_impl_all = builtin_element_types_all"
  by (simp add: element_types_impl_all_def builtin_element_types_all_def)

lemma sreg_lookup:
  "sreg_get (sreg_register s reg) st = (if st = ks_status_type s then Some s else sreg_get reg st)"
  by (auto simp: sreg_get_def sreg_register_def update_conv' status_type.expand)

lemma treg_lookup:
  "treg_get (treg_register s reg) ti = (if ti = et_element_type s then Some s else treg_get reg ti)"
  by (auto simp: treg_get_def treg_register_def update_conv' element_type_identifier.expand)

lemma ereg_delete_lookup:
  "ereg_get_by_id (ereg_delete i reg) j = (if j = i then None else ereg_get_by_id reg j)"
  by (induction reg) (auto simp: ereg_get_by_id_def ereg_delete_def)

text \<open>Registering an id a second time does not replace the element found under it.\<close>

lemma ereg_register_keeps:
  "ereg_get_by_id reg i = Some x \<Longrightarrow> ereg_get_by_id (ereg_register y reg) i = Some x"
  by (induction reg) (auto simp: ereg_get_by_id_def ereg_register_def split: if_splits)

subsection \<open>Round trip through the proxy\<close>


lemma eo_inner_update [simp]: "eo_inner (eo_update f x) = f (eo_inner x)"
  by (cases x) simp_all

lemma eo_element_type_update [simp]: "eo_element_type (eo_update f x) = eo_element_type x"
  by (cases x) simp_all








subsection \<open>Properties\<close>



end
