(* ===== verification/Decision_Types.thy ===== *)
theory Decision_Types
  imports Agent_Types Rust_Strings
begin

text \<open>
  The vocabulary of the decision layer: \<open>decision/src/core/types.rs\<close>, and the trait objects of
  \<open>decision/src/model/situation/situation.rs\<close> and \<open>decision/src/model/action/action.rs\<close>. A trait
  object is the record of the values its methods return. Urgencies carry the order in which the
  human decision queue serves them.
\<close>

subsection \<open>Type identifiers\<close>

record situation_type =
  st_name :: string
  st_subtype :: "string option"

definition situation_new :: "string \<Rightarrow> situation_type" where
  "situation_new n = \<lparr>st_name = n, st_subtype = None\<rparr>"

definition situation_with_subtype :: "string \<Rightarrow> string \<Rightarrow> situation_type" where
  "situation_with_subtype n s = \<lparr>st_name = n, st_subtype = Some s\<rparr>"

definition situation_base :: "situation_type \<Rightarrow> situation_type" where
  "situation_base t = (if st_subtype t \<noteq> None then situation_new (st_name t) else t)"

definition situation_matches :: "situation_type \<Rightarrow> situation_type \<Rightarrow> bool" where
  "situation_matches a b \<longleftrightarrow> a = b \<or> situation_base a = situation_base b"

definition situation_display :: "situation_type \<Rightarrow> string" where
  "situation_display t = (case st_subtype t of
      Some s \<Rightarrow> st_name t @ ''.'' @ s
    | None \<Rightarrow> st_name t)"

datatype action_type = ActionType (action_name: string)

lemma situation_base_idem [simp]: "situation_base (situation_base t) = situation_base t"
  by (simp add: situation_base_def situation_new_def)

text \<open>\<open>matches\<close> compares the names only, so it is an equivalence whose classes are the names.\<close>

lemma situation_matches_name: "situation_matches a b \<longleftrightarrow> st_name a = st_name b"
  by (cases a; cases b) (auto simp: situation_matches_def situation_base_def situation_new_def)

subsection \<open>Urgency\<close>

datatype urgency_level = UrgencyLow | UrgencyMedium | UrgencyHigh | UrgencyCritical

fun urgency_display :: "urgency_level \<Rightarrow> string" where
  "urgency_display UrgencyLow = ''low''"
| "urgency_display UrgencyMedium = ''medium''"
| "urgency_display UrgencyHigh = ''high''"
| "urgency_display UrgencyCritical = ''critical''"

fun urgency_rank :: "urgency_level \<Rightarrow> nat" where
  "urgency_rank UrgencyLow = 0"
| "urgency_rank UrgencyMedium = 1"
| "urgency_rank UrgencyHigh = 2"
| "urgency_rank UrgencyCritical = 3"

lemma urgency_rank_inj [simp]: "urgency_rank u = urgency_rank v \<longleftrightarrow> u = v"
  by (cases u; cases v) auto

instantiation urgency_level :: linorder
begin

definition less_eq_urgency_level :: "urgency_level \<Rightarrow> urgency_level \<Rightarrow> bool" where
  "less_eq_urgency_level u v \<longleftrightarrow> urgency_rank u \<le> urgency_rank v"

definition less_urgency_level :: "urgency_level \<Rightarrow> urgency_level \<Rightarrow> bool" where
  "less_urgency_level u v \<longleftrightarrow> urgency_rank u < urgency_rank v"

instance
  by standard (auto simp: less_eq_urgency_level_def less_urgency_level_def)

end

lemmas urgency_order = less_eq_urgency_level_def less_urgency_level_def

subsection \<open>Engine types and ids\<close>

datatype engine_type =
    EngineLLM provider_kind
  | EngineCLI provider_kind
  | EngineRuleBased
  | EngineMock
  | EngineCustom string

fun engine_is_llm :: "engine_type \<Rightarrow> bool" where
  "engine_is_llm (EngineLLM _) = True"
| "engine_is_llm _ = False"

fun engine_is_cli :: "engine_type \<Rightarrow> bool" where
  "engine_is_cli (EngineCLI _) = True"
| "engine_is_cli _ = False"

fun engine_display :: "engine_type \<Rightarrow> string" where
  "engine_display (EngineLLM p) = ''llm:'' @ provider_display_name p"
| "engine_display (EngineCLI p) = ''cli:'' @ provider_display_name p"
| "engine_display EngineRuleBased = ''rule_based''"
| "engine_display EngineMock = ''mock''"
| "engine_display (EngineCustom n) = ''custom:'' @ n"

text \<open>\<open>generate_id\<close> with its prefix, at a reading of the clock in milliseconds.\<close>

definition generate_id :: "string \<Rightarrow> int \<Rightarrow> string" where
  "generate_id pre now = pre @ ''-'' @ int_to_string now"

subsection \<open>Situations and actions\<close>

record choice_option =
  co_id :: string
  co_label :: string
  co_description :: "string option"

definition choice_new :: "string \<Rightarrow> string \<Rightarrow> choice_option" where
  "choice_new i l = \<lparr>co_id = i, co_label = l, co_description = None\<rparr>"

record completion_progress =
  cp_completed :: "string list"
  cp_remaining :: "string list"
  cp_minutes :: "u64 option"

record error_info =
  ei_type :: string
  ei_message :: string
  ei_recoverable :: bool
  ei_retry_count :: u8

definition error_info_new :: "string \<Rightarrow> string \<Rightarrow> error_info" where
  "error_info_new t m = \<lparr>ei_type = t, ei_message = m, ei_recoverable = True, ei_retry_count = 0\<rparr>"

record decision_situation =
  sit_type :: situation_type
  sit_implementation :: string
  sit_requires_human :: bool
  sit_human_urgency :: urgency_level
  sit_prompt_text :: string
  sit_available_actions :: "action_type list"
  sit_error_info :: "error_info option"
  sit_params :: "string option"

text \<open>\<open>debug_info\<close>, the default method of the trait.\<close>

definition sit_debug_info :: "decision_situation \<Rightarrow> string" where
  "sit_debug_info s = sit_implementation s @ '' ('' @ situation_display (sit_type s) @ '')''"

record decision_action =
  act_type :: action_type
  act_implementation :: string
  act_prompt_format :: string
  act_params :: string

datatype action_result =
    ActionSuccess
  | NeedsFollowUp "action_type option"
  | Delegated string
  | ActionFailed string
  | NeedsHumanConfirmation string

end
