(* ===== verification/Decision_Blocking.thy ===== *)
theory Decision_Blocking
  imports Decision_Types "HOL-Library.Signed_Division"
begin

text \<open>
  The first half of \<open>decision/src/state/blocking.rs\<close>: why an agent is blocked. The trait
  \<open>BlockingReason\<close> has three implementations, here the constructors of one datatype, and one
  function per method. Dates come from the crate \<open>chrono\<close>: what the code uses of it is the record
  \<open>chrono_ops\<close>, and \<open>chrono_ok\<close> states its documented behaviour (differences are exact and their
  whole seconds, minutes and milliseconds are rounded toward zero). Where \<open>chrono\<close> panics because a
  date leaves its range is not modelled.
\<close>

subsection \<open>Dates\<close>

record chrono_ops =
  ch_seconds :: "instant \<Rightarrow> instant \<Rightarrow> int"
  ch_minutes :: "instant \<Rightarrow> instant \<Rightarrow> int"
  ch_millis :: "instant \<Rightarrow> instant \<Rightarrow> int"
  ch_add_millis :: "instant \<Rightarrow> int \<Rightarrow> instant"

definition chrono_ok :: "chrono_ops \<Rightarrow> bool" where
  "chrono_ok C \<longleftrightarrow>
     (\<forall>a b. ch_seconds C a b = (int a - int b) sdiv 1000000000) \<and>
     (\<forall>a b. ch_minutes C a b = (int a - int b) sdiv 60000000000) \<and>
     (\<forall>a b. ch_millis C a b = (int a - int b) sdiv 1000000) \<and>
     (\<forall>a d. ch_add_millis C a d = nat (int a + d * 1000000))"

definition sample_chrono :: chrono_ops where
  "sample_chrono =
     \<lparr>ch_seconds = (\<lambda>a b. (int a - int b) sdiv 1000000000),
      ch_minutes = (\<lambda>a b. (int a - int b) sdiv 60000000000),
      ch_millis = (\<lambda>a b. (int a - int b) sdiv 1000000),
      ch_add_millis = (\<lambda>a d. nat (int a + d * 1000000))\<rparr>"

lemma sample_chrono_ok [simp]: "chrono_ok sample_chrono"
  by (simp add: chrono_ok_def sample_chrono_def)

text \<open>\<open>n as u64\<close> of an \<open>i64\<close>: the bits are kept, so a negative number becomes a large one.\<close>

definition as_u64 :: "int \<Rightarrow> u64" where
  "as_u64 n = word_of_int n"

text \<open>\<open>n as i64\<close> of a \<open>u64\<close>.\<close>

definition as_i64 :: "u64 \<Rightarrow> int" where
  "as_i64 n = sint n"

lemma uint_as_u64: "0 \<le> n \<Longrightarrow> n < 2 ^ 64 \<Longrightarrow> uint (as_u64 n) = n"
  by (simp add: as_u64_def uint_word_of_int)

lemma uint_as_u64_neg: "n < 0 \<Longrightarrow> - (2 ^ 63) \<le> n \<Longrightarrow> uint (as_u64 n) = n + 2 ^ 64"
proof -
  assume "n < 0" "- (2 ^ 63) \<le> n"
  then have "n mod 2 ^ 64 = n + 2 ^ 64"
    by (subst mod_add_self2 [symmetric], intro mod_pos_pos_trivial) simp_all
  then show ?thesis by (simp add: as_u64_def uint_word_of_int)
qed

subsection \<open>Reasons\<close>

datatype auto_action =
    FollowRecommendation | SelectDefault | CancelAction | MarkTaskFailed | ReleaseResource

record human_decision_blocking =
  hb_request_id :: string
  hb_situation :: decision_situation
  hb_options :: "choice_option list"
  hb_recommendation :: "decision_action option"
  hb_expires_at :: instant

record resource_blocking =
  rb_type :: string
  rb_id :: string
  rb_wait_reason :: string

record rate_limit_reason =
  rl_started_at :: instant
  rl_last_retry_at :: "instant option"
  rl_retry_count :: "32 word"
  rl_interval_secs :: u64

datatype blocking_reason =
    HumanDecision human_decision_blocking
  | ResourceWaiting resource_blocking
  | RateLimit rate_limit_reason

definition human_blocking_new ::
  "chrono_ops \<Rightarrow> instant \<Rightarrow> string \<Rightarrow> decision_situation \<Rightarrow> choice_option list \<Rightarrow> human_decision_blocking"
where
  "human_blocking_new C now i sit opts =
     \<lparr>hb_request_id = i, hb_situation = sit, hb_options = opts, hb_recommendation = None,
      hb_expires_at = ch_add_millis C now 3600000\<rparr>"

definition rate_limit_new :: "instant \<Rightarrow> rate_limit_reason" where
  "rate_limit_new t = \<lparr>rl_started_at = t, rl_last_retry_at = None, rl_retry_count = 0,
     rl_interval_secs = 1800\<rparr>"

definition elapsed_minutes :: "chrono_ops \<Rightarrow> instant \<Rightarrow> rate_limit_reason \<Rightarrow> int" where
  "elapsed_minutes C now r = ch_minutes C now (rl_started_at r)"

definition can_retry_now :: "chrono_ops \<Rightarrow> instant \<Rightarrow> rate_limit_reason \<Rightarrow> bool" where
  "can_retry_now C now r = (case rl_last_retry_at r of
      Some prev \<Rightarrow> rl_interval_secs r \<le> as_u64 (ch_seconds C now prev)
    | None \<Rightarrow> True)"

text \<open>\<open>retry_count += 1\<close> on a \<open>u32\<close> panics on overflow in a checked build: \<open>None\<close>.\<close>

definition record_retry :: "instant \<Rightarrow> rate_limit_reason \<Rightarrow> rate_limit_reason option" where
  "record_retry now r =
     (if rl_retry_count r = - 1 then None
      else Some (r\<lparr>rl_last_retry_at := Some now, rl_retry_count := rl_retry_count r + 1\<rparr>))"

subsection \<open>The methods of the trait\<close>

fun reason_type :: "blocking_reason \<Rightarrow> string" where
  "reason_type (HumanDecision _) = ''human_decision''"
| "reason_type (ResourceWaiting _) = ''resource_waiting''"
| "reason_type (RateLimit _) = ''rate_limit''"

fun reason_urgency :: "blocking_reason \<Rightarrow> urgency_level" where
  "reason_urgency (HumanDecision h) = sit_human_urgency (hb_situation h)"
| "reason_urgency (ResourceWaiting _) = UrgencyLow"
| "reason_urgency (RateLimit _) = UrgencyLow"

fun reason_expires_at :: "blocking_reason \<Rightarrow> instant option" where
  "reason_expires_at (HumanDecision h) = Some (hb_expires_at h)"
| "reason_expires_at (ResourceWaiting _) = None"
| "reason_expires_at (RateLimit _) = None"

fun can_auto_resolve :: "blocking_reason \<Rightarrow> bool" where
  "can_auto_resolve (HumanDecision h) \<longleftrightarrow> hb_recommendation h \<noteq> None \<or> hb_options h \<noteq> []"
| "can_auto_resolve (ResourceWaiting _) = True"
| "can_auto_resolve (RateLimit _) = False"

fun auto_resolve_action :: "blocking_reason \<Rightarrow> auto_action option" where
  "auto_resolve_action (HumanDecision h) =
     (if hb_recommendation h \<noteq> None then Some FollowRecommendation
      else if hb_options h \<noteq> [] then Some SelectDefault
      else None)"
| "auto_resolve_action (ResourceWaiting _) = None"
| "auto_resolve_action (RateLimit _) = None"

text \<open>The sleeping-face sign in the description of a rate limit is four bytes of UTF-8.\<close>

definition zzz :: string where
  "zzz = [CHR 0xF0, CHR 0x9F, CHR 0x92, CHR 0xA4]"

fun reason_description :: "chrono_ops \<Rightarrow> instant \<Rightarrow> blocking_reason \<Rightarrow> string" where
  "reason_description C now (HumanDecision h) =
     ''Waiting for human decision: '' @ situation_display (sit_type (hb_situation h))"
| "reason_description C now (ResourceWaiting r) = ''Waiting for '' @ rb_type r @ '': '' @ rb_id r"
| "reason_description C now (RateLimit r) =
     zzz @ '' Rate limited ('' @ int_to_string (elapsed_minutes C now r) @ '' min)''"

fun as_rate_limit_reason :: "blocking_reason \<Rightarrow> rate_limit_reason option" where
  "as_rate_limit_reason (RateLimit r) = Some r"
| "as_rate_limit_reason _ = None"

subsection \<open>Blocked states\<close>

record blocking_context =
  bc_task_id :: "string option"
  bc_story_id :: "string option"
  bc_info :: "string hashmap"

definition blocking_context_new :: blocking_context where
  "blocking_context_new = \<lparr>bc_task_id = None, bc_story_id = None, bc_info = []\<rparr>"

definition context_with_info :: "string \<Rightarrow> string \<Rightarrow> blocking_context \<Rightarrow> blocking_context" where
  "context_with_info k v c = c\<lparr>bc_info := AList.update k v (bc_info c)\<rparr>"

record blocked_state =
  bs_reason :: blocking_reason
  bs_blocked_at :: instant
  bs_context :: blocking_context

definition blocked_state_new :: "instant \<Rightarrow> blocking_reason \<Rightarrow> blocked_state" where
  "blocked_state_new now r =
     \<lparr>bs_reason = r, bs_blocked_at = now, bs_context = blocking_context_new\<rparr>"

definition is_rate_limit :: "blocked_state \<Rightarrow> bool" where
  "is_rate_limit b \<longleftrightarrow> reason_type (bs_reason b) = ''rate_limit''"

definition blocked_is_expired :: "instant \<Rightarrow> blocked_state \<Rightarrow> bool" where
  "blocked_is_expired now b = (case reason_expires_at (bs_reason b) of
      Some e \<Rightarrow> e < now
    | None \<Rightarrow> False)"

datatype decision_agent_status =
    DasRunning | DasBlocked blocked_state | DasIdle | DasStopped

fun das_blocked_state :: "decision_agent_status \<Rightarrow> blocked_state option" where
  "das_blocked_state (DasBlocked b) = Some b"
| "das_blocked_state _ = None"

subsection \<open>Facts\<close>

lemma is_rate_limit_iff: "is_rate_limit b \<longleftrightarrow> as_rate_limit_reason (bs_reason b) \<noteq> None"
  by (cases "bs_reason b") (auto simp: is_rate_limit_def)

lemma only_human_expires: "blocked_is_expired now b \<Longrightarrow> reason_type (bs_reason b) = ''human_decision''"
  by (cases "bs_reason b") (auto simp: blocked_is_expired_def)

text \<open>
  \<open>can_auto_resolve\<close> promises an action except for a resource: it says that a wait for a resource
  can be resolved, but there is no action to do it.
\<close>

lemma auto_resolve_agrees:
  "(auto_resolve_action r \<noteq> None) = (can_auto_resolve r \<and> reason_type r \<noteq> ''resource_waiting'')"
  by (cases r) auto

text \<open>A retry waits for its interval when the clock goes forward, and does not when it is set back.\<close>

lemma sdiv_nonneg: "0 \<le> a \<Longrightarrow> 0 < b \<Longrightarrow> (a::int) sdiv b = a div b"
  by (cases "a = 0") (simp_all add: signed_divide_int_def)

lemma sdiv_int: "int a sdiv 1000000000 = int (a div 1000000000)"
  by (simp add: sdiv_nonneg zdiv_int)

lemma sdiv_neg: "0 < b \<Longrightarrow> (- a::int) sdiv b = - (a sdiv b)"
  by (simp add: signed_divide_int_def)

lemma chrono_seconds: "chrono_ok C \<Longrightarrow> ch_seconds C a b = (int a - int b) sdiv 1000000000"
  by (simp add: chrono_ok_def)

lemma seconds_forward:
  assumes "chrono_ok C" "prev \<le> now"
  shows "ch_seconds C now prev = int ((now - prev) div 1000000000)"
proof -
  have "int now - int prev = int (now - prev)" using assms(2) by (rule of_nat_diff [symmetric])
  then have "ch_seconds C now prev = int (now - prev) sdiv 1000000000"
    using chrono_seconds [OF assms(1)] by metis
  then show ?thesis by (simp only: sdiv_int)
qed

lemma seconds_backward:
  assumes "chrono_ok C" "now \<le> prev"
  shows "ch_seconds C now prev = - int ((prev - now) div 1000000000)"
proof -
  have "int prev - int now = int (prev - now)" using assms(2) by (rule of_nat_diff [symmetric])
  then have "int now - int prev = - int (prev - now)" by linarith
  then have "ch_seconds C now prev = - int (prev - now) sdiv 1000000000"
    using chrono_seconds [OF assms(1)] by metis
  then show ?thesis by (simp only: sdiv_neg sdiv_int zero_less_numeral)
qed

end
