(* ===== verification/Human_Queue.thy ===== *)
theory Human_Queue
  imports Decision_Blocking "HOL-Library.Multiset"
begin

text \<open>
  The second half of \<open>decision/src/state/blocking.rs\<close>: requests to a human, their time-outs, and
  \<open>HumanDecisionQueue\<close>, four vectors by urgency with an index from request ids to urgencies. The
  locale \<open>decision_queue\<close> states what its client, the worker pool, relies on: the pending requests
  are one list in the order of service, and every operation is a simple function on that list.
\<close>

subsection \<open>Requests and responses\<close>

record recommendation =
  rec_action_type :: string
  rec_action_params :: string
  rec_reasoning :: string
  rec_confidence :: "64 word"

record decision_request =
  hr_id :: string
  hr_agent_id :: string
  hr_situation_type :: situation_type
  hr_description :: string
  hr_options :: "choice_option list"
  hr_recommendation :: "recommendation option"
  hr_urgency :: urgency_level
  hr_created_at :: instant
  hr_expires_at :: instant
  hr_context :: blocking_context

definition request_new ::
  "chrono_ops \<Rightarrow> instant \<Rightarrow> string \<Rightarrow> string \<Rightarrow> situation_type \<Rightarrow> choice_option list \<Rightarrow> urgency_level \<Rightarrow> u64 \<Rightarrow>
   decision_request"
where
  "request_new C now i agent sit opts urg timeout =
     \<lparr>hr_id = i, hr_agent_id = agent, hr_situation_type = sit, hr_description = [], hr_options = opts,
      hr_recommendation = None, hr_urgency = urg, hr_created_at = now,
      hr_expires_at = ch_add_millis C now (as_i64 timeout), hr_context = blocking_context_new\<rparr>"

definition request_is_expired :: "instant \<Rightarrow> decision_request \<Rightarrow> bool" where
  "request_is_expired now r \<longleftrightarrow> hr_expires_at r < now"

definition remaining_seconds :: "chrono_ops \<Rightarrow> instant \<Rightarrow> decision_request \<Rightarrow> int" where
  "remaining_seconds C now r = max (ch_seconds C (hr_expires_at r) now) 0"

datatype human_selection =
    Selected string
  | AcceptedRecommendation
  | CustomInstruction string
  | Skipped
  | Cancelled

record decision_response =
  hp_request_id :: string
  hp_selection :: human_selection
  hp_responded_at :: instant
  hp_time_ms :: u64

definition response_new :: "instant \<Rightarrow> string \<Rightarrow> human_selection \<Rightarrow> decision_response" where
  "response_new now i sel =
     \<lparr>hp_request_id = i, hp_selection = sel, hp_responded_at = now, hp_time_ms = 0\<rparr>"

definition with_response_time :: "chrono_ops \<Rightarrow> instant \<Rightarrow> decision_response \<Rightarrow> decision_response" where
  "with_response_time C created r =
     r\<lparr>hp_time_ms := as_u64 (ch_millis C (hp_responded_at r) created)\<rparr>"

record timeout_config =
  tc_default :: u64
  tc_high :: u64
  tc_critical :: u64
  tc_low :: u64
  tc_warning :: u64
  tc_timeout_default :: auto_action

definition timeout_config_default :: timeout_config where
  "timeout_config_default =
     \<lparr>tc_default = 3600000, tc_high = 1800000, tc_critical = 900000, tc_low = 7200000,
      tc_warning = 60000, tc_timeout_default = FollowRecommendation\<rparr>"

fun timeout_for_urgency :: "timeout_config \<Rightarrow> urgency_level \<Rightarrow> u64" where
  "timeout_for_urgency c UrgencyCritical = tc_critical c"
| "timeout_for_urgency c UrgencyHigh = tc_high c"
| "timeout_for_urgency c UrgencyMedium = tc_default c"
| "timeout_for_urgency c UrgencyLow = tc_low c"

subsection \<open>The queue\<close>

record human_queue =
  hq_critical :: "decision_request list"
  hq_high :: "decision_request list"
  hq_medium :: "decision_request list"
  hq_low :: "decision_request list"
  hq_index :: "urgency_level hashmap"
  hq_history :: "decision_response list"
  hq_config :: timeout_config

definition hq_new :: "timeout_config \<Rightarrow> human_queue" where
  "hq_new c = \<lparr>hq_critical = [], hq_high = [], hq_medium = [], hq_low = [], hq_index = [],
     hq_history = [], hq_config = c\<rparr>"

fun queue_of :: "urgency_level \<Rightarrow> human_queue \<Rightarrow> decision_request list" where
  "queue_of UrgencyCritical q = hq_critical q"
| "queue_of UrgencyHigh q = hq_high q"
| "queue_of UrgencyMedium q = hq_medium q"
| "queue_of UrgencyLow q = hq_low q"

fun set_queue :: "urgency_level \<Rightarrow> decision_request list \<Rightarrow> human_queue \<Rightarrow> human_queue" where
  "set_queue UrgencyCritical xs q = q\<lparr>hq_critical := xs\<rparr>"
| "set_queue UrgencyHigh xs q = q\<lparr>hq_high := xs\<rparr>"
| "set_queue UrgencyMedium xs q = q\<lparr>hq_medium := xs\<rparr>"
| "set_queue UrgencyLow xs q = q\<lparr>hq_low := xs\<rparr>"

definition hq_push :: "decision_request \<Rightarrow> human_queue \<Rightarrow> human_queue" where
  "hq_push r q =
     (let q1 = set_queue (hr_urgency r) (queue_of (hr_urgency r) q @ [r]) q
      in q1\<lparr>hq_index := AList.update (hr_id r) (hr_urgency r) (hq_index q1)\<rparr>)"

text \<open>\<open>iter().position(p).map(|pos| queue.remove(pos))\<close>.\<close>

fun take_first :: "('a \<Rightarrow> bool) \<Rightarrow> 'a list \<Rightarrow> ('a \<times> 'a list) option" where
  "take_first p [] = None"
| "take_first p (x # xs) =
     (if p x then Some (x, xs)
      else case take_first p xs of Some (y, ys) \<Rightarrow> Some (y, x # ys) | None \<Rightarrow> None)"

text \<open>\<open>pop\<close> and \<open>find_and_remove_by_agent_id\<close> try the queues in the same order.\<close>

definition service_order :: "urgency_level list" where
  "service_order = [UrgencyCritical, UrgencyHigh, UrgencyMedium, UrgencyLow]"

fun remove_in ::
  "urgency_level list \<Rightarrow> (decision_request \<Rightarrow> bool) \<Rightarrow> human_queue \<Rightarrow> decision_request option \<times> human_queue"
where
  "remove_in [] p q = (None, q)"
| "remove_in (u # us) p q =
     (case take_first p (queue_of u q) of
        Some (r, rest) \<Rightarrow>
          (Some r, (set_queue u rest q)\<lparr>hq_index := AList.delete (hr_id r) (hq_index q)\<rparr>)
      | None \<Rightarrow> remove_in us p q)"

definition hq_pop :: "human_queue \<Rightarrow> decision_request option \<times> human_queue" where
  "hq_pop = remove_in service_order (\<lambda>_. True)"

definition hq_take_agent :: "string \<Rightarrow> human_queue \<Rightarrow> decision_request option \<times> human_queue" where
  "hq_take_agent a = remove_in service_order (\<lambda>r. hr_agent_id r = a)"

fun find_in ::
  "urgency_level list \<Rightarrow> (decision_request \<Rightarrow> bool) \<Rightarrow> human_queue \<Rightarrow> decision_request option" where
  "find_in [] p q = None"
| "find_in (u # us) p q = (case find p (queue_of u q) of Some r \<Rightarrow> Some r | None \<Rightarrow> find_in us p q)"

definition hq_peek :: "human_queue \<Rightarrow> decision_request option" where
  "hq_peek = find_in service_order (\<lambda>_. True)"

definition hq_find_agent :: "string \<Rightarrow> human_queue \<Rightarrow> decision_request option" where
  "hq_find_agent a = find_in service_order (\<lambda>r. hr_agent_id r = a)"

definition hq_find_and_remove :: "string \<Rightarrow> human_queue \<Rightarrow> decision_request option \<times> human_queue" where
  "hq_find_and_remove i q =
     (case map_of (hq_index q) i of
        None \<Rightarrow> (None, q)
      | Some u \<Rightarrow>
          let q1 = q\<lparr>hq_index := AList.delete i (hq_index q)\<rparr>
          in (case take_first (\<lambda>r. hr_id r = i) (queue_of u q1) of
                Some (r, rest) \<Rightarrow> (Some r, set_queue u rest q1)
              | None \<Rightarrow> (None, q1)))"

definition hq_complete :: "decision_response \<Rightarrow> human_queue \<Rightarrow> bool \<times> human_queue" where
  "hq_complete resp q =
     (case hq_find_and_remove (hp_request_id resp) q of
        (Some r, q') \<Rightarrow> (True, q'\<lparr>hq_history := hq_history q' @ [resp]\<rparr>)
      | (None, q') \<Rightarrow> (False, q'))"

definition hq_all_requests :: "human_queue \<Rightarrow> decision_request list" where
  "hq_all_requests q = hq_critical q @ hq_high q @ hq_medium q @ hq_low q"

definition hq_check_expired :: "instant \<Rightarrow> human_queue \<Rightarrow> decision_request list \<times> human_queue" where
  "hq_check_expired now q =
     (let expired = filter (request_is_expired now) (hq_all_requests q)
      in (expired, fold (\<lambda>r q. snd (hq_find_and_remove (hr_id r) q)) expired q))"

definition hq_approaching :: "chrono_ops \<Rightarrow> instant \<Rightarrow> human_queue \<Rightarrow> decision_request list" where
  "hq_approaching C now q =
     (let threshold = ch_add_millis C now (as_i64 (tc_warning (hq_config q)))
      in filter (\<lambda>r. hr_expires_at r < threshold \<and> \<not> request_is_expired now r) (hq_all_requests q))"

definition hq_total_pending :: "human_queue \<Rightarrow> nat" where
  "hq_total_pending q = length (hq_critical q) + length (hq_high q) + length (hq_medium q) + length (hq_low q)"

definition hq_clear :: "human_queue \<Rightarrow> human_queue" where
  "hq_clear q = q\<lparr>hq_critical := [], hq_high := [], hq_medium := [], hq_low := [], hq_index := [],
     hq_history := []\<rparr>"

subsection \<open>The abstract queue\<close>

text \<open>
  What a client sees is one list of pending requests, the next one first. A request enters behind
  those that are at least as urgent; a step answers with the requests it takes out.
\<close>

datatype queue_step =
    StepPush decision_request
  | StepPop
  | StepTakeAgent string
  | StepComplete decision_response
  | StepExpire instant

definition enqueue :: "decision_request \<Rightarrow> decision_request list \<Rightarrow> decision_request list" where
  "enqueue r P =
     filter (\<lambda>x. hr_urgency r \<le> hr_urgency x) P @ r # filter (\<lambda>x. hr_urgency x < hr_urgency r) P"

definition take_out :: "(decision_request \<times> decision_request list) option \<Rightarrow> decision_request list \<Rightarrow>
    decision_request list \<times> decision_request list" where
  "take_out t P = (case t of Some (r, rest) \<Rightarrow> ([r], rest) | None \<Rightarrow> ([], P))"

fun queue_spec :: "queue_step \<Rightarrow> decision_request list \<Rightarrow> decision_request list \<times> decision_request list" where
  "queue_spec (StepPush r) P = ([], enqueue r P)"
| "queue_spec StepPop P = take_out (take_first (\<lambda>_. True) P) P"
| "queue_spec (StepTakeAgent a) P = take_out (take_first (\<lambda>r. hr_agent_id r = a) P) P"
| "queue_spec (StepComplete p) P = take_out (take_first (\<lambda>r. hr_id r = hp_request_id p) P) P"
| "queue_spec (StepExpire now) P =
     (filter (request_is_expired now) P, filter (\<lambda>r. \<not> request_is_expired now r) P)"

fun step_admissible :: "queue_step \<Rightarrow> decision_request list \<Rightarrow> bool" where
  "step_admissible (StepPush r) P \<longleftrightarrow> hr_id r \<notin> hr_id ` set P"
| "step_admissible _ P \<longleftrightarrow> True"

fun pushed_by :: "queue_step \<Rightarrow> decision_request list" where
  "pushed_by (StepPush r) = [r]"
| "pushed_by _ = []"

fun hq_step :: "queue_step \<Rightarrow> human_queue \<Rightarrow> decision_request list \<times> human_queue" where
  "hq_step (StepPush r) q = ([], hq_push r q)"
| "hq_step StepPop q = (case hq_pop q of (r, q') \<Rightarrow> (case r of Some x \<Rightarrow> [x] | None \<Rightarrow> [], q'))"
| "hq_step (StepTakeAgent a) q =
     (case hq_take_agent a q of (r, q') \<Rightarrow> (case r of Some x \<Rightarrow> [x] | None \<Rightarrow> [], q'))"
| "hq_step (StepComplete p) q =
     (if fst (hq_complete p q)
      then (case fst (hq_find_and_remove (hp_request_id p) q) of Some x \<Rightarrow> [x] | None \<Rightarrow> [])
      else [], snd (hq_complete p q))"
| "hq_step (StepExpire now) q = hq_check_expired now q"

text \<open>Runs of steps, of a queue and of its specification; the answers are collected.\<close>

fun run_steps :: "('s \<Rightarrow> 'q \<Rightarrow> 'r list \<times> 'q) \<Rightarrow> 's list \<Rightarrow> 'q \<Rightarrow> 'r list \<times> 'q" where
  "run_steps f [] q = ([], q)"
| "run_steps f (s # ss) q =
     (case f s q of (out, q1) \<Rightarrow> case run_steps f ss q1 of (outs, q2) \<Rightarrow> (out @ outs, q2))"

fun run_admissible :: "queue_step list \<Rightarrow> decision_request list \<Rightarrow> bool" where
  "run_admissible [] P \<longleftrightarrow> True"
| "run_admissible (s # ss) P \<longleftrightarrow> step_admissible s P \<and> run_admissible ss (snd (queue_spec s P))"

subsection \<open>Facts about lists\<close>

lemma take_first_None: "take_first p xs = None \<longleftrightarrow> (\<forall>x \<in> set xs. \<not> p x)"
  by (induction xs) (auto split: option.splits)

lemma take_first_Some:
  "take_first p xs = Some (x, rest) \<Longrightarrow>
   p x \<and> (\<exists>ys zs. xs = ys @ x # zs \<and> rest = ys @ zs \<and> (\<forall>y \<in> set ys. \<not> p y))"
proof (induction xs arbitrary: rest)
  case Nil
  then show ?case by simp
next
  case (Cons a xs)
  show ?case
  proof (cases "p a")
    case True
    with Cons.prems show ?thesis by (intro conjI exI [of _ "[]"] exI [of _ xs]) auto
  next
    case False
    with Cons.prems obtain rest' where t: "take_first p xs = Some (x, rest')" "rest = a # rest'"
      by (auto split: option.splits)
    from Cons.IH [OF t(1)] obtain ys zs
      where "p x" "xs = ys @ x # zs" "rest' = ys @ zs" "\<forall>y \<in> set ys. \<not> p y" by blast
    with t(2) False show ?thesis by (intro conjI exI [of _ "a # ys"] exI [of _ zs]) auto
  qed
qed

lemma take_first_append:
  "take_first p (xs @ ys) =
     (case take_first p xs of
        Some (x, rest) \<Rightarrow> Some (x, rest @ ys)
      | None \<Rightarrow> (case take_first p ys of Some (y, rest) \<Rightarrow> Some (y, xs @ rest) | None \<Rightarrow> None))"
  by (induction xs) (auto split: option.splits)

lemma take_first_find: "map_option fst (take_first p xs) = find p xs"
  by (induction xs) (auto split: option.splits)

lemma find_key_iff: "k \<in> f ` set xs \<longleftrightarrow> find (\<lambda>x. f x = k) xs \<noteq> None"
  by (induction xs) auto

lemma take_first_filter:
  "distinct (map f xs) \<Longrightarrow> take_first (\<lambda>x. f x = k) xs =
     (case find (\<lambda>x. f x = k) xs of
        Some x \<Rightarrow> Some (x, filter (\<lambda>y. f y \<noteq> k) xs)
      | None \<Rightarrow> None)"
proof (induction xs)
  case Nil
  then show ?case by simp
next
  case (Cons a xs)
  have "filter (\<lambda>y. f y \<noteq> f a) xs = xs" 
    using Cons.prems by (intro filter_True ballI notI) (metis distinct.simps(2) imageI list.map(2) set_map)
  with Cons show ?case by (auto split: option.splits)
qed

subsection \<open>The invariant of the four vectors\<close>

definition hq_ok :: "human_queue \<Rightarrow> bool" where
  "hq_ok q \<longleftrightarrow>
     (\<forall>u. \<forall>r \<in> set (queue_of u q). hr_urgency r = u) \<and>
     distinct (map hr_id (hq_all_requests q)) \<and>
     (\<forall>i u. map_of (hq_index q) i = Some u \<longleftrightarrow>
        (\<exists>r \<in> set (hq_all_requests q). hr_id r = i \<and> hr_urgency r = u))"

lemma hq_okD:
  assumes "hq_ok q"
  shows "r \<in> set (hq_critical q) \<Longrightarrow> hr_urgency r = UrgencyCritical"
    and "r \<in> set (hq_high q) \<Longrightarrow> hr_urgency r = UrgencyHigh"
    and "r \<in> set (hq_medium q) \<Longrightarrow> hr_urgency r = UrgencyMedium"
    and "r \<in> set (hq_low q) \<Longrightarrow> hr_urgency r = UrgencyLow"
    and "distinct (map hr_id (hq_all_requests q))"
    and "map_of (hq_index q) i = Some u \<longleftrightarrow>
        (\<exists>r \<in> set (hq_all_requests q). hr_id r = i \<and> hr_urgency r = u)"
  using assms queue_of.simps unfolding hq_ok_def by metis+

lemma all_urgencies: "(\<forall>u. P u) \<longleftrightarrow> P UrgencyCritical \<and> P UrgencyHigh \<and> P UrgencyMedium \<and> P UrgencyLow"
  using urgency_level.exhaust by metis

lemma queue_of_subset: "set (queue_of u q) \<subseteq> set (hq_all_requests q)"
  by (cases u) (auto simp: hq_all_requests_def)

lemma hq_new_ok [simp]: "hq_ok (hq_new c)" "hq_all_requests (hq_new c) = []"
  by (auto simp: hq_ok_def hq_new_def hq_all_requests_def all_urgencies)

lemma hq_clear_ok [simp]: "hq_ok (hq_clear q)" "hq_all_requests (hq_clear q) = []"
  by (auto simp: hq_ok_def hq_clear_def hq_all_requests_def all_urgencies)

text \<open>Dropping one request, with its index entry, keeps the invariant.\<close>

lemma set_queue_sel [simp]:
  "hq_index (set_queue u xs q) = hq_index q" "hq_history (set_queue u xs q) = hq_history q"
  "hq_config (set_queue u xs q) = hq_config q"
  "queue_of v (set_queue u xs q) = (if v = u then xs else queue_of v q)"
  by (cases u; cases v; simp)+

lemma queue_of_update [simp]:
  "queue_of u (q\<lparr>hq_index := ix\<rparr>) = queue_of u q" "queue_of u (q\<lparr>hq_history := h\<rparr>) = queue_of u q"
  by (cases u; simp)+

lemma all_requests_update [simp]:
  "hq_all_requests (q\<lparr>hq_index := ix\<rparr>) = hq_all_requests q"
  "hq_all_requests (q\<lparr>hq_history := h\<rparr>) = hq_all_requests q"
  by (simp_all add: hq_all_requests_def)

lemma hq_ok_history [simp]: "hq_ok (q\<lparr>hq_history := h\<rparr>) = hq_ok q"
  by (simp add: hq_ok_def)

lemma set_queue_split:
  assumes "queue_of u q = ys @ r # zs"
  obtains as bs where "hq_all_requests q = as @ r # bs"
    "hq_all_requests (set_queue u (ys @ zs) q) = as @ bs"
  using assms that
  by (cases u; simp add: hq_all_requests_def; metis append.assoc append_Cons)

lemma hq_ok_remove:
  assumes ok: "hq_ok q" and sp: "queue_of u q = ys @ r # zs"
    and q': "q' = (set_queue u (ys @ zs) q)\<lparr>hq_index := AList.delete (hr_id r) (hq_index q)\<rparr>"
  shows "hq_ok q'"
proof -
  obtain as bs where all: "hq_all_requests q = as @ r # bs"
    and all': "hq_all_requests (set_queue u (ys @ zs) q) = as @ bs"
    using set_queue_split [OF sp] by blast
  have d: "distinct (map hr_id (as @ r # bs))" using hq_okD(5) [OF ok] all by simp
  have urg: "\<forall>v. \<forall>x \<in> set (queue_of v q'). hr_urgency x = v"
    using ok sp unfolding hq_ok_def q' by auto
  have ix: "map_of (hq_index q') i = Some v \<longleftrightarrow> (\<exists>x \<in> set (as @ bs). hr_id x = i \<and> hr_urgency x = v)" for i v
  proof (cases "i = hr_id r")
    case True
    have "hr_id r \<notin> hr_id ` set (as @ bs)" using d by auto
    then have "\<forall>x \<in> set (as @ bs). hr_id x \<noteq> i" using True by (metis imageI)
    then show ?thesis by (simp add: q' delete_conv' True)
  next
    case False
    then show ?thesis using hq_okD(6) [OF ok, of i v] by (auto simp: q' delete_conv' all)
  qed
  show ?thesis using urg ix d unfolding hq_ok_def by (simp add: q' all')
qed

subsection \<open>Every operation refines its specification\<close>

lemma remove_in_refines:
  assumes ok: "hq_ok q"
  shows "hq_ok (snd (remove_in service_order p q)) \<and>
    (case fst (remove_in service_order p q) of Some x \<Rightarrow> [x] | None \<Rightarrow> [],
     hq_all_requests (snd (remove_in service_order p q))) =
       take_out (take_first p (hq_all_requests q)) (hq_all_requests q)"
proof -
  have step: "hq_ok (snd (remove_in (u # us) p q)) \<and> fst (remove_in (u # us) p q) = Some r \<and>
      hq_all_requests (snd (remove_in (u # us) p q)) = hq_all_requests (set_queue u rest q)"
    if "take_first p (queue_of u q) = Some (r, rest)" for u us r rest
  proof -
    from take_first_Some [OF that] obtain ys zs where sp: "queue_of u q = ys @ r # zs" "rest = ys @ zs"
      by blast
    show ?thesis using hq_ok_remove [OF ok sp(1) refl] that by (simp add: sp(2))
  qed
  have skip: "remove_in (u # us) p q = remove_in us p q" if "take_first p (queue_of u q) = None" for u us
    using that by simp
  show ?thesis
  proof (cases "take_first p (hq_critical q)")
    case (Some a)
    then show ?thesis using step [of UrgencyCritical "fst a" "snd a"]
      by (cases a) (simp add: service_order_def take_out_def hq_all_requests_def take_first_append)
  next
    case c: None
    show ?thesis
    proof (cases "take_first p (hq_high q)")
      case (Some a)
      then show ?thesis using c step [of UrgencyHigh "fst a" "snd a"]
        by (cases a) (simp add: service_order_def take_out_def hq_all_requests_def take_first_append)
    next
      case h: None
      show ?thesis
      proof (cases "take_first p (hq_medium q)")
        case (Some a)
        then show ?thesis using c h step [of UrgencyMedium "fst a" "snd a"]
          by (cases a) (simp add: service_order_def take_out_def hq_all_requests_def take_first_append)
      next
        case m: None
        show ?thesis
        proof (cases "take_first p (hq_low q)")
          case (Some a)
          then show ?thesis using c h m step [of UrgencyLow "fst a" "snd a"]
            by (cases a) (simp add: service_order_def take_out_def hq_all_requests_def take_first_append)
        next
          case None
          with c h m ok show ?thesis
            by (simp add: service_order_def take_out_def hq_all_requests_def take_first_append)
        qed
      qed
    qed
  qed
qed

lemma find_append_case: "find p (xs @ ys) = (case find p xs of Some x \<Rightarrow> Some x | None \<Rightarrow> find p ys)"
  by (induction xs) auto

lemma enqueue_mset: "mset (enqueue r P) = add_mset r (mset P)"
  unfolding enqueue_def by (induction P) (auto simp: not_le)

lemma find_in_find: "find_in service_order p q = find p (hq_all_requests q)"
  by (simp add: service_order_def hq_all_requests_def find_append_case split: option.split)

lemma peek_is_first: "hq_peek q = (case hq_all_requests q of [] \<Rightarrow> None | r # _ \<Rightarrow> Some r)"
  by (cases "hq_all_requests q") (simp_all add: hq_peek_def find_in_find)

lemma push_refines:
  assumes ok: "hq_ok q" and new: "hr_id r \<notin> hr_id ` set (hq_all_requests q)"
  shows "hq_all_requests (hq_push r q) = enqueue r (hq_all_requests q)"
    and "hq_ok (hq_push r q)"
proof -
  show all: "hq_all_requests (hq_push r q) = enqueue r (hq_all_requests q)"
  proof (cases "hr_urgency r")
    case UrgencyLow
    then show ?thesis using hq_okD(1-4) [OF ok]
      by (simp add: hq_push_def Let_def hq_all_requests_def enqueue_def urgency_order)
  next
    case UrgencyMedium
    then show ?thesis using hq_okD(1-4) [OF ok]
      by (simp add: hq_push_def Let_def hq_all_requests_def enqueue_def urgency_order)
  next
    case UrgencyHigh
    then show ?thesis using hq_okD(1-4) [OF ok]
      by (simp add: hq_push_def Let_def hq_all_requests_def enqueue_def urgency_order)
  next
    case UrgencyCritical
    then show ?thesis using hq_okD(1-4) [OF ok]
      by (simp add: hq_push_def Let_def hq_all_requests_def enqueue_def urgency_order)
  qed
  have urg: "\<forall>u. \<forall>x \<in> set (queue_of u (hq_push r q)). hr_urgency x = u"
    using ok unfolding hq_ok_def by (auto simp: hq_push_def Let_def)
  have ix: "hq_index (hq_push r q) = AList.update (hr_id r) (hr_urgency r) (hq_index q)"
    by (simp add: hq_push_def Let_def)
  have st: "set (enqueue r P) = insert r (set P)" for P by (auto simp: enqueue_def)
  have "distinct (map hr_id (enqueue r P))" if "distinct (map hr_id P)" "hr_id r \<notin> hr_id ` set P" for P
  proof -
    have "mset (map hr_id (enqueue r P)) = mset (map hr_id (r # P))"
      by (simp add: enqueue_mset)
    then have "distinct (map hr_id (enqueue r P)) = distinct (map hr_id (r # P))"
      by (rule mset_eq_imp_distinct_iff)
    with that show ?thesis by simp
  qed
  then have "distinct (map hr_id (hq_all_requests (hq_push r q)))"
    using hq_okD(5) [OF ok] new by (simp add: all)
  moreover have "map_of (hq_index (hq_push r q)) i = Some u \<longleftrightarrow>
      (\<exists>x \<in> set (hq_all_requests (hq_push r q)). hr_id x = i \<and> hr_urgency x = u)" for i u
  proof (cases "i = hr_id r")
    case True
    have "\<forall>x \<in> set (hq_all_requests q). hr_id x \<noteq> i" using new True by (metis imageI)
    with True show ?thesis by (auto simp: all st ix update_conv')
  next
    case False
    with hq_okD(6) [OF ok, of i u] show ?thesis
      by (auto simp: all st ix update_conv')
  qed
  ultimately show "hq_ok (hq_push r q)" using urg unfolding hq_ok_def by blast
qed

lemma find_and_remove_refines:
  assumes ok: "hq_ok q"
  shows "hq_ok (snd (hq_find_and_remove i q))"
    and "fst (hq_find_and_remove i q) = find (\<lambda>r. hr_id r = i) (hq_all_requests q)"
    and "hq_all_requests (snd (hq_find_and_remove i q)) = filter (\<lambda>r. hr_id r \<noteq> i) (hq_all_requests q)"
    and "hq_history (snd (hq_find_and_remove i q)) = hq_history q"
proof -
  let ?P = "hq_all_requests q"
  have d: "distinct (map hr_id ?P)" by (rule hq_okD(5) [OF ok])
  have "hq_ok (snd (hq_find_and_remove i q)) \<and>
    fst (hq_find_and_remove i q) = find (\<lambda>r. hr_id r = i) ?P \<and>
    hq_all_requests (snd (hq_find_and_remove i q)) = filter (\<lambda>r. hr_id r \<noteq> i) ?P \<and>
    hq_history (snd (hq_find_and_remove i q)) = hq_history q"
  proof (cases "map_of (hq_index q) i")
    case None
    then have no: "\<forall>r \<in> set ?P. hr_id r \<noteq> i"
      using hq_okD(6) [OF ok, of i] by (metis option.simps(3))
    then have "find (\<lambda>r. hr_id r = i) ?P = None" by (simp add: find_None_iff)
    with None no ok show ?thesis by (simp add: hq_find_and_remove_def)
  next
    case (Some u)
    then obtain r0 where r0: "r0 \<in> set ?P" "hr_id r0 = i" "hr_urgency r0 = u"
      using hq_okD(6) [OF ok, of i u] by blast
    have "r0 \<in> set (queue_of u q)"
      using r0 hq_okD(1-4) [OF ok] by (cases u) (auto simp: hq_all_requests_def)
    then obtain r rest where t: "take_first (\<lambda>r. hr_id r = i) (queue_of u q) = Some (r, rest)"
      using r0(2) take_first_None [of "\<lambda>r. hr_id r = i" "queue_of u q"]
      by (cases "take_first (\<lambda>r. hr_id r = i) (queue_of u q)") auto
    from take_first_Some [OF t] obtain ys zs
      where sp: "queue_of u q = ys @ r # zs" "rest = ys @ zs" and ri: "hr_id r = i" by blast
    obtain as bs where all: "?P = as @ r # bs" "hq_all_requests (set_queue u (ys @ zs) q) = as @ bs"
      using set_queue_split [OF sp(1)] by blast
    have other: "\<forall>x \<in> set (as @ bs). hr_id x \<noteq> i"
    proof -
      have "hr_id r \<notin> hr_id ` set (as @ bs)" using d by (auto simp: all(1))
      then show ?thesis using ri by (metis imageI)
    qed
    then have "find (\<lambda>r. hr_id r = i) as = None" by (simp add: find_None_iff)
    then have fd: "find (\<lambda>r. hr_id r = i) ?P = Some r" by (simp add: all(1) find_append_case ri)
    have "filter (\<lambda>r. hr_id r \<noteq> i) ?P = as @ bs"
      using other ri by (simp add: all(1))
    moreover have "hq_ok ((set_queue u (ys @ zs) q)\<lparr>hq_index := AList.delete i (hq_index q)\<rparr>)"
      using hq_ok_remove [OF ok sp(1) refl] by (simp add: ri)
    moreover have "snd (hq_find_and_remove i q) =
        (set_queue u (ys @ zs) q)\<lparr>hq_index := AList.delete i (hq_index q)\<rparr>"
      using Some t sp(2) by (cases u) (simp_all add: hq_find_and_remove_def Let_def)
    moreover have "fst (hq_find_and_remove i q) = Some r"
      using Some t by (simp add: hq_find_and_remove_def Let_def)
    ultimately show ?thesis using fd all(2) by simp
  qed
  then show "hq_ok (snd (hq_find_and_remove i q))"
    "fst (hq_find_and_remove i q) = find (\<lambda>r. hr_id r = i) ?P"
    "hq_all_requests (snd (hq_find_and_remove i q)) = filter (\<lambda>r. hr_id r \<noteq> i) ?P"
    "hq_history (snd (hq_find_and_remove i q)) = hq_history q" by simp_all
qed

lemma complete_refines:
  assumes "hq_ok q"
  shows "hq_ok (snd (hq_complete p q))"
    and "fst (hq_complete p q) \<longleftrightarrow> hp_request_id p \<in> hr_id ` set (hq_all_requests q)"
    and "hq_all_requests (snd (hq_complete p q)) =
      filter (\<lambda>r. hr_id r \<noteq> hp_request_id p) (hq_all_requests q)"
    and "hq_history (snd (hq_complete p q)) =
      hq_history q @ (if fst (hq_complete p q) then [p] else [])"
  using find_and_remove_refines [OF assms, of "hp_request_id p"]
  by (cases "hq_find_and_remove (hp_request_id p) q";
      cases "find (\<lambda>r. hr_id r = hp_request_id p) (hq_all_requests q)";
      simp add: hq_complete_def find_key_iff)+

lemma fold_remove_refines:
  assumes "hq_ok q"
  shows "hq_ok (fold (\<lambda>r q. snd (hq_find_and_remove (hr_id r) q)) rs q)"
    and "hq_all_requests (fold (\<lambda>r q. snd (hq_find_and_remove (hr_id r) q)) rs q) =
      filter (\<lambda>r. hr_id r \<notin> hr_id ` set rs) (hq_all_requests q)"
    and "hq_history (fold (\<lambda>r q. snd (hq_find_and_remove (hr_id r) q)) rs q) = hq_history q"
  using assms
proof (induction rs arbitrary: q)
  case Nil
  {
    case 1
    then show ?case by simp
  next
    case 2
    then show ?case by simp
  next
    case 3
    then show ?case by simp
  }
next
  case (Cons r rs)
  note f = find_and_remove_refines [where i = "hr_id r"]
  {
    case 1
    then show ?case using Cons.IH(1) f(1) by simp
  next
    case 2
    then show ?case using Cons.IH(2) [OF f(1) [OF 2]] f(3) [OF 2] by (simp add: conj_commute)
  next
    case 3
    then show ?case using Cons.IH(3) [OF f(1) [OF 3]] f(4) [OF 3] by simp
  }
qed

lemma filter_by_ids:
  assumes "distinct (map f xs)"
  shows "filter (\<lambda>x. f x \<notin> f ` set (filter p xs)) xs = filter (\<lambda>x. \<not> p x) xs"
proof (rule filter_cong [OF refl])
  fix x assume "x \<in> set xs"
  with assms show "(f x \<notin> f ` set (filter p xs)) = (\<not> p x)"
    by (auto simp: distinct_map inj_on_def)
qed

lemma check_expired_refines:
  assumes "hq_ok q"
  shows "hq_ok (snd (hq_check_expired now q))"
    and "fst (hq_check_expired now q) = filter (request_is_expired now) (hq_all_requests q)"
    and "hq_all_requests (snd (hq_check_expired now q)) =
      filter (\<lambda>r. \<not> request_is_expired now r) (hq_all_requests q)"
    and "hq_history (snd (hq_check_expired now q)) = hq_history q"
  using fold_remove_refines [OF assms, of "filter (request_is_expired now) (hq_all_requests q)"]
    filter_by_ids [OF hq_okD(5) [OF assms], of "request_is_expired now"]
  by (simp_all add: hq_check_expired_def Let_def)

theorem hq_step_refines:
  assumes "hq_ok q" "step_admissible s (hq_all_requests q)"
  shows "hq_ok (snd (hq_step s q))"
    and "(fst (hq_step s q), hq_all_requests (snd (hq_step s q))) = queue_spec s (hq_all_requests q)"
proof -
  have "hq_ok (snd (hq_step s q)) \<and>
    (fst (hq_step s q), hq_all_requests (snd (hq_step s q))) = queue_spec s (hq_all_requests q)"
  proof (cases s)
    case (StepPush r)
    with push_refines assms show ?thesis by simp
  next
    case StepPop
    with remove_in_refines [OF assms(1), of "\<lambda>_. True"] show ?thesis
      by (simp add: hq_pop_def case_prod_beta)
  next
    case (StepTakeAgent a)
    with remove_in_refines [OF assms(1), of "\<lambda>r. hr_agent_id r = a"] show ?thesis
      by (simp add: hq_take_agent_def case_prod_beta)
  next
    case (StepComplete p)
    let ?P = "hq_all_requests q"
    have t: "take_first (\<lambda>r. hr_id r = hp_request_id p) ?P =
      (case find (\<lambda>r. hr_id r = hp_request_id p) ?P of
         Some x \<Rightarrow> Some (x, filter (\<lambda>y. hr_id y \<noteq> hp_request_id p) ?P) | None \<Rightarrow> None)"
      by (rule take_first_filter) (rule hq_okD(5) [OF assms(1)])
    show ?thesis
    proof (cases "find (\<lambda>r. hr_id r = hp_request_id p) ?P")
      case None
      then have "\<forall>r \<in> set ?P. hr_id r \<noteq> hp_request_id p" by (simp add: find_None_iff)
      then have "hp_request_id p \<notin> hr_id ` set ?P" "filter (\<lambda>y. hr_id y \<noteq> hp_request_id p) ?P = ?P"
        by auto
      with None StepComplete complete_refines [OF assms(1), of p] t show ?thesis
        by (simp add: take_out_def)
    next
      case (Some r)
      then have "hp_request_id p \<in> hr_id ` set ?P" by (simp add: find_key_iff)
      with Some StepComplete complete_refines [OF assms(1), of p]
        find_and_remove_refines(2) [OF assms(1), of "hp_request_id p"] t
      show ?thesis by (simp add: take_out_def)
    qed
  next
    case (StepExpire now)
    with check_expired_refines [OF assms(1)] show ?thesis by simp
  qed
  then show "hq_ok (snd (hq_step s q))"
    "(fst (hq_step s q), hq_all_requests (snd (hq_step s q))) = queue_spec s (hq_all_requests q)"
    by simp_all
qed

subsection \<open>What a client may rely on\<close>

locale decision_queue =
  fixes ok :: "'q \<Rightarrow> bool"
    and pending :: "'q \<Rightarrow> decision_request list"
    and step :: "queue_step \<Rightarrow> 'q \<Rightarrow> decision_request list \<times> 'q"
  assumes step_ok: "ok q \<Longrightarrow> step_admissible s (pending q) \<Longrightarrow> ok (snd (step s q))"
    and step_refines: "ok q \<Longrightarrow> step_admissible s (pending q) \<Longrightarrow>
      (fst (step s q), pending (snd (step s q))) = queue_spec s (pending q)"
begin

lemma run_refines:
  "ok q \<Longrightarrow> run_admissible ss (pending q) \<Longrightarrow>
   ok (snd (run_steps step ss q)) \<and>
   (fst (run_steps step ss q), pending (snd (run_steps step ss q))) = run_steps queue_spec ss (pending q)"
proof (induction ss arbitrary: q)
  case Nil
  then show ?case by simp
next
  case (Cons s ss)
  note adm = Cons.prems(2)[unfolded run_admissible.simps]
  have ok1: "ok (snd (step s q))"
    and ref: "(fst (step s q), pending (snd (step s q))) = queue_spec s (pending q)"
    using step_ok step_refines Cons.prems(1) adm by blast+
  then have p: "snd (queue_spec s (pending q)) = pending (snd (step s q))"
    and o: "fst (queue_spec s (pending q)) = fst (step s q)" by (metis snd_conv, metis fst_conv)
  have "run_admissible ss (pending (snd (step s q)))" using adm p by simp
  from Cons.IH [OF ok1 this] show ?case
    by (simp add: case_prod_beta p o) (metis fst_conv snd_conv)
qed

end

text \<open>Conservation: a request that entered has left exactly once or is still pending.\<close>

lemma take_out_mset: "mset (fst (take_out (take_first p P) P)) + mset (snd (take_out (take_first p P) P)) = mset P"
  using take_first_Some [of p P] by (fastforce simp: take_out_def split: option.splits)

lemma queue_spec_mset:
  "mset (fst (queue_spec s P)) + mset (snd (queue_spec s P)) = mset P + mset (pushed_by s)"
proof (cases s)
  case (StepExpire now)
  have "mset (filter p P) + mset (filter (\<lambda>x. \<not> p x) P) = mset P" for p
    by (induction P) auto
  with StepExpire show ?thesis by simp
qed (simp_all add: take_out_mset enqueue_mset)

lemma run_spec_mset:
  "mset (fst (run_steps queue_spec ss P)) + mset (snd (run_steps queue_spec ss P)) =
     mset P + mset (concat (map pushed_by ss))"
proof (induction ss arbitrary: P)
  case Nil
  then show ?case by simp
next
  case (Cons s ss)
  have "mset (fst (queue_spec s P)) + (mset (snd (queue_spec s P)) + mset (concat (map pushed_by ss))) =
      mset P + (mset (pushed_by s) + mset (concat (map pushed_by ss)))"
    using queue_spec_mset [of s P] by (simp add: ac_simps)
  with Cons.IH [of "snd (queue_spec s P)"] show ?case
    by (simp add: case_prod_beta add.assoc)
qed

text \<open>Order of service: most urgent first, and in order of arrival among equals.\<close>

definition by_urgency :: "decision_request list \<Rightarrow> bool" where
  "by_urgency P \<longleftrightarrow> sorted_wrt (\<lambda>a b. hr_urgency b \<le> hr_urgency a) P"

lemma by_urgency_append:
  "by_urgency (xs @ ys) \<longleftrightarrow> by_urgency xs \<and> by_urgency ys \<and>
     (\<forall>x \<in> set xs. \<forall>y \<in> set ys. hr_urgency y \<le> hr_urgency x)"
  by (auto simp: by_urgency_def sorted_wrt_append)

lemma by_urgency_filter: "by_urgency P \<Longrightarrow> by_urgency (filter p P)"
  by (auto simp: by_urgency_def sorted_wrt_filter)

lemma enqueue_by_urgency: "by_urgency P \<Longrightarrow> by_urgency (enqueue r P)"
proof -
  assume P: "by_urgency P"
  have "by_urgency (r # filter (\<lambda>x. hr_urgency x < hr_urgency r) P)"
    using by_urgency_filter [OF P] by (auto simp: by_urgency_def)
  with P show ?thesis
    by (auto simp: enqueue_def by_urgency_append by_urgency_filter)
qed

lemma take_out_by_urgency: "by_urgency P \<Longrightarrow> by_urgency (snd (take_out (take_first p P) P))"
proof (cases "take_first p P")
  case (Some a)
  obtain r rest where a: "a = (r, rest)" by (cases a)
  from take_first_Some [OF Some [unfolded a]] obtain ys zs where "P = ys @ r # zs" "rest = ys @ zs"
    by blast
  then show "by_urgency P \<Longrightarrow> ?thesis" using Some a
    by (auto simp: take_out_def by_urgency_def sorted_wrt_append)
qed (simp add: take_out_def)

lemma queue_spec_by_urgency: "by_urgency P \<Longrightarrow> by_urgency (snd (queue_spec s P))"
  by (cases s) (simp_all add: enqueue_by_urgency take_out_by_urgency by_urgency_filter)

lemma run_spec_by_urgency: "by_urgency P \<Longrightarrow> by_urgency (snd (run_steps queue_spec ss P))"
  by (induction ss arbitrary: P) (auto simp: case_prod_beta queue_spec_by_urgency)

lemma enqueue_filter:
  "filter (\<lambda>x. hr_urgency x = u) (enqueue r P) = filter (\<lambda>x. hr_urgency x = u) (P @ [r])"
proof (cases "hr_urgency r \<le> u")
  case True
  have "filter (\<lambda>x. hr_urgency r \<le> hr_urgency x \<and> hr_urgency x = u) P = filter (\<lambda>x. hr_urgency x = u) P"
    using True by (intro filter_cong) auto
  moreover have "filter (\<lambda>x. hr_urgency x < hr_urgency r \<and> hr_urgency x = u) P = []"
    using True by (auto simp: filter_empty_conv)
  ultimately show ?thesis by (auto simp: enqueue_def filter_empty_conv)
next
  case False
  have "filter (\<lambda>x. hr_urgency r \<le> hr_urgency x \<and> hr_urgency x = u) P = []"
    using False by (auto simp: filter_empty_conv)
  moreover have "filter (\<lambda>x. hr_urgency x < hr_urgency r \<and> hr_urgency x = u) P = filter (\<lambda>x. hr_urgency x = u) P"
    using False by (intro filter_cong) auto
  ultimately show ?thesis using False by (auto simp: enqueue_def)
qed

fun only_push_pop :: "queue_step \<Rightarrow> bool" where
  "only_push_pop (StepPush _) = True"
| "only_push_pop StepPop = True"
| "only_push_pop _ = False"

lemma run_spec_fifo:
  "list_all only_push_pop ss \<Longrightarrow>
   filter (\<lambda>r. hr_urgency r = u) (fst (run_steps queue_spec ss P) @ snd (run_steps queue_spec ss P)) =
   filter (\<lambda>r. hr_urgency r = u) (P @ concat (map pushed_by ss))"
proof (induction ss arbitrary: P)
  case Nil
  then show ?case by simp
next
  case (Cons s ss)
  have ih: "filter (\<lambda>r. hr_urgency r = u)
      (fst (run_steps queue_spec ss (snd (queue_spec s P))) @ snd (run_steps queue_spec ss (snd (queue_spec s P)))) =
      filter (\<lambda>r. hr_urgency r = u) (snd (queue_spec s P) @ concat (map pushed_by ss))"
    using Cons.prems by (intro Cons.IH) simp
  have one: "filter (\<lambda>r. hr_urgency r = u) (fst (queue_spec s P) @ snd (queue_spec s P)) =
      filter (\<lambda>r. hr_urgency r = u) (P @ pushed_by s)"
  proof (cases s)
    case (StepPush r)
    then show ?thesis by (simp add: enqueue_filter)
  next
    case StepPop
    then show ?thesis by (cases P) (simp_all add: take_out_def)
  qed (use Cons.prems in simp_all)
  show ?case using ih one by (simp add: case_prod_beta)
qed

interpretation hq: decision_queue hq_ok hq_all_requests hq_step
  by unfold_locales (fact hq_step_refines)+

subsection \<open>Properties\<close>

lemma request_run_start: "run_admissible ss [] \<Longrightarrow>
   hq_ok (snd (run_steps hq_step ss (hq_new c))) \<and>
   (fst (run_steps hq_step ss (hq_new c)), hq_all_requests (snd (run_steps hq_step ss (hq_new c)))) =
     run_steps queue_spec ss []"
  using hq.run_refines [of "hq_new c" ss] by simp

text \<open>
  C4: The human decision queue loses no request and serves in order: for any sequence of pushes of
  new requests, pops, removals by agent, responses and expiry checks, the four vectors and their
  index stay consistent, the pending requests and the answers are those of one list, the pending
  requests are in the order of urgency, every pushed request has been handed out exactly once or is
  still pending, and with pushes and pops alone requests of equal urgency leave in order of arrival.
\<close>

theorem human_queue_refines_priority_list:
  assumes "run_admissible ss []"
    and "run_steps hq_step ss (hq_new c) = (out, q)"
  shows "hq_ok q \<and> (out, hq_all_requests q) = run_steps queue_spec ss [] \<and>
    by_urgency (hq_all_requests q) \<and>
    mset out + mset (hq_all_requests q) = mset (concat (map pushed_by ss)) \<and>
    (list_all only_push_pop ss \<longrightarrow>
      (\<forall>u. filter (\<lambda>r. hr_urgency r = u) (out @ hq_all_requests q) =
           filter (\<lambda>r. hr_urgency r = u) (concat (map pushed_by ss))))"
proof -
  have ok: "hq_ok q" and ref: "run_steps queue_spec ss [] = (out, hq_all_requests q)"
    using request_run_start [OF assms(1), of c] by (simp_all add: assms(2))
  show ?thesis
    using ok run_spec_by_urgency [of "[]" ss] run_spec_mset [of ss "[]"] run_spec_fifo [of ss _ "[]"]
    by (simp add: ref by_urgency_def)
qed

definition sample_request :: "string \<Rightarrow> urgency_level \<Rightarrow> decision_request" where
  "sample_request i u = request_new sample_chrono 0 i (''agent-'' @ i) (situation_new ''human_decision'') [] u 1000"

definition sample_steps :: "queue_step list" where
  "sample_steps = [StepPush (sample_request ''a'' UrgencyLow), StepPush (sample_request ''b'' UrgencyHigh),
     StepPush (sample_request ''c'' UrgencyHigh), StepPop, StepPop]"

lemma sample_request_sel [simp]:
  "hr_id (sample_request i u) = i" "hr_urgency (sample_request i u) = u"
  by (simp_all add: sample_request_def request_new_def)

lemma sample_steps_admissible: "run_admissible sample_steps []"
  by (simp add: sample_steps_def enqueue_def take_out_def response_new_def urgency_order)

theorem human_queue_refines_priority_list_witness:
  "map hr_id (filter (\<lambda>r. hr_urgency r = UrgencyHigh)
     (fst (run_steps hq_step sample_steps (hq_new timeout_config_default)) @
      hq_all_requests (snd (run_steps hq_step sample_steps (hq_new timeout_config_default))))) = [''b'', ''c'']"
proof -
  have "list_all only_push_pop sample_steps" by (simp add: sample_steps_def)
  with human_queue_refines_priority_list [OF sample_steps_admissible prod.collapse [symmetric],
      of timeout_config_default]
  show ?thesis by (simp add: sample_steps_def)
qed

text \<open>
  C32: A retry after a rate limit keeps its interval: once a retry is recorded, and as long as the
  clock does not go back, the next retry is allowed exactly when the configured number of whole
  seconds has passed (there is no retry before, however often it is asked), and the first retry is
  allowed at once.
\<close>

theorem retry_keeps_interval:
  assumes "chrono_ok C" "record_retry t r = Some r'" "t \<le> now" "now < 2 ^ 63"
  shows "can_retry_now C now r' \<longleftrightarrow> unat (rl_interval_secs r) \<le> (now - t) div 1000000000"
proof -
  have r': "rl_last_retry_at r' = Some t" "rl_interval_secs r' = rl_interval_secs r"
    using assms(2) by (auto simp: record_retry_def split: if_splits)
  let ?n = "(now - t) div 1000000000"
  have n: "?n < 2 ^ 64"
  proof -
    have "?n \<le> now" by (meson diff_le_self div_le_dividend order_trans)
    with assms(4) show ?thesis by simp
  qed
  have "can_retry_now C now r' \<longleftrightarrow> rl_interval_secs r \<le> as_u64 (int ?n)"
    by (simp add: can_retry_now_def r' seconds_forward [OF assms(1,3)] del: of_nat_div)
  also have "\<dots> \<longleftrightarrow> uint (rl_interval_secs r) \<le> int ?n"
  proof -
    have "int ?n < 2 ^ 64"
      using of_nat_less_iff [where 'a = int, THEN iffD2, OF n] by (simp del: of_nat_div)
    then have "uint (as_u64 (int ?n)) = int ?n" by (intro uint_as_u64) simp_all
    then show ?thesis by (simp only: word_le_def)
  qed
  also have "\<dots> \<longleftrightarrow> unat (rl_interval_secs r) \<le> ?n"
    by (simp only: uint_nat of_nat_le_iff)
  finally show ?thesis .
qed

theorem retry_keeps_interval_witness:
  "\<exists>r'. record_retry 5000000000 (rate_limit_new 0) = Some r' \<and>
     \<not> can_retry_now sample_chrono 1804999999999 r' \<and> can_retry_now sample_chrono 1805000000000 r'"
proof -
  obtain r' where r: "record_retry 5000000000 (rate_limit_new 0) = Some r'"
    by (simp add: record_retry_def rate_limit_new_def)
  have i: "unat (rl_interval_secs (rate_limit_new 0)) = 1800" by (simp add: rate_limit_new_def)
  have "\<not> can_retry_now sample_chrono 1804999999999 r'" "can_retry_now sample_chrono 1805000000000 r'"
    using retry_keeps_interval [OF sample_chrono_ok r, of 1804999999999]
      retry_keeps_interval [OF sample_chrono_ok r, of 1805000000000]
    by (simp_all add: i)
  with r show ?thesis by blast
qed

text \<open>When the clock is set back by a second or more, the cast makes the wait look endless.\<close>

lemma retry_after_clock_back:
  assumes "chrono_ok C" "rl_last_retry_at r = Some t" "now + 1000000000 \<le> t" "t < 2 ^ 63"
    "unat (rl_interval_secs r) \<le> 2 ^ 63"
  shows "can_retry_now C now r"
proof -
  let ?n = "(t - now) div 1000000000"
  have "1 \<le> ?n" "?n \<le> t - now" using assms(3) by (simp_all add: less_eq_div_iff_mult_less_eq)
  then have n: "?n < 2 ^ 63" using assms(4) by linarith
  have b: "- int ?n < 0" "- (2 ^ 63) \<le> - int ?n"
    using of_nat_less_iff [where 'a = int, THEN iffD2, OF n] \<open>1 \<le> ?n\<close> by (simp_all del: of_nat_div)
  have arith: "a = b + 2 ^ 64 \<Longrightarrow> c \<le> 2 ^ 63 \<Longrightarrow> - (2 ^ 63) \<le> b \<Longrightarrow> c \<le> a" for a b c :: int by simp
  have "uint (as_u64 (- int ?n)) = - int ?n + 2 ^ 64" using b by (rule uint_as_u64_neg)
  moreover have "uint (rl_interval_secs r) \<le> 2 ^ 63"
    using of_nat_le_iff [where 'a = int, THEN iffD2, OF assms(5)] by simp
  ultimately have "uint (rl_interval_secs r) \<le> uint (as_u64 (- int ?n))" using b(2) by (rule arith)
  then show ?thesis
    using assms(3) by (simp add: can_retry_now_def assms(2) seconds_backward [OF assms(1)] word_le_def
      del: of_nat_div)
qed

end
