(* ===== verification/Agent_Slot.thy ===== *)
theory Agent_Slot
  imports Worker Decision_Blocking
begin

text \<open>
  The slot of one agent in the pool: \<open>core/src/slot/status.rs\<close>, \<open>core/src/slot/state_machine.rs\<close>,
  \<open>core/src/slot/thread_types.rs\<close> and \<open>core/src/agent_slot.rs\<close>. A slot has an operational status
  with its own transition table and holds the worker aggregate of \<open>Worker\<close>, whose state is meant to
  follow the status. The receiver and the handle of the provider thread are present or absent; the
  launch bundle and log calls are left out. Clock readings are arguments.
\<close>

subsection \<open>Providers and policies\<close>

datatype provider_type = PtMock | PtClaude | PtCodex | PtOpencode

fun provider_type_of_kind :: "provider_kind \<Rightarrow> provider_type" where
  "provider_type_of_kind Claude = PtClaude"
| "provider_type_of_kind Codex = PtCodex"
| "provider_type_of_kind _ = PtMock"

fun provider_kind_of_type :: "provider_type \<Rightarrow> provider_kind option" where
  "provider_kind_of_type PtMock = Some Mock"
| "provider_kind_of_type PtClaude = Some Claude"
| "provider_kind_of_type PtCodex = Some Codex"
| "provider_kind_of_type PtOpencode = None"

fun provider_type_label :: "provider_type \<Rightarrow> string" where
  "provider_type_label PtMock = ''mock''"
| "provider_type_label PtClaude = ''claude''"
| "provider_type_label PtCodex = ''codex''"
| "provider_type_label PtOpencode = ''opencode''"

datatype creation_policy = PolicyEager | PolicyLazy | PolicyConfigured

fun policy_is_eager :: "creation_policy \<Rightarrow> bool" where
  "policy_is_eager PolicyEager = True"
| "policy_is_eager _ = False"

datatype task_completion_result = TaskSuccess | TaskFailure string

datatype thread_outcome = NormalExit | ErrorExit string | ThreadCancelled

subsection \<open>Status\<close>

datatype slot_status =
    SlotIdle
  | SlotStarting
  | SlotResponding instant
  | SlotToolExecuting string
  | SlotFinishing
  | SlotStopping
  | SlotStopped string
  | SlotError string
  | SlotBlocked string
  | SlotBlockedForDecision blocked_state
  | SlotPaused string
  | SlotWaitingForInput instant
  | SlotResting instant blocked_state bool

text \<open>
  \<open>PartialEq\<close> of blocking contexts and of statuses. A hash map is a list with distinct keys, so two
  of them are equal when they hold the same pairs.
\<close>

definition context_eq :: "blocking_context \<Rightarrow> blocking_context \<Rightarrow> bool" where
  "context_eq a b \<longleftrightarrow> bc_task_id a = bc_task_id b \<and> bc_story_id a = bc_story_id b \<and>
     set (bc_info a) = set (bc_info b)"

definition slot_status_eq :: "slot_status \<Rightarrow> slot_status \<Rightarrow> bool" where
  "slot_status_eq s t = (case s of
     SlotIdle \<Rightarrow> (case t of SlotIdle \<Rightarrow> True | _ \<Rightarrow> False)
   | SlotStarting \<Rightarrow> (case t of SlotStarting \<Rightarrow> True | _ \<Rightarrow> False)
   | SlotResponding a \<Rightarrow> (case t of SlotResponding b \<Rightarrow> a = b | _ \<Rightarrow> False)
   | SlotToolExecuting a \<Rightarrow> (case t of SlotToolExecuting b \<Rightarrow> a = b | _ \<Rightarrow> False)
   | SlotFinishing \<Rightarrow> (case t of SlotFinishing \<Rightarrow> True | _ \<Rightarrow> False)
   | SlotStopping \<Rightarrow> (case t of SlotStopping \<Rightarrow> True | _ \<Rightarrow> False)
   | SlotStopped a \<Rightarrow> (case t of SlotStopped b \<Rightarrow> a = b | _ \<Rightarrow> False)
   | SlotError a \<Rightarrow> (case t of SlotError b \<Rightarrow> a = b | _ \<Rightarrow> False)
   | SlotBlocked a \<Rightarrow> (case t of SlotBlocked b \<Rightarrow> a = b | _ \<Rightarrow> False)
   | SlotBlockedForDecision a \<Rightarrow> (case t of
         SlotBlockedForDecision b \<Rightarrow>
           reason_type (bs_reason a) = reason_type (bs_reason b) \<and>
           reason_urgency (bs_reason a) = reason_urgency (bs_reason b) \<and>
           context_eq (bs_context a) (bs_context b)
       | _ \<Rightarrow> False)
   | SlotPaused a \<Rightarrow> (case t of SlotPaused b \<Rightarrow> a = b | _ \<Rightarrow> False)
   | SlotWaitingForInput a \<Rightarrow> (case t of SlotWaitingForInput b \<Rightarrow> a = b | _ \<Rightarrow> False)
   | SlotResting a ba oa \<Rightarrow> (case t of
         SlotResting b bb ob \<Rightarrow>
           a = b \<and> reason_type (bs_reason ba) = reason_type (bs_reason bb) \<and> oa = ob
       | _ \<Rightarrow> False))"

definition slot_transition_table :: "slot_status \<Rightarrow> slot_status \<Rightarrow> bool" where
  "slot_transition_table s target = (case s of
     SlotIdle \<Rightarrow> (case target of
         SlotStarting \<Rightarrow> True
       | SlotBlocked _ \<Rightarrow> True
       | SlotBlockedForDecision _ \<Rightarrow> True
       | SlotStopped _ \<Rightarrow> True
       | SlotPaused _ \<Rightarrow> True
       | _ \<Rightarrow> False)
   | SlotStarting \<Rightarrow> (case target of
         SlotIdle \<Rightarrow> True
       | SlotResponding _ \<Rightarrow> True
       | SlotStopping \<Rightarrow> True
       | SlotBlocked _ \<Rightarrow> True
       | SlotBlockedForDecision _ \<Rightarrow> True
       | SlotError _ \<Rightarrow> True
       | SlotPaused _ \<Rightarrow> True
       | SlotStopped _ \<Rightarrow> True
       | _ \<Rightarrow> False)
   | SlotResponding _ \<Rightarrow> (case target of
         SlotIdle \<Rightarrow> True
       | SlotToolExecuting _ \<Rightarrow> True
       | SlotFinishing \<Rightarrow> True
       | SlotStopping \<Rightarrow> True
       | SlotBlocked _ \<Rightarrow> True
       | SlotBlockedForDecision _ \<Rightarrow> True
       | SlotError _ \<Rightarrow> True
       | SlotPaused _ \<Rightarrow> True
       | SlotWaitingForInput _ \<Rightarrow> True
       | SlotStopped _ \<Rightarrow> True
       | _ \<Rightarrow> False)
   | SlotToolExecuting _ \<Rightarrow> (case target of
         SlotIdle \<Rightarrow> True
       | SlotResponding _ \<Rightarrow> True
       | SlotFinishing \<Rightarrow> True
       | SlotStopping \<Rightarrow> True
       | SlotBlocked _ \<Rightarrow> True
       | SlotBlockedForDecision _ \<Rightarrow> True
       | SlotError _ \<Rightarrow> True
       | SlotPaused _ \<Rightarrow> True
       | SlotWaitingForInput _ \<Rightarrow> True
       | SlotStopped _ \<Rightarrow> True
       | _ \<Rightarrow> False)
   | SlotFinishing \<Rightarrow> (case target of
         SlotIdle \<Rightarrow> True
       | SlotStopping \<Rightarrow> True
       | SlotBlocked _ \<Rightarrow> True
       | SlotBlockedForDecision _ \<Rightarrow> True
       | SlotError _ \<Rightarrow> True
       | SlotPaused _ \<Rightarrow> True
       | SlotStopped _ \<Rightarrow> True
       | _ \<Rightarrow> False)
   | SlotStopping \<Rightarrow> (case target of
         SlotStopped _ \<Rightarrow> True
       | SlotError _ \<Rightarrow> True
       | _ \<Rightarrow> False)
   | SlotStopped _ \<Rightarrow> (case target of
         SlotStarting \<Rightarrow> True
       | _ \<Rightarrow> False)
   | SlotError _ \<Rightarrow> (case target of
         SlotIdle \<Rightarrow> True
       | SlotStopped _ \<Rightarrow> True
       | _ \<Rightarrow> False)
   | SlotBlocked _ \<Rightarrow> (case target of
         SlotIdle \<Rightarrow> True
       | SlotResponding _ \<Rightarrow> True
       | SlotStopped _ \<Rightarrow> True
       | SlotPaused _ \<Rightarrow> True
       | SlotBlockedForDecision _ \<Rightarrow> True
       | _ \<Rightarrow> False)
   | SlotBlockedForDecision _ \<Rightarrow> (case target of
         SlotIdle \<Rightarrow> True
       | SlotResponding _ \<Rightarrow> True
       | SlotStopped _ \<Rightarrow> True
       | SlotPaused _ \<Rightarrow> True
       | SlotBlocked _ \<Rightarrow> True
       | SlotResting _ _ _ \<Rightarrow> True
       | _ \<Rightarrow> False)
   | SlotPaused _ \<Rightarrow> (case target of
         SlotIdle \<Rightarrow> True
       | SlotStopped _ \<Rightarrow> True
       | _ \<Rightarrow> False)
   | SlotWaitingForInput _ \<Rightarrow> (case target of
         SlotResponding _ \<Rightarrow> True
       | SlotIdle \<Rightarrow> True
       | SlotStopping \<Rightarrow> True
       | SlotBlocked _ \<Rightarrow> True
       | SlotBlockedForDecision _ \<Rightarrow> True
       | SlotStopped _ \<Rightarrow> True
       | _ \<Rightarrow> False)
   | SlotResting _ _ _ \<Rightarrow> (case target of
         SlotIdle \<Rightarrow> True
       | SlotError _ \<Rightarrow> True
       | SlotStopped _ \<Rightarrow> True
       | SlotResting _ _ _ \<Rightarrow> True
       | _ \<Rightarrow> False))"

definition slot_can_transition :: "slot_status \<Rightarrow> slot_status \<Rightarrow> bool" where
  "slot_can_transition s t \<longleftrightarrow> slot_transition_table s t \<or> slot_status_eq s t"

subsection \<open>Predicates and views of a status\<close>

fun slot_is_active :: "slot_status \<Rightarrow> bool" where
  "slot_is_active SlotStarting = True"
| "slot_is_active (SlotResponding _) = True"
| "slot_is_active (SlotToolExecuting _) = True"
| "slot_is_active SlotFinishing = True"
| "slot_is_active _ = False"

fun slot_is_idle :: "slot_status \<Rightarrow> bool" where
  "slot_is_idle SlotIdle = True"
| "slot_is_idle _ = False"

fun slot_is_terminal :: "slot_status \<Rightarrow> bool" where
  "slot_is_terminal (SlotStopped _) = True"
| "slot_is_terminal _ = False"

fun slot_is_blocked :: "slot_status \<Rightarrow> bool" where
  "slot_is_blocked (SlotBlocked _) = True"
| "slot_is_blocked (SlotBlockedForDecision _) = True"
| "slot_is_blocked (SlotResting _ _ _) = True"
| "slot_is_blocked _ = False"

fun slot_is_blocked_for_human :: "slot_status \<Rightarrow> bool" where
  "slot_is_blocked_for_human (SlotBlocked reason) = str_contains reason ''human''"
| "slot_is_blocked_for_human (SlotBlockedForDecision b) = (reason_type (bs_reason b) = ''human_decision'')"
| "slot_is_blocked_for_human _ = False"

fun slot_blocked_state :: "slot_status \<Rightarrow> blocked_state option" where
  "slot_blocked_state (SlotBlockedForDecision b) = Some b"
| "slot_blocked_state (SlotResting _ b _) = Some b"
| "slot_blocked_state _ = None"

fun to_worker_state :: "slot_status \<Rightarrow> worker_state" where
  "to_worker_state SlotIdle = WsIdle"
| "to_worker_state SlotStarting = WsStarting"
| "to_worker_state (SlotResponding _) = WsResponding Streaming"
| "to_worker_state (SlotToolExecuting tool) = WsProcessingTool tool"
| "to_worker_state SlotFinishing = WsFinishing"
| "to_worker_state SlotStopping = WsStopping"
| "to_worker_state (SlotStopped reason) =
     (let lower = to_lowercase reason
      in if str_contains lower ''error'' \<or> str_contains lower ''fail'' \<or> str_contains lower ''panic''
         then WsFailed reason else WsCompleted)"
| "to_worker_state (SlotError message) = WsFailed message"
| "to_worker_state (SlotBlocked reason) = WsBlocked reason"
| "to_worker_state (SlotBlockedForDecision b) = WsBlocked (reason_type (bs_reason b))"
| "to_worker_state (SlotPaused reason) = WsPaused reason"
| "to_worker_state (SlotWaitingForInput _) = WsWaitingForInput"
| "to_worker_state (SlotResting _ b _) = WsResting (reason_expires_at (bs_reason b))"

fun slot_label :: "chrono_ops \<Rightarrow> instant \<Rightarrow> slot_status \<Rightarrow> string" where
  "slot_label C now SlotIdle = ''idle''"
| "slot_label C now SlotStarting = ''starting''"
| "slot_label C now (SlotResponding _) = ''responding''"
| "slot_label C now (SlotToolExecuting tool) = ''tool:'' @ tool"
| "slot_label C now SlotFinishing = ''finishing''"
| "slot_label C now SlotStopping = ''stopping''"
| "slot_label C now (SlotStopped reason) = ''stopped:'' @ reason"
| "slot_label C now (SlotError message) = ''error:'' @ message"
| "slot_label C now (SlotBlocked reason) = ''blocked:'' @ reason"
| "slot_label C now (SlotBlockedForDecision b) = ''blocked:'' @ reason_type (bs_reason b)"
| "slot_label C now (SlotPaused reason) = ''paused:'' @ reason"
| "slot_label C now (SlotWaitingForInput _) = ''waiting_for_input''"
| "slot_label C now (SlotResting started _ _) =
     ''resting:'' @ int_to_string (ch_minutes C now started) @ ''min''"

text \<open>\<open>DefaultStateMachine::all_statuses\<close> and \<open>allowed_transitions\<close>, at a reading of the clock.\<close>

definition all_statuses :: "instant \<Rightarrow> slot_status list" where
  "all_statuses now =
     (let b = blocked_state_new now (RateLimit (rate_limit_new now))
      in [SlotIdle, SlotStarting, SlotResponding now, SlotToolExecuting ''test'', SlotFinishing,
          SlotStopping, SlotStopped ''test'', SlotError ''test'', SlotBlocked ''test'',
          SlotBlockedForDecision b, SlotPaused ''test'', SlotWaitingForInput now, SlotResting now b False])"

definition allowed_transitions :: "instant \<Rightarrow> slot_status \<Rightarrow> slot_status list" where
  "allowed_transitions now s = filter (slot_can_transition s) (all_statuses now)"

subsection \<open>Transcript entries\<close>

datatype 'j transcript_entry =
    TeUser string
  | TeAssistant string
  | TeThinking string
  | TeDecision (te_agent: string) (te_situation: string) (te_action: string) (te_reasoning: string)
      (te_confidence: u8) (te_tier: string) (te_prompt: "string option") (te_thinking: "string option")
  | TeExecCommand (te_call: "string option") (te_source: "string option") (te_exploring: bool)
      (te_input: "string option") (te_output: "string option") (te_exec_status: exec_command_status)
      (te_exit: "int option") (te_duration: "u64 option")
  | TePatchApply "string option" "patch_change list" patch_apply_status "string option"
  | TeWebSearch "string option" string "web_search_action option" bool
  | TeViewImage "string option" string
  | TeImageGeneration "string option" "string option" "string option" "string option"
  | TeMcpToolCall "string option" "'j mcp_invocation" "'j list" "string option" mcp_tool_call_status bool
  | TeGenericToolCall string "string option" "string option" "string option" bool bool "int option" "u64 option"
  | TeStatus string
  | TeError string

text \<open>
  \<open>for entry in transcript.iter_mut().rev()\<close> with a \<open>return\<close> at the first hit: the last entry that
  \<open>f\<close> rewrites is replaced; \<open>None\<close> when there is none.
\<close>

fun rewrite_last :: "('a \<Rightarrow> 'a option) \<Rightarrow> 'a list \<Rightarrow> 'a list option" where
  "rewrite_last f [] = None"
| "rewrite_last f (x # xs) = (case rewrite_last f xs of
      Some ys \<Rightarrow> Some (x # ys)
    | None \<Rightarrow> map_option (\<lambda>y. y # xs) (f x))"

definition call_matches :: "string option \<Rightarrow> string option \<Rightarrow> bool" where
  "call_matches call existing \<longleftrightarrow> call \<noteq> None \<and> existing = call \<or> call = None"


fun extend_exec :: "string option \<Rightarrow> string \<Rightarrow> 'j transcript_entry \<Rightarrow> 'j transcript_entry option" where
  "extend_exec call delta (TeExecCommand existing src expl input out ExecInProgress code dur) =
     (if call_matches call existing
      then Some (TeExecCommand existing src expl input
             (Some ((case out of Some s \<Rightarrow> s | None \<Rightarrow> []) @ delta)) ExecInProgress code dur)
      else None)"
| "extend_exec call delta _ = None"


subsection \<open>The slot\<close>

record 'j agent_slot =
  s_agent_id :: agent_id
  s_codename :: agent_codename
  s_provider_type :: provider_type
  s_role :: agent_role
  s_status :: slot_status
  s_session :: "session_handle option"
  s_transcript :: "'j transcript_entry list"
  s_task :: "task_id option"
  s_event_rx :: bool
  s_thread :: bool
  s_pid :: "32 word option"
  s_last_activity :: instant
  s_policy :: creation_policy
  s_worktree_path :: "string option"
  s_worktree_branch :: "string option"
  s_worktree_id :: "string option"
  s_profile_id :: "string option"
  s_last_idle_trigger :: "instant option"
  s_worker :: "'j worker"
  s_commands :: "'j runtime_command_queue"

definition slot_restored ::
  "instant \<Rightarrow> agent_id \<Rightarrow> agent_codename \<Rightarrow> provider_type \<Rightarrow> agent_role \<Rightarrow> slot_status \<Rightarrow> session_handle option \<Rightarrow>
   'j transcript_entry list \<Rightarrow> task_id option \<Rightarrow> string option \<Rightarrow> string option \<Rightarrow> string option \<Rightarrow> 'j agent_slot"
where
  "slot_restored now i c p r st sess tr task path branch wid =
     \<lparr>s_agent_id = i, s_codename = c, s_provider_type = p, s_role = r, s_status = st, s_session = sess,
      s_transcript = tr, s_task = task, s_event_rx = False, s_thread = False, s_pid = None,
      s_last_activity = now, s_policy = PolicyLazy, s_worktree_path = path, s_worktree_branch = branch,
      s_worktree_id = wid, s_profile_id = None, s_last_idle_trigger = None,
      s_worker = worker_new i c r, s_commands = rq_new\<rparr>"

definition slot_with_role ::
  "instant \<Rightarrow> agent_id \<Rightarrow> agent_codename \<Rightarrow> provider_type \<Rightarrow> agent_role \<Rightarrow> 'j agent_slot" where
  "slot_with_role now i c p r = slot_restored now i c p r SlotIdle None [] None None None None"

text \<open>\<open>AgentRole::default()\<close> is the developer.\<close>

definition slot_new :: "instant \<Rightarrow> agent_id \<Rightarrow> agent_codename \<Rightarrow> provider_type \<Rightarrow> 'j agent_slot" where
  "slot_new now i c p = slot_with_role now i c p Developer"

definition slot_with_thread ::
  "instant \<Rightarrow> agent_id \<Rightarrow> agent_codename \<Rightarrow> provider_type \<Rightarrow> agent_role \<Rightarrow> 'j agent_slot" where
  "slot_with_thread now i c p r =
     (slot_with_role now i c p r)\<lparr>s_status := SlotStarting, s_event_rx := True, s_thread := True\<rparr>"

definition has_provider_thread :: "'j agent_slot \<Rightarrow> bool" where
  "has_provider_thread s \<longleftrightarrow> s_event_rx s \<and> s_thread s"

definition has_worktree :: "'j agent_slot \<Rightarrow> bool" where
  "has_worktree s \<longleftrightarrow> s_worktree_path s \<noteq> None"

definition slot_set_worktree :: "instant \<Rightarrow> string \<Rightarrow> string option \<Rightarrow> string \<Rightarrow> 'j agent_slot \<Rightarrow> 'j agent_slot" where
  "slot_set_worktree now path branch wid s =
     s\<lparr>s_worktree_path := Some path, s_worktree_branch := branch, s_worktree_id := Some wid,
       s_last_activity := now\<rparr>"

definition slot_clear_worktree :: "'j agent_slot \<Rightarrow> 'j agent_slot" where
  "slot_clear_worktree s =
     s\<lparr>s_worktree_path := None, s_worktree_branch := None, s_worktree_id := None\<rparr>"

definition slot_set_role :: "instant \<Rightarrow> agent_role \<Rightarrow> 'j agent_slot \<Rightarrow> 'j agent_slot" where
  "slot_set_role now r s = s\<lparr>s_role := r, s_last_activity := now\<rparr>"

definition slot_set_policy :: "instant \<Rightarrow> creation_policy \<Rightarrow> 'j agent_slot \<Rightarrow> 'j agent_slot" where
  "slot_set_policy now p s = s\<lparr>s_policy := p, s_last_activity := now\<rparr>"

definition slot_set_profile :: "instant \<Rightarrow> string \<Rightarrow> 'j agent_slot \<Rightarrow> 'j agent_slot" where
  "slot_set_profile now p s = s\<lparr>s_profile_id := Some p, s_last_activity := now\<rparr>"

definition touch_activity :: "instant \<Rightarrow> 'j agent_slot \<Rightarrow> 'j agent_slot" where
  "touch_activity now s = s\<lparr>s_last_activity := now\<rparr>"

definition set_last_idle_trigger :: "instant \<Rightarrow> 'j agent_slot \<Rightarrow> 'j agent_slot" where
  "set_last_idle_trigger now s = s\<lparr>s_last_idle_trigger := Some now\<rparr>"

definition take_thread_handle :: "'j agent_slot \<Rightarrow> bool \<times> 'j agent_slot" where
  "take_thread_handle s = (s_thread s, s\<lparr>s_thread := False\<rparr>)"

text \<open>\<open>Duration::as_secs\<close> of the time since the last activity; an instant does not go back.\<close>

definition should_transition_to_waiting :: "instant \<Rightarrow> u64 \<Rightarrow> 'j agent_slot \<Rightarrow> bool" where
  "should_transition_to_waiting now timeout s =
     (case s_status s of
        SlotResponding _ \<Rightarrow> unat timeout \<le> (now - s_last_activity s) div 1000000000
      | _ \<Rightarrow> False)"

definition slot_set_pid :: "instant \<Rightarrow> 32 word \<Rightarrow> 'j agent_slot \<Rightarrow> 'j agent_slot" where
  "slot_set_pid now pid s = s\<lparr>s_pid := Some pid, s_last_activity := now\<rparr>"

text \<open>\<open>kill_provider_subprocess\<close>: the signal itself is outside; the pid is forgotten in any case.\<close>

definition kill_provider_subprocess :: "'j agent_slot \<Rightarrow> bool \<times> 'j agent_slot" where
  "kill_provider_subprocess s =
     (case s_pid s of Some pid \<Rightarrow> (True, s\<lparr>s_pid := None\<rparr>) | None \<Rightarrow> (False, s))"

definition apply_provider_event :: "'j domain_event \<Rightarrow> 'j agent_slot \<Rightarrow> 'j agent_slot" where
  "apply_provider_event e s =
     (case worker_apply (s_worker s) e of
        (Inr cmds, w) \<Rightarrow> s\<lparr>s_worker := w, s_commands := rq_extend cmds (s_commands s)\<rparr>
      | (Inl err, w) \<Rightarrow> s\<lparr>s_worker := w\<rparr>)"

definition slot_drain_commands :: "'j agent_slot \<Rightarrow> 'j runtime_command list \<times> 'j agent_slot" where
  "slot_drain_commands s = (case rq_drain (s_commands s) of (cs, q) \<Rightarrow> (cs, s\<lparr>s_commands := q\<rparr>))"

definition set_provider_thread :: "instant \<Rightarrow> 'j agent_slot \<Rightarrow> 'j agent_slot" where
  "set_provider_thread now s =
     s\<lparr>s_event_rx := True, s_thread := True, s_status := SlotStarting, s_last_activity := now\<rparr>"

definition set_thread_handle :: "instant \<Rightarrow> 'j agent_slot \<Rightarrow> 'j agent_slot" where
  "set_thread_handle now s = s\<lparr>s_thread := True, s_status := SlotStarting, s_last_activity := now\<rparr>"

definition clear_provider_thread :: "'j agent_slot \<Rightarrow> 'j agent_slot" where
  "clear_provider_thread s = s\<lparr>s_event_rx := False, s_thread := False, s_pid := None\<rparr>"

definition append_transcript :: "instant \<Rightarrow> 'j transcript_entry \<Rightarrow> 'j agent_slot \<Rightarrow> 'j agent_slot" where
  "append_transcript now e s = s\<lparr>s_transcript := s_transcript s @ [e], s_last_activity := now\<rparr>"

text \<open>The shape of the three transcript updates: rewrite the last entry that fits, or push a new one.\<close>

definition rewrite_or_push ::
  "instant \<Rightarrow> ('j transcript_entry \<Rightarrow> 'j transcript_entry option) \<Rightarrow> 'j transcript_entry \<Rightarrow> 'j agent_slot \<Rightarrow> 'j agent_slot"
where
  "rewrite_or_push now f new s = (case rewrite_last f (s_transcript s) of
      Some es \<Rightarrow> s\<lparr>s_transcript := es\<rparr>
    | None \<Rightarrow> append_transcript now new s)"


definition append_exec_output :: "instant \<Rightarrow> string option \<Rightarrow> string \<Rightarrow> 'j agent_slot \<Rightarrow> 'j agent_slot" where
  "append_exec_output now call delta s =
     (if delta = [] then s
      else rewrite_or_push now (extend_exec call delta)
             (TeExecCommand call None False None (Some delta) ExecInProgress None None) s)"


definition clear_transcript :: "'j agent_slot \<Rightarrow> 'j agent_slot" where
  "clear_transcript s = s\<lparr>s_transcript := []\<rparr>"

definition set_session_handle :: "instant \<Rightarrow> session_handle \<Rightarrow> 'j agent_slot \<Rightarrow> 'j agent_slot" where
  "set_session_handle now h s = s\<lparr>s_session := Some h, s_last_activity := now\<rparr>"

definition clear_session_handle :: "'j agent_slot \<Rightarrow> 'j agent_slot" where
  "clear_session_handle s = s\<lparr>s_session := None\<rparr>"

text \<open>
  \<open>transition_to\<close> changes the status first and then asks the worker to follow; when the worker
  refuses, the error is logged and dropped.
\<close>

definition slot_transition_to ::
  "chrono_ops \<Rightarrow> instant \<Rightarrow> 'j agent_slot \<Rightarrow> slot_status \<Rightarrow> (string + unit) \<times> 'j agent_slot"
where
  "slot_transition_to C now s new =
     (if \<not> slot_can_transition (s_status s) new
      then (Inl (''Invalid transition from '' @ slot_label C now (s_status s) @ '' to '' @ slot_label C now new), s)
      else
        let s1 = s\<lparr>s_status := new, s_last_activity := now\<rparr>
        in (Inr (), s1\<lparr>s_worker := snd (transition_state (s_worker s1) (to_worker_state new))\<rparr>))"

definition slot_assign_task ::
  "chrono_ops \<Rightarrow> instant \<Rightarrow> task_id \<Rightarrow> 'j agent_slot \<Rightarrow> (string + unit) \<times> 'j agent_slot" where
  "slot_assign_task C now t s =
     (if \<not> slot_status_eq (s_status s) SlotIdle
      then (Inl (''Cannot assign task to agent with status '' @ slot_label C now (s_status s)), s)
      else (Inr (), s\<lparr>s_task := Some t, s_last_activity := now\<rparr>))"

definition slot_clear_task :: "'j agent_slot \<Rightarrow> 'j agent_slot" where
  "slot_clear_task s = s\<lparr>s_task := None\<rparr>"

subsection \<open>Resting after a rate limit\<close>

text \<open>The four resting operations check the table but set the status without the worker.\<close>

definition guarded_set ::
  "(slot_status \<Rightarrow> string) \<Rightarrow> instant \<Rightarrow> slot_status \<Rightarrow> 'j agent_slot \<Rightarrow> (string + unit) \<times> 'j agent_slot" where
  "guarded_set message now new s =
     (if \<not> slot_can_transition (s_status s) new then (Inl (message (s_status s)), s)
      else (Inr (), s\<lparr>s_status := new, s_last_activity := now\<rparr>))"

definition enter_resting ::
  "chrono_ops \<Rightarrow> instant \<Rightarrow> blocked_state \<Rightarrow> 'j agent_slot \<Rightarrow> (string + unit) \<times> 'j agent_slot" where
  "enter_resting C now b = guarded_set (\<lambda>old. ''Cannot enter resting from '' @ slot_label C now old)
     now (SlotResting now b False)"

definition recover_from_resting ::
  "chrono_ops \<Rightarrow> instant \<Rightarrow> 'j agent_slot \<Rightarrow> (string + unit) \<times> 'j agent_slot" where
  "recover_from_resting C now =
     guarded_set (\<lambda>old. ''Cannot recover from '' @ slot_label C now old @ '' to '' @ slot_label C now SlotIdle)
       now SlotIdle"

definition resting_to_error ::
  "chrono_ops \<Rightarrow> instant \<Rightarrow> string \<Rightarrow> 'j agent_slot \<Rightarrow> (string + unit) \<times> 'j agent_slot" where
  "resting_to_error C now message =
     guarded_set (\<lambda>old. ''Cannot transition from '' @ slot_label C now old @ '' to Error'') now (SlotError message)"

definition resting_to_stopped ::
  "chrono_ops \<Rightarrow> instant \<Rightarrow> string \<Rightarrow> 'j agent_slot \<Rightarrow> (string + unit) \<times> 'j agent_slot" where
  "resting_to_stopped C now reason =
     guarded_set (\<lambda>old. ''Cannot transition from '' @ slot_label C now old @ '' to Stopped'') now (SlotStopped reason)"

definition should_attempt_recovery :: "chrono_ops \<Rightarrow> instant \<Rightarrow> u64 \<Rightarrow> 'j agent_slot \<Rightarrow> bool" where
  "should_attempt_recovery C now interval s = (case s_status s of
      SlotResting started b on_resume \<Rightarrow>
        if on_resume then True
        else (case as_rate_limit_reason (bs_reason b) of
            Some r \<Rightarrow>
              let reference = (case rl_last_retry_at r of Some t \<Rightarrow> t | None \<Rightarrow> started)
              in interval \<le> as_u64 (ch_seconds C now reference)
          | None \<Rightarrow> False)
    | _ \<Rightarrow> False)"

definition record_recovery_attempt :: "'j agent_slot \<Rightarrow> 'j agent_slot" where
  "record_recovery_attempt s = (case s_status s of
      SlotResting started b on_resume \<Rightarrow> s\<lparr>s_status := SlotResting started b False\<rparr>
    | _ \<Rightarrow> s)"

definition slot_summary :: "chrono_ops \<Rightarrow> instant \<Rightarrow> 'j agent_slot \<Rightarrow> string" where
  "slot_summary C now s =
     codename_str (s_codename s) @ '' ('' @ agent_id_str (s_agent_id s) @ '') ['' @ slot_label C now (s_status s) @ '']''"

subsection \<open>The status machine\<close>

interpretation slot: guarded_object s_status slot_can_transition "slot_transition_to C now" for C now
  by unfold_locales (auto simp: slot_transition_to_def Let_def split: if_splits)

lemma context_eq_refl [simp]: "context_eq c c"
  by (simp add: context_eq_def)

lemma slot_status_eq_refl [simp]: "slot_status_eq s s"
  by (cases s) (simp_all add: slot_status_eq_def)

lemma slot_transition_accepts:
  "is_ok (fst (slot_transition_to C now s new)) \<longleftrightarrow> slot_can_transition (s_status s) new"
  by (rule slot.request_accepts)

lemma slot_transition_ok:
  assumes "slot_can_transition (s_status s) new"
  shows "slot_transition_to C now s new =
    (Inr (), s\<lparr>s_status := new, s_last_activity := now,
       s_worker := snd (transition_state (s_worker s) (to_worker_state new))\<rparr>)"
  using assms by (simp add: slot_transition_to_def Let_def)

lemma slot_transition_refused:
  "\<not> slot_can_transition (s_status s) new \<Longrightarrow> snd (slot_transition_to C now s new) = s"
  by (simp add: slot_transition_to_def)

text \<open>Which statuses are reached from where, for the statuses the pool asks for.\<close>

lemma can_stop: "slot_can_transition s (SlotStopped r) \<longleftrightarrow> (\<forall>r'. s = SlotStopped r' \<longrightarrow> r' = r)"
  by (cases s) (simp_all add: slot_can_transition_def slot_transition_table_def slot_status_eq_def)

lemma can_rest:
  "slot_can_transition s (SlotResting t b f) \<longleftrightarrow>
     (\<exists>b'. s = SlotBlockedForDecision b') \<or> (\<exists>t' b' f'. s = SlotResting t' b' f')"
  by (cases s) (simp_all add: slot_can_transition_def slot_transition_table_def slot_status_eq_def)

lemma can_idle:
  "slot_can_transition s SlotIdle \<longleftrightarrow> s \<noteq> SlotStopping \<and> (\<forall>r. s \<noteq> SlotStopped r)"
  by (cases s) (simp_all add: slot_can_transition_def slot_transition_table_def slot_status_eq_def)

lemma blocked_can_respond:
  "slot_is_blocked s \<Longrightarrow> slot_can_transition s (SlotResponding t) \<longleftrightarrow> (\<forall>t' b f. s \<noteq> SlotResting t' b f)"
  by (cases s) (simp_all add: slot_can_transition_def slot_transition_table_def slot_status_eq_def)

lemma can_block_for_decision:
  "slot_can_transition s (SlotBlockedForDecision b) \<longleftrightarrow>
     slot_is_active s \<or> slot_is_idle s \<or> (\<exists>t. s = SlotWaitingForInput t) \<or> (\<exists>r. s = SlotBlocked r) \<or>
     slot_status_eq s (SlotBlockedForDecision b)"
  by (cases s) (simp_all add: slot_can_transition_def slot_transition_table_def slot_status_eq_def)

lemmas slot_can = can_stop can_rest can_idle blocked_can_respond

subsection \<open>The worker behind the status\<close>

definition in_sync :: "'j agent_slot \<Rightarrow> bool" where
  "in_sync s \<longleftrightarrow> w_state (s_worker s) = to_worker_state (s_status s)"

text \<open>The moves of the status that the worker does not make.\<close>

definition worker_stays_behind :: "slot_status \<Rightarrow> slot_status \<Rightarrow> bool" where
  "worker_stays_behind old new = (case (old, new) of
     (SlotIdle, SlotStopped _) \<Rightarrow> True
   | (SlotStarting, SlotIdle) \<Rightarrow> True
   | (SlotStarting, SlotStopped _) \<Rightarrow> to_worker_state new = WsCompleted
   | (SlotToolExecuting _, SlotWaitingForInput _) \<Rightarrow> True
   | (SlotError m, SlotStopped _) \<Rightarrow> to_worker_state new \<noteq> WsFailed m
   | (SlotBlocked _, SlotStopped _) \<Rightarrow> True
   | (SlotBlocked r, SlotBlockedForDecision b) \<Rightarrow> r \<noteq> reason_type (bs_reason b)
   | (SlotBlockedForDecision _, SlotStopped _) \<Rightarrow> True
   | (SlotBlockedForDecision b, SlotBlocked r) \<Rightarrow> r \<noteq> reason_type (bs_reason b)
   | (SlotPaused _, SlotStopped _) \<Rightarrow> True
   | (SlotWaitingForInput _, SlotStopping) \<Rightarrow> True
   | (SlotWaitingForInput _, SlotStopped _) \<Rightarrow> True
   | (SlotResting _ _ _, SlotStopped _) \<Rightarrow> to_worker_state new = WsCompleted
   | (SlotResting _ b _, SlotResting _ b' _) \<Rightarrow>
       reason_expires_at (bs_reason b) \<noteq> reason_expires_at (bs_reason b')
   | _ \<Rightarrow> False)"

lemma worker_follows_iff:
  "slot_can_transition old new \<Longrightarrow>
   (to_worker_state old = to_worker_state new \<or> can_transition_to (to_worker_state old) (to_worker_state new))
     \<longleftrightarrow> \<not> worker_stays_behind old new"
  by (cases old; cases new)
    (auto simp: slot_can_transition_def slot_transition_table_def slot_status_eq_def worker_stays_behind_def
      can_transition_to_def transition_table_def Let_def)

lemma transition_state_result:
  "w_state (snd (transition_state w t)) = t \<longleftrightarrow> w_state w = t \<or> can_transition_to (w_state w) t"
  by (auto simp: transition_state_def split: sum.split)

lemma in_sync_after:
  assumes "in_sync s" "slot_can_transition (s_status s) new"
  shows "in_sync (snd (slot_transition_to C now s new)) \<longleftrightarrow> \<not> worker_stays_behind (s_status s) new"
  using worker_follows_iff [OF assms(2)] assms
  by (simp add: slot_transition_ok in_sync_def transition_state_result)

lemma in_sync_refused:
  "in_sync s \<Longrightarrow> \<not> slot_can_transition (s_status s) new \<Longrightarrow>
   in_sync (snd (slot_transition_to C now s new))"
  by (simp add: slot_transition_refused)

lemma slot_new_in_sync [simp]: "in_sync (slot_with_role now i c p r)"
  by (simp add: in_sync_def slot_with_role_def slot_restored_def worker_new_def)

text \<open>
  C5: The worker state follows the slot status except for a fixed list of moves: from a slot whose
  worker is in step, a requested transition leaves it in step exactly when the slot refuses the
  request or the move is not one of \<open>worker_stays_behind\<close> (stopping an agent that is not responding,
  cancelling a start, changing the reason of a block, and the like), where the slot moves, the
  worker refuses and the error is only logged.
\<close>

theorem worker_follows_slot:
  assumes "in_sync s"
  shows "in_sync (snd (slot_transition_to C now s new)) \<longleftrightarrow>
    (slot_can_transition (s_status s) new \<longrightarrow> \<not> worker_stays_behind (s_status s) new)"
  using in_sync_after [OF assms] in_sync_refused [OF assms]
  by (cases "slot_can_transition (s_status s) new") simp_all

definition sample_slot :: "unit agent_slot" where
  "sample_slot = slot_new 0 (AgentId ''agent_001'') (AgentCodename ''alpha'') PtMock"

theorem worker_follows_slot_witness:
  "in_sync (snd (slot_transition_to sample_chrono 1 sample_slot SlotStarting)) \<and>
   \<not> in_sync (snd (slot_transition_to sample_chrono 1 sample_slot (SlotStopped ''user requested'')))"
proof -
  have s: "in_sync sample_slot" by (simp add: sample_slot_def slot_new_def)
  have i: "s_status sample_slot = SlotIdle"
    by (simp add: sample_slot_def slot_new_def slot_with_role_def slot_restored_def)
  show ?thesis
    using worker_follows_slot [OF s, of sample_chrono 1 SlotStarting]
      worker_follows_slot [OF s, of sample_chrono 1 "SlotStopped ''user requested''"]
    by (simp add: i can_stop) (simp add: worker_stays_behind_def)
qed

subsection \<open>Recovery\<close>

text \<open>
  C7: A rate-limited agent that has come to rest and has never retried asks for recovery exactly
  when the interval since the first refusal has passed; recording the attempt does not move that
  point, so the request is repeated at every later check instead of waiting for another interval.
\<close>

theorem recovery_is_never_delayed:
  assumes "chrono_ok C" "s_status s = SlotResting started b False"
    "as_rate_limit_reason (bs_reason b) = Some r" "rl_last_retry_at r = None"
    "started \<le> t" "t \<le> t'" "t' < 2 ^ 63"
  shows "(should_attempt_recovery C t interval s \<longleftrightarrow> unat interval \<le> (t - started) div 1000000000) \<and>
    (should_attempt_recovery C t interval s \<longrightarrow>
       should_attempt_recovery C t' interval (record_recovery_attempt s))"
proof -
  have key: "(interval \<le> as_u64 (ch_seconds C x started)) = (unat interval \<le> (x - started) div 1000000000)"
    if "started \<le> x" "x < 2 ^ 63" for x
  proof -
    have n: "(x - started) div 1000000000 < 2 ^ 63"
      using that(2) by (meson diff_le_self div_le_dividend le_less_trans order_trans)
    have "int ((x - started) div 1000000000) < 2 ^ 64"
      using of_nat_less_iff [where 'a = int, THEN iffD2, OF n] by (simp del: of_nat_div)
    then have "uint (as_u64 (int ((x - started) div 1000000000))) = int ((x - started) div 1000000000)"
      by (intro uint_as_u64) simp_all
    then show ?thesis
      by (simp only: seconds_forward [OF assms(1) that(1)] word_le_def uint_nat of_nat_le_iff)
  qed
  have mono: "(t - started) div 1000000000 \<le> (t' - started) div 1000000000"
    using assms(6) by (intro div_le_mono) simp
  show ?thesis
    using key [of t] key [of t'] mono assms(2-7)
    by (auto simp: should_attempt_recovery_def record_recovery_attempt_def Let_def)
qed

theorem recovery_is_never_delayed_witness:
  "should_attempt_recovery sample_chrono 3000000000 2
     (record_recovery_attempt (sample_slot\<lparr>s_status :=
        SlotResting 0 (blocked_state_new 0 (RateLimit (rate_limit_new 0))) False\<rparr>))"
  using recovery_is_never_delayed [OF sample_chrono_ok, of
      "sample_slot\<lparr>s_status := SlotResting 0 (blocked_state_new 0 (RateLimit (rate_limit_new 0))) False\<rparr>"
      0 "blocked_state_new 0 (RateLimit (rate_limit_new 0))" "rate_limit_new 0" 2000000000 3000000000 2]
  by (simp add: blocked_state_new_def rate_limit_new_def)

subsection \<open>Tool calls in the transcript\<close>




lemma rewrite_last_skip: "f x = None \<Longrightarrow> rewrite_last f (xs @ [x]) = map_option (\<lambda>ys. ys @ [x]) (rewrite_last f xs)"
  by (induction xs) (auto simp: option.map_comp comp_def split: option.splits)









end
