(* ===== verification/Rust_Iterators.thy ===== *)
theory Rust_Iterators
  imports Rust_Strings "HOL-Library.Multiset"
begin

text \<open>
  More of the standard library as the decision layer uses it: \<open>Iterator::max_by_key\<close>, the iterators
  over words and lines of a text, \<open>ends_with\<close>, \<open>splitn\<close> and \<open>rsplitn\<close> with two parts. A hash map is
  iterated in an order that the program cannot rely on: definitions that iterate one take the order
  as a function that permutes lists.
\<close>

type_synonym 'a hash_order = "'a list \<Rightarrow> 'a list"

definition hash_order_ok :: "'a hash_order \<Rightarrow> bool" where
  "hash_order_ok ord \<longleftrightarrow> (\<forall>xs. mset (ord xs) = mset xs)"

subsection \<open>Maxima\<close>

text \<open>\<open>max_by_key\<close> returns the last of several maximal elements.\<close>

fun max_by_key :: "('a \<Rightarrow> nat) \<Rightarrow> 'a list \<Rightarrow> 'a option" where
  "max_by_key k [] = None"
| "max_by_key k (x # xs) =
     (case max_by_key k xs of
        None \<Rightarrow> Some x
      | Some y \<Rightarrow> Some (if k x \<le> k y then y else x))"

lemma max_by_key_None [simp]: "max_by_key k xs = None \<longleftrightarrow> xs = []"
  by (cases xs) (auto split: option.split)

lemma max_by_key_mem: "max_by_key k xs = Some m \<Longrightarrow> m \<in> set xs"
  by (induction xs arbitrary: m) (auto split: option.splits if_splits)

lemma max_by_key_max: "max_by_key k xs = Some m \<Longrightarrow> x \<in> set xs \<Longrightarrow> k x \<le> k m"
  by (induction xs arbitrary: m) (auto split: option.splits if_splits)

text \<open>The elements after the chosen one are strictly smaller.\<close>

lemma max_by_key_last:
  "max_by_key k xs = Some m \<Longrightarrow> \<exists>us vs. xs = us @ m # vs \<and> (\<forall>x\<in>set us. k x \<le> k m) \<and> (\<forall>x\<in>set vs. k x < k m)"
proof (induction xs arbitrary: m)
  case (Cons x xs)
  show ?case
  proof (cases "max_by_key k xs")
    case None
    then have "x # xs = [] @ m # []" using Cons.prems by simp
    then show ?thesis by (metis empty_iff empty_set)
  next
    case (Some y)
    show ?thesis
    proof (cases "k x \<le> k y")
      case True
      then have m: "m = y" using Cons.prems Some by simp
      obtain us vs where "xs = us @ m # vs" "\<forall>x\<in>set us. k x \<le> k m" "\<forall>x\<in>set vs. k x < k m"
        using Cons.IH Some unfolding m by blast
      then show ?thesis using True m by (intro exI [of _ "x # us"] exI [of _ vs]) simp
    next
      case False
      then have m: "m = x" using Cons.prems Some by simp
      have "\<forall>z\<in>set xs. k z < k m" using max_by_key_max [OF Some] False m by fastforce
      then show ?thesis using m by (intro exI [of _ "[]"] exI [of _ xs]) simp
    qed
  qed
qed simp

subsection \<open>Words and lines\<close>

fun split_by :: "('a \<Rightarrow> bool) \<Rightarrow> 'a list \<Rightarrow> 'a list list" where
  "split_by p [] = [[]]"
| "split_by p (c # s) =
     (if p c then [] # split_by p s
      else case split_by p s of [] \<Rightarrow> [[c]] | w # ws \<Rightarrow> (c # w) # ws)"

definition split_whitespace :: "string \<Rightarrow> string list" where
  "split_whitespace s = filter (\<lambda>w. w \<noteq> []) (split_by is_whitespace s)"

text \<open>\<open>lines\<close>: a final line break ends no further line, and a carriage return before a line break
  belongs to it.\<close>

definition strip_cr :: "string \<Rightarrow> string" where
  "strip_cr l = (if l \<noteq> [] \<and> List.last l = CHR 0x0D then butlast l else l)"

definition str_lines :: "string \<Rightarrow> string list" where
  "str_lines s =
     (let ls = split_on (CHR 0x0A) s
      in map strip_cr (butlast ls) @ (if List.last ls = [] then [] else [List.last ls]))"

definition ends_with :: "string \<Rightarrow> string \<Rightarrow> bool" where
  "ends_with s p \<longleftrightarrow> starts_with (rev s) (rev p)"

text \<open>\<open>splitn(2, c)\<close> and \<open>rsplitn(2, c)\<close>: the parts before and after the first (last) separator.\<close>

fun split_first :: "char \<Rightarrow> string \<Rightarrow> (string \<times> string) option" where
  "split_first c [] = None"
| "split_first c (d # s) =
     (if d = c then Some ([], s)
      else case split_first c s of None \<Rightarrow> None | Some (p, q) \<Rightarrow> Some (d # p, q))"

definition split_last :: "char \<Rightarrow> string \<Rightarrow> (string \<times> string) option" where
  "split_last c s = (case split_first c (rev s) of None \<Rightarrow> None | Some (p, q) \<Rightarrow> Some (rev q, rev p))"

lemma split_first_Some: "split_first c s = Some (p, q) \<Longrightarrow> s = p @ c # q \<and> c \<notin> set p"
  by (induction s arbitrary: p) (auto split: if_splits option.splits)

lemma split_first_None: "split_first c s = None \<longleftrightarrow> c \<notin> set s"
  by (induction s) (auto split: option.splits)

lemma split_first_append: "c \<notin> set p \<Longrightarrow> split_first c (p @ c # q) = Some (p, q)"
  by (induction p) auto

lemma split_last_append: "c \<notin> set q \<Longrightarrow> split_last c (p @ c # q) = Some (p, q)"
  by (simp add: split_last_def split_first_append)

lemma split_last_Some: "split_last c s = Some (p, q) \<Longrightarrow> s = p @ c # q \<and> c \<notin> set q"
proof -
  assume "split_last c s = Some (p, q)"
  then have "split_first c (rev s) = Some (rev q, rev p)"
    by (auto simp: split_last_def split: option.splits)
  from split_first_Some [OF this] have "rev s = rev q @ c # rev p" "c \<notin> set q" by simp_all
  then show ?thesis by (metis append.assoc append_Cons append_Nil rev.simps(2) rev_append rev_rev_ident)
qed

lemma split_last_None: "split_last c s = None \<longleftrightarrow> c \<notin> set s"
  by (simp add: split_last_def split_first_None split: option.split prod.split)
    (metis set_rev split_first_None option.distinct(1))

subsection \<open>Printed numbers\<close>

lemma parse_unsigned_nat [simp]: "n < 2 ^ bits \<Longrightarrow> parse_unsigned bits (nat_to_string n) = Some n"
proof -
  assume "n < 2 ^ bits"
  have "hd (nat_to_string n) \<noteq> CHR ''+''"
    using nat_to_string_digits [of "hd (nat_to_string n)" n] by (auto simp: is_ascii_digit_def char_code_def)
  then have "(case nat_to_string n of [] \<Rightarrow> nat_to_string n | c # t \<Rightarrow> if c = CHR ''+'' then t else nat_to_string n) =
    nat_to_string n" by (cases "nat_to_string n") auto
  then show ?thesis using \<open>n < 2 ^ bits\<close> by (simp add: parse_unsigned_def)
qed

lemma nat_to_string_no_char: "\<not> is_ascii_digit c \<Longrightarrow> c \<notin> set (nat_to_string n)"
  by (auto dest: nat_to_string_digits)

end
