(* ===== verification/Running_Context.thy ===== *)
theory Running_Context
  imports Decision_Types "HOL-Library.While_Combinator"
begin

text \<open>
  The running context cache of \<open>decision/src/core/context.rs\<close>: what a work agent did recently, kept
  for the prompt of the decision engine, with a counter of its size in bytes. Sizes are \<open>usize\<close>
  words and wrap as in a release build. The numbers of bytes and of entries of the stored records
  are what the code means the counter and the limits to track.
\<close>

subsection \<open>Records\<close>

record tool_call_record =
  tc_name :: string
  tc_input :: "string option"
  tc_output :: "string option"
  tc_timestamp :: instant
  tc_success :: bool

definition tool_call_new :: "instant \<Rightarrow> string \<Rightarrow> bool \<Rightarrow> tool_call_record" where
  "tool_call_new now n ok =
     \<lparr>tc_name = n, tc_input = None, tc_output = None, tc_timestamp = now, tc_success = ok\<rparr>"

datatype change_type = ChangeCreated | ChangeModified | ChangeDeleted

fun change_type_display :: "change_type \<Rightarrow> string" where
  "change_type_display ChangeCreated = ''created''"
| "change_type_display ChangeModified = ''modified''"
| "change_type_display ChangeDeleted = ''deleted''"

record file_change_record =
  fc_path :: string
  fc_change :: change_type
  fc_diff :: "string option"

definition file_change_new :: "string \<Rightarrow> change_type \<Rightarrow> file_change_record" where
  "file_change_new p t = \<lparr>fc_path = p, fc_change = t, fc_diff = None\<rparr>"

record running_context =
  rc_tool_calls :: "tool_call_record list"
  rc_file_changes :: "file_change_record list"
  rc_thinking :: "string option"
  rc_key_outputs :: "string list"
  rc_max_entries :: nat
  rc_max_bytes :: u64
  rc_size :: u64

definition running_context_new :: "nat \<Rightarrow> running_context" where
  "running_context_new n =
     \<lparr>rc_tool_calls = [], rc_file_changes = [], rc_thinking = None, rc_key_outputs = [],
      rc_max_entries = n, rc_max_bytes = 10240, rc_size = 0\<rparr>"

definition running_context_default :: running_context where
  "running_context_default = running_context_new 100"

definition with_max_bytes :: "u64 \<Rightarrow> running_context \<Rightarrow> running_context" where
  "with_max_bytes m c = c\<lparr>rc_max_bytes := m\<rparr>"

subsection \<open>Sizes\<close>

text \<open>\<open>len()\<close> of a string, and of an optional one that counts as empty when absent.\<close>

definition str_len :: "string \<Rightarrow> u64" where
  "str_len s = of_nat (length s)"

fun opt_len :: "string option \<Rightarrow> u64" where
  "opt_len None = 0"
| "opt_len (Some s) = str_len s"

definition tool_call_size :: "tool_call_record \<Rightarrow> u64" where
  "tool_call_size r = str_len (tc_name r) + opt_len (tc_input r) + opt_len (tc_output r) + 50"

definition file_change_size :: "file_change_record \<Rightarrow> u64" where
  "file_change_size r = str_len (fc_path r) + opt_len (fc_diff r) + 20"

definition recalculate_size :: "running_context \<Rightarrow> running_context" where
  "recalculate_size c = c\<lparr>rc_size :=
     sum_list (map tool_call_size (rc_tool_calls c)) + sum_list (map file_change_size (rc_file_changes c)) +
     opt_len (rc_thinking c) + sum_list (map str_len (rc_key_outputs c))\<rparr>"

subsection \<open>Adding entries\<close>

text \<open>The eviction loop the three operations share: the oldest entries go while there are too many
  of them or the new one of size \<open>e\<close> would not fit. The loop ends when nothing is left to remove.\<close>

fun evict :: "('a \<Rightarrow> u64) \<Rightarrow> nat \<Rightarrow> u64 \<Rightarrow> u64 \<Rightarrow> 'a list \<Rightarrow> u64 \<Rightarrow> 'a list \<times> u64" where
  "evict sz cap lim e [] s = ([], s)"
| "evict sz cap lim e (x # xs) s =
     (if cap \<le> length (x # xs) \<or> lim < s + e then evict sz cap lim e xs (s - sz x) else (x # xs, s))"

definition add_tool_call :: "tool_call_record \<Rightarrow> running_context \<Rightarrow> running_context" where
  "add_tool_call r c =
     (let e = tool_call_size r
      in if rc_max_bytes c < e then c
         else case evict tool_call_size (rc_max_entries c) (rc_max_bytes c) e (rc_tool_calls c) (rc_size c) of
                (ts, s) \<Rightarrow> c\<lparr>rc_tool_calls := ts @ [r], rc_size := s + e\<rparr>)"

definition add_file_change :: "file_change_record \<Rightarrow> running_context \<Rightarrow> running_context" where
  "add_file_change r c =
     (let e = file_change_size r
      in if rc_max_bytes c < e then
           let r' = file_change_new (fc_path r) (fc_change r); e' = file_change_size r'
           in if rc_max_bytes c < e' then c
              else c\<lparr>rc_file_changes := rc_file_changes c @ [r'], rc_size := rc_size c + e'\<rparr>
         else case evict file_change_size (rc_max_entries c) (rc_max_bytes c) e (rc_file_changes c) (rc_size c) of
                (fs, s) \<Rightarrow> c\<lparr>rc_file_changes := fs @ [r], rc_size := s + e\<rparr>)"

definition add_key_output :: "string \<Rightarrow> running_context \<Rightarrow> running_context" where
  "add_key_output text c =
     (let e = str_len text
      in if rc_max_bytes c < e then
           let t = take (unat (rc_max_bytes c - 10)) text
           in c\<lparr>rc_key_outputs := rc_key_outputs c @ [t], rc_size := str_len t\<rparr>
         else case evict str_len (rc_max_entries c) (rc_max_bytes c) e (rc_key_outputs c) (rc_size c) of
                (ks, s) \<Rightarrow> c\<lparr>rc_key_outputs := ks @ [text], rc_size := s + e\<rparr>)"

definition update_thinking_summary :: "string \<Rightarrow> running_context \<Rightarrow> running_context" where
  "update_thinking_summary text c =
     (let old = opt_len (rc_thinking c); m = rc_max_bytes c div 4;
          t = (if m < str_len text then drop (unat (str_len text - m)) text else text)
      in c\<lparr>rc_thinking := Some t, rc_size := rc_size c - old + str_len t\<rparr>)"

definition rc_clear :: "running_context \<Rightarrow> running_context" where
  "rc_clear c = c\<lparr>rc_tool_calls := [], rc_file_changes := [], rc_thinking := None, rc_key_outputs := [],
     rc_size := 0\<rparr>"

definition is_within_limits :: "running_context \<Rightarrow> bool" where
  "is_within_limits c \<longleftrightarrow> rc_size c \<le> rc_max_bytes c"

subsection \<open>Compression\<close>

fun shrink :: "('a \<Rightarrow> u64) \<Rightarrow> nat \<Rightarrow> u64 \<Rightarrow> 'a list \<Rightarrow> u64 \<Rightarrow> 'a list \<times> u64" where
  "shrink sz keep lim [] s = ([], s)"
| "shrink sz keep lim (x # xs) s =
     (if keep < length (x # xs) \<and> lim < s then shrink sz keep lim xs (s - sz x) else (x # xs, s))"

definition over_limit :: "running_context \<Rightarrow> bool" where
  "over_limit c \<longleftrightarrow> rc_max_bytes c < rc_size c"

definition shrink_tools :: "running_context \<Rightarrow> running_context" where
  "shrink_tools c = (case shrink tool_call_size 10 (rc_max_bytes c) (rc_tool_calls c) (rc_size c) of
     (ts, s) \<Rightarrow> c\<lparr>rc_tool_calls := ts, rc_size := s\<rparr>)"

definition shrink_thinking :: "running_context \<Rightarrow> running_context" where
  "shrink_thinking c =
     (case rc_thinking c of
        Some t \<Rightarrow>
          (if over_limit c \<and> 100 < length t
           then recalculate_size (c\<lparr>rc_thinking := Some (drop (length t - 100) t)\<rparr>) else c)
      | None \<Rightarrow> c)"

definition strip_diffs :: "running_context \<Rightarrow> running_context" where
  "strip_diffs c =
     (if over_limit c then
        c\<lparr>rc_file_changes := map (\<lambda>f. f\<lparr>fc_diff := None\<rparr>) (rc_file_changes c),
          rc_size := rc_size c - sum_list (map (\<lambda>f. opt_len (fc_diff f)) (rc_file_changes c))\<rparr>
      else c)"

definition shrink_outputs :: "running_context \<Rightarrow> running_context" where
  "shrink_outputs c = (case shrink str_len 5 (rc_max_bytes c) (rc_key_outputs c) (rc_size c) of
     (ks, s) \<Rightarrow> c\<lparr>rc_key_outputs := ks, rc_size := s\<rparr>)"

definition compress_pass :: "running_context \<Rightarrow> running_context" where
  "compress_pass c = shrink_outputs (strip_diffs (shrink_thinking (shrink_tools c)))"

text \<open>The outer loop repeats the pass; \<open>None\<close> means that it does not return.\<close>

definition compress :: "running_context \<Rightarrow> running_context option" where
  "compress c = while_option over_limit compress_pass c"

subsection \<open>Summary for the prompt\<close>

text \<open>The statistics of the tools are a hash map, so \<open>ord\<close> is the order in which it is iterated.\<close>

fun count_name :: "string \<Rightarrow> (string \<times> nat) list \<Rightarrow> (string \<times> nat) list" where
  "count_name n [] = [(n, 1)]"
| "count_name n ((m, k) # ms) = (if m = n then (m, k + 1) # ms else (m, k) # count_name n ms)"

definition tool_stats :: "running_context \<Rightarrow> (string \<times> nat) list" where
  "tool_stats c = fold (\<lambda>t. count_name (tc_name t)) (rc_tool_calls c) []"

definition generate_summary ::
    "((string \<times> nat) list \<Rightarrow> (string \<times> nat) list) \<Rightarrow> running_context \<Rightarrow> string" where
  "generate_summary ord c =
     ''Files: '' @ str_join '', '' (map (\<lambda>f. fc_path f @ '' ('' @ change_type_display (fc_change f) @ '')'')
        (rc_file_changes c)) @
     [CHR 0x0A] @ ''Tools: '' @ str_join '', '' (map (\<lambda>(n, k). n @ '': '' @ nat_to_string k @ '' calls'')
        (ord (tool_stats c))) @
     [CHR 0x0A] @ ''Recent: '' @ str_join ([CHR 0x0A] @ ''  '') (take 3 (rev (rc_key_outputs c)))"

subsection \<open>What the counter means\<close>

fun opt_bytes :: "string option \<Rightarrow> nat" where
  "opt_bytes None = 0"
| "opt_bytes (Some s) = length s"

definition tool_bytes :: "tool_call_record \<Rightarrow> nat" where
  "tool_bytes r = length (tc_name r) + opt_bytes (tc_input r) + opt_bytes (tc_output r) + 50"

definition file_bytes :: "file_change_record \<Rightarrow> nat" where
  "file_bytes r = length (fc_path r) + opt_bytes (fc_diff r) + 20"

definition stored_bytes :: "running_context \<Rightarrow> nat" where
  "stored_bytes c = sum_list (map tool_bytes (rc_tool_calls c)) + sum_list (map file_bytes (rc_file_changes c)) +
     opt_bytes (rc_thinking c) + sum_list (map length (rc_key_outputs c))"

text \<open>The counter is exact, modulo the width of the word.\<close>

definition counter_exact :: "running_context \<Rightarrow> bool" where
  "counter_exact c \<longleftrightarrow> rc_size c = of_nat (stored_bytes c)"

text \<open>Each kind of entry keeps its own bounds; the sum of all kinds does not keep to the limit.\<close>

definition kind_ok :: "('a \<Rightarrow> nat) \<Rightarrow> running_context \<Rightarrow> 'a list \<Rightarrow> bool" where
  "kind_ok sz c xs \<longleftrightarrow> sum_list (map sz xs) \<le> unat (rc_max_bytes c) \<and> length xs \<le> max 1 (rc_max_entries c)"

definition cache_ok :: "running_context \<Rightarrow> bool" where
  "cache_ok c \<longleftrightarrow> counter_exact c \<and> unat (rc_max_bytes c) < 2 ^ 61 \<and>
     kind_ok tool_bytes c (rc_tool_calls c) \<and> kind_ok file_bytes c (rc_file_changes c) \<and>
     kind_ok length c (rc_key_outputs c) \<and> opt_bytes (rc_thinking c) \<le> unat (rc_max_bytes c) div 4"

datatype cache_op =
    AddToolCall tool_call_record
  | AddFileChange file_change_record
  | AddKeyOutput string
  | UpdateThinking string

fun cache_step :: "cache_op \<Rightarrow> running_context \<Rightarrow> running_context" where
  "cache_step (AddToolCall r) = add_tool_call r"
| "cache_step (AddFileChange r) = add_file_change r"
| "cache_step (AddKeyOutput t) = add_key_output t"
| "cache_step (UpdateThinking t) = update_thinking_summary t"

text \<open>Entries that are themselves within the limit; of the larger ones only the tool calls are
  handled without breaking the bookkeeping. Every string has a length that fits a word.\<close>

fun op_fits :: "u64 \<Rightarrow> cache_op \<Rightarrow> bool" where
  "op_fits m (AddToolCall r) \<longleftrightarrow> tool_bytes r < 2 ^ 64"
| "op_fits m (AddFileChange r) \<longleftrightarrow> file_bytes r \<le> unat m"
| "op_fits m (AddKeyOutput t) \<longleftrightarrow> length t \<le> unat m"
| "op_fits m (UpdateThinking t) \<longleftrightarrow> length t < 2 ^ 64"

lemma str_len_of_nat: "str_len s = of_nat (length s)"
  by (simp add: str_len_def)

lemma opt_len_of_nat: "opt_len s = of_nat (opt_bytes s)"
  by (cases s) (simp_all add: str_len_def)

lemma tool_call_size_of_nat: "tool_call_size r = of_nat (tool_bytes r)"
  by (simp add: tool_call_size_def tool_bytes_def str_len_def opt_len_of_nat)

lemma file_change_size_of_nat: "file_change_size r = of_nat (file_bytes r)"
  by (simp add: file_change_size_def file_bytes_def str_len_def opt_len_of_nat)

lemmas size_of_nat = str_len_of_nat opt_len_of_nat tool_call_size_of_nat file_change_size_of_nat

lemma sum_list_of_nat: "(\<And>x. sz x = (of_nat (nsz x) :: u64)) \<Longrightarrow> sum_list (map sz xs) = of_nat (sum_list (map nsz xs))"
  by (induction xs) simp_all

lemma evict_suffix:
  assumes sz: "\<And>x. sz x = (of_nat (nsz x) :: u64)" and ev: "evict sz cap lim e xs s = (ys, t)"
  shows "\<exists>ds. xs = ds @ ys \<and> t = s - of_nat (sum_list (map nsz ds))"
  using ev
proof (induction xs arbitrary: s)
  case (Cons x xs)
  show ?case
  proof (cases "cap \<le> length (x # xs) \<or> lim < s + e")
    case True
    then have "evict sz cap lim e xs (s - sz x) = (ys, t)" using Cons.prems by simp
    from Cons.IH [OF this] obtain ds where "xs = ds @ ys" "t = s - sz x - of_nat (sum_list (map nsz ds))"
      by blast
    then show ?thesis by (intro exI [of _ "x # ds"]) (simp add: sz)
  qed (use Cons.prems in auto)
qed simp

lemma evict_stops: "evict sz cap lim e xs s = (ys, t) \<Longrightarrow> ys = [] \<or> length ys < cap \<and> t + e \<le> lim"
  by (induction xs arbitrary: s) (auto simp: not_le not_less split: if_splits)


lemma unat_word: "n < 2 ^ 64 \<Longrightarrow> unat (of_nat n :: u64) = n"
  by (simp add: unat_of_nat)

lemma word_le_nat: "n < 2 ^ 64 \<Longrightarrow> (of_nat n :: u64) \<le> m \<longleftrightarrow> n \<le> unat m"
  by (simp add: word_le_nat_alt unat_word)

lemma word_less_nat: "n < 2 ^ 64 \<Longrightarrow> m < (of_nat n :: u64) \<longleftrightarrow> unat m < n"
  by (simp add: word_less_nat_alt unat_word)

lemma evict_kind:
  assumes sz: "\<And>x. sz x = (of_nat (nsz x) :: u64)"
    and ev: "evict sz cap m (of_nat e) xs (of_nat (rest + sum_list (map nsz xs))) = (ys, t)"
    and e: "e \<le> unat m" and small: "rest + sum_list (map nsz xs) + e < 2 ^ 64"
  shows "t = of_nat (rest + sum_list (map nsz ys))"
    and "sum_list (map nsz ys) + e \<le> unat m" and "length ys + 1 \<le> max 1 cap"
proof -
  obtain ds where xs: "xs = ds @ ys"
    and t: "t = of_nat (rest + sum_list (map nsz xs)) - of_nat (sum_list (map nsz ds))"
    using evict_suffix [OF sz ev] by blast
  show t': "t = of_nat (rest + sum_list (map nsz ys))" by (simp add: t xs)
  from evict_stops [OF ev] consider "ys = []" | "length ys < cap" "t + of_nat e \<le> m" by blast
  then have "sum_list (map nsz ys) + e \<le> unat m \<and> length ys + 1 \<le> max 1 cap"
  proof cases
    case 2
    have "rest + sum_list (map nsz ys) + e < 2 ^ 64" using small by (simp add: xs)
    moreover have "t + of_nat e = of_nat (rest + sum_list (map nsz ys) + e)" by (simp add: t')
    ultimately have "rest + sum_list (map nsz ys) + e \<le> unat m" using 2(2) by (simp only: word_le_nat)
    then show ?thesis using 2(1) by simp
  qed (use e in simp)
  then show "sum_list (map nsz ys) + e \<le> unat m" "length ys + 1 \<le> max 1 cap" by simp_all
qed

text \<open>The four operations keep the counter exact and every kind within its bounds.\<close>

lemma stored_bound: "cache_ok c \<Longrightarrow> stored_bytes c \<le> 3 * unat (rc_max_bytes c) + unat (rc_max_bytes c) div 4"
  by (simp add: cache_ok_def kind_ok_def stored_bytes_def)

lemma stored_room: "cache_ok c \<Longrightarrow> n \<le> unat (rc_max_bytes c) \<Longrightarrow> stored_bytes c + n < 2 ^ 64"
  using stored_bound [of c] div_le_dividend [of "unat (rc_max_bytes c)" 4] by (auto simp: cache_ok_def)

lemma add_tool_call_ok:
  assumes ok: "cache_ok c" and r: "tool_bytes r < 2 ^ 64"
  shows "cache_ok (add_tool_call r c)"
proof (cases "tool_bytes r \<le> unat (rc_max_bytes c)")
  case True
  define rest where "rest = sum_list (map file_bytes (rc_file_changes c)) + opt_bytes (rc_thinking c) +
    sum_list (map length (rc_key_outputs c))"
  have stored: "stored_bytes c = rest + sum_list (map tool_bytes (rc_tool_calls c))"
    by (simp add: stored_bytes_def rest_def)
  obtain ts s where ev: "evict tool_call_size (rc_max_entries c) (rc_max_bytes c) (of_nat (tool_bytes r))
      (rc_tool_calls c) (of_nat (rest + sum_list (map tool_bytes (rc_tool_calls c)))) = (ts, s)"
    by (metis surj_pair)
  have small: "rest + sum_list (map tool_bytes (rc_tool_calls c)) + tool_bytes r < 2 ^ 64"
    using stored_room [OF ok True] by (simp add: stored)
  note k = evict_kind [OF tool_call_size_of_nat ev True small]
  have fits: "\<not> rc_max_bytes c < of_nat (tool_bytes r)"
    using True by (simp only: word_less_nat [OF r] not_less simp_thms)
  have size: "rc_size c = of_nat (rest + sum_list (map tool_bytes (rc_tool_calls c)))"
    using ok by (simp only: cache_ok_def counter_exact_def stored)
  have new: "add_tool_call r c = c\<lparr>rc_tool_calls := ts @ [r], rc_size := s + of_nat (tool_bytes r)\<rparr>"
    by (simp only: add_tool_call_def tool_call_size_of_nat Let_def fits if_False size ev prod.case)
  show ?thesis
    using ok k by (simp add: new cache_ok_def counter_exact_def kind_ok_def stored_bytes_def rest_def k(1))
next
  case False
  then have "rc_max_bytes c < tool_call_size r"
    by (simp only: tool_call_size_of_nat word_less_nat [OF r] not_le)
  then show ?thesis using ok by (simp add: add_tool_call_def Let_def)
qed

lemma add_file_change_ok:
  assumes ok: "cache_ok c" and r: "file_bytes r \<le> unat (rc_max_bytes c)"
  shows "cache_ok (add_file_change r c)"
proof -
  define rest where "rest = sum_list (map tool_bytes (rc_tool_calls c)) + opt_bytes (rc_thinking c) +
    sum_list (map length (rc_key_outputs c))"
  have stored: "stored_bytes c = rest + sum_list (map file_bytes (rc_file_changes c))"
    by (simp add: stored_bytes_def rest_def)
  obtain fs s where ev: "evict file_change_size (rc_max_entries c) (rc_max_bytes c) (of_nat (file_bytes r))
      (rc_file_changes c) (of_nat (rest + sum_list (map file_bytes (rc_file_changes c)))) = (fs, s)"
    by (metis surj_pair)
  have small: "rest + sum_list (map file_bytes (rc_file_changes c)) + file_bytes r < 2 ^ 64"
    using stored_room [OF ok r] by (simp add: stored)
  then have word: "file_bytes r < 2 ^ 64" by simp
  note k = evict_kind [OF file_change_size_of_nat ev r small]
  have fits: "\<not> rc_max_bytes c < of_nat (file_bytes r)"
    using r by (simp only: word_less_nat [OF word] not_less simp_thms)
  have size: "rc_size c = of_nat (rest + sum_list (map file_bytes (rc_file_changes c)))"
    using ok by (simp only: cache_ok_def counter_exact_def stored)
  have new: "add_file_change r c = c\<lparr>rc_file_changes := fs @ [r], rc_size := s + of_nat (file_bytes r)\<rparr>"
    by (simp only: add_file_change_def file_change_size_of_nat Let_def fits if_False size ev prod.case)
  show ?thesis
    using ok k by (simp add: new cache_ok_def counter_exact_def kind_ok_def stored_bytes_def rest_def k(1))
qed

lemma add_key_output_ok:
  assumes ok: "cache_ok c" and r: "length x \<le> unat (rc_max_bytes c)"
  shows "cache_ok (add_key_output x c)"
proof -
  define rest where "rest = sum_list (map tool_bytes (rc_tool_calls c)) +
    sum_list (map file_bytes (rc_file_changes c)) + opt_bytes (rc_thinking c)"
  have stored: "stored_bytes c = rest + sum_list (map length (rc_key_outputs c))"
    by (simp add: stored_bytes_def rest_def)
  obtain ks s where ev: "evict str_len (rc_max_entries c) (rc_max_bytes c) (of_nat (length x))
      (rc_key_outputs c) (of_nat (rest + sum_list (map length (rc_key_outputs c)))) = (ks, s)"
    by (metis surj_pair)
  have small: "rest + sum_list (map length (rc_key_outputs c)) + length x < 2 ^ 64"
    using stored_room [OF ok r] by (simp add: stored)
  then have word: "length x < 2 ^ 64" by simp
  note k = evict_kind [OF str_len_of_nat ev r small]
  have fits: "\<not> rc_max_bytes c < of_nat (length x)"
    using r by (simp only: word_less_nat [OF word] not_less simp_thms)
  have size: "rc_size c = of_nat (rest + sum_list (map length (rc_key_outputs c)))"
    using ok by (simp only: cache_ok_def counter_exact_def stored)
  have new: "add_key_output x c = c\<lparr>rc_key_outputs := ks @ [x], rc_size := s + of_nat (length x)\<rparr>"
    by (simp only: add_key_output_def str_len_of_nat [of x] Let_def fits if_False size ev prod.case)
  show ?thesis
    using ok k by (simp add: new cache_ok_def counter_exact_def kind_ok_def stored_bytes_def rest_def k(1))
qed

lemma update_thinking_ok:
  assumes ok: "cache_ok c" and t: "length text < 2 ^ 64"
  shows "cache_ok (update_thinking_summary text c)"
proof -
  define m where "m = rc_max_bytes c div 4"
  define t' where "t' = (if m < str_len text then drop (unat (str_len text - m)) text else text)"
  have len: "unat (str_len text) = length text" using t by (simp only: str_len_def unat_word)
  have "length t' \<le> unat m"
  proof (cases "m < str_len text")
    case True
    then have "unat (str_len text - m) = length text - unat m"
      by (simp only: unat_sub less_imp_le [OF True] len)
    then show ?thesis by (simp add: t'_def True)
  next
    case False
    then show ?thesis by (simp add: t'_def word_less_nat_alt len)
  qed
  then have short: "length t' \<le> unat (rc_max_bytes c) div 4" by (simp add: m_def unat_div)
  have new: "update_thinking_summary text c =
      c\<lparr>rc_thinking := Some t', rc_size := rc_size c - opt_len (rc_thinking c) + str_len t'\<rparr>"
    by (simp add: update_thinking_summary_def Let_def t'_def m_def)
  show ?thesis
    using ok short
    by (simp add: new cache_ok_def counter_exact_def kind_ok_def stored_bytes_def size_of_nat)
qed

lemma cache_step_max [simp]:
  "rc_max_bytes (cache_step a c) = rc_max_bytes c" "rc_max_entries (cache_step a c) = rc_max_entries c"
  by (cases a; simp add: add_tool_call_def add_file_change_def add_key_output_def
    update_thinking_summary_def Let_def split: prod.split)+

lemma cache_step_ok: "cache_ok c \<Longrightarrow> op_fits (rc_max_bytes c) a \<Longrightarrow> cache_ok (cache_step a c)"
  by (cases a) (simp_all add: add_tool_call_ok add_file_change_ok add_key_output_ok update_thinking_ok)

lemma cache_run_ok:
  "cache_ok c \<Longrightarrow> \<forall>a\<in>set ops. op_fits (rc_max_bytes c) a \<Longrightarrow> cache_ok (fold cache_step ops c)"
  by (induction ops arbitrary: c) (simp_all add: cache_step_ok)

lemma cache_new_ok: "unat m < 2 ^ 61 \<Longrightarrow> cache_ok (with_max_bytes m (running_context_new n))"
  by (simp add: cache_ok_def counter_exact_def kind_ok_def stored_bytes_def with_max_bytes_def
    running_context_new_def)

subsection \<open>When compression returns\<close>

lemma shrink_stops: "shrink sz keep lim xs s = (ys, t) \<Longrightarrow> length ys \<le> keep \<or> t \<le> lim"
  by (induction xs arbitrary: s) (auto simp: not_less split: if_splits)

lemma shrink_nop: "length xs \<le> keep \<or> s \<le> lim \<Longrightarrow> shrink sz keep lim xs s = (xs, s)"
  by (cases xs) (auto simp: not_less)

lemma recalculate_size_frame [simp]:
  "rc_max_bytes (recalculate_size c) = rc_max_bytes c" "rc_tool_calls (recalculate_size c) = rc_tool_calls c"
  "rc_thinking (recalculate_size c) = rc_thinking c" "rc_key_outputs (recalculate_size c) = rc_key_outputs c"
  "rc_file_changes (recalculate_size c) = rc_file_changes c"
  by (simp_all add: recalculate_size_def)

text \<open>What a pass cannot reduce any further.\<close>

definition residual :: "running_context \<Rightarrow> bool" where
  "residual c \<longleftrightarrow> length (rc_tool_calls c) \<le> 10 \<and> length (rc_key_outputs c) \<le> 5 \<and>
     (\<forall>f\<in>set (rc_file_changes c). fc_diff f = None) \<and> opt_bytes (rc_thinking c) \<le> 100"

lemma residual_pass:
  assumes r: "residual c"
  shows "compress_pass c = c"
proof -
  have t: "shrink_tools c = c" using r by (simp add: shrink_tools_def residual_def shrink_nop)
  have th: "shrink_thinking c = c"
    using r by (auto simp: shrink_thinking_def residual_def split: option.split)
  have "map (\<lambda>f. f\<lparr>fc_diff := None\<rparr>) (rc_file_changes c) = rc_file_changes c"
    using r by (intro map_idI) (auto simp: residual_def)
  moreover have "sum_list (map (\<lambda>f. opt_len (fc_diff f)) (rc_file_changes c)) = 0"
    using r by (simp add: residual_def cong: map_cong)
  ultimately have d: "strip_diffs c = c" by (simp add: strip_diffs_def)
  have o: "shrink_outputs c = c" using r by (simp add: shrink_outputs_def residual_def shrink_nop)
  show ?thesis by (simp add: compress_pass_def t th d o)
qed

lemma pass_max [simp]:
  "rc_max_bytes (shrink_tools c) = rc_max_bytes c" "rc_max_bytes (shrink_thinking c) = rc_max_bytes c"
  "rc_max_bytes (strip_diffs c) = rc_max_bytes c" "rc_max_bytes (shrink_outputs c) = rc_max_bytes c"
  by (simp_all add: shrink_tools_def shrink_thinking_def strip_diffs_def shrink_outputs_def
    split: prod.split option.split)

lemma stays_within:
  "\<not> over_limit c \<Longrightarrow> shrink_thinking c = c" "\<not> over_limit c \<Longrightarrow> strip_diffs c = c"
  "\<not> over_limit c \<Longrightarrow> shrink_outputs c = c"
  by (auto simp: shrink_thinking_def strip_diffs_def shrink_outputs_def over_limit_def not_less shrink_nop
    split: option.split)

lemma pass_residual:
  assumes over: "over_limit (compress_pass c)"
  shows "residual (compress_pass c)"
proof -
  define c1 where "c1 = shrink_tools c"
  define c2 where "c2 = shrink_thinking c1"
  define c3 where "c3 = strip_diffs c2"
  have pass: "compress_pass c = shrink_outputs c3" by (simp add: compress_pass_def c1_def c2_def c3_def)
  have o3: "over_limit c3" using over stays_within(3) [of c3] unfolding pass by metis
  have o2: "over_limit c2" using o3 stays_within(2) [of c2] unfolding c3_def by metis
  have o1: "over_limit c1" using o2 stays_within(1) [of c1] unfolding c2_def by metis
  have tools: "length (rc_tool_calls c1) \<le> 10"
    using o1 shrink_stops [of tool_call_size 10 "rc_max_bytes c" "rc_tool_calls c" "rc_size c"]
    by (auto simp: c1_def shrink_tools_def over_limit_def split: prod.splits)
  have think: "opt_bytes (rc_thinking c2) \<le> 100"
    using o1 by (auto simp: c2_def shrink_thinking_def split: option.splits if_splits)
  have files: "\<forall>f\<in>set (rc_file_changes c3). fc_diff f = None" using o2 by (auto simp: c3_def strip_diffs_def)
  have outs: "length (rc_key_outputs (shrink_outputs c3)) \<le> 5"
    using over shrink_stops [of str_len 5 "rc_max_bytes c3" "rc_key_outputs c3" "rc_size c3"]
    by (auto simp: pass shrink_outputs_def over_limit_def split: prod.splits)
  have frame: "rc_tool_calls (shrink_outputs c3) = rc_tool_calls c1" "rc_thinking (shrink_outputs c3) = rc_thinking c2"
    "rc_file_changes (shrink_outputs c3) = rc_file_changes c3"
    by (auto simp: shrink_outputs_def c3_def strip_diffs_def c2_def shrink_thinking_def
      split: prod.split option.split)
  show ?thesis using tools think files outs by (simp add: residual_def pass frame)
qed

lemma compress_unfold: "compress c = (if over_limit c then compress (compress_pass c) else Some c)"
  unfolding compress_def by (rule while_option_unfold)

lemma compress_stuck: "over_limit c \<Longrightarrow> compress_pass c = c \<Longrightarrow> compress c = None"
proof -
  assume over: "over_limit c" and same: "compress_pass c = c"
  have "(compress_pass ^^ k) c = c" for k by (induction k) (simp_all add: same)
  then show ?thesis using over by (simp add: compress_def while_option_def)
qed

text \<open>A cache of 100 bytes that has received two ordinary entries.\<close>

definition crowded_ops :: "cache_op list" where
  "crowded_ops = [AddFileChange (file_change_new (replicate 70 CHR 0x61) ChangeModified),
     AddToolCall (tool_call_new 0 ''t'' True)]"

definition crowded_cache :: running_context where
  "crowded_cache = fold cache_step crowded_ops (with_max_bytes 100 (running_context_new 10))"

lemma crowded_cache_eval:
  "rc_size crowded_cache = 141" "rc_max_bytes crowded_cache = 100" "residual crowded_cache"
  by code_simp+

text \<open>C1: \<open>compress\<close> returns exactly if one pass over the cache brings it within its limit: then the
  result is the cache after that pass, or the cache itself when it was within the limit before. In
  every other case the loop repeats a pass that changes nothing, for ever. Two ordinary entries are
  enough: a file change of 90 bytes and a tool call of 51 bytes in a cache of 100.\<close>

theorem compress_returns:
  "compress c =
     (if \<not> over_limit c then Some c
      else if \<not> over_limit (compress_pass c) then Some (compress_pass c) else None) \<and>
   compress crowded_cache = None"
proof
  show one: "compress c = (if \<not> over_limit c then Some c
      else if \<not> over_limit (compress_pass c) then Some (compress_pass c) else None)" for c
  proof (cases "over_limit c \<and> over_limit (compress_pass c)")
    case True
    then have "compress (compress_pass c) = None" by (intro compress_stuck residual_pass pass_residual) simp_all
    then show ?thesis using True compress_unfold [of c] by simp
  next
    case False
    then show ?thesis using compress_unfold [of c] compress_unfold [of "compress_pass c"] by auto
  qed
  show "compress crowded_cache = None"
    by (rule compress_stuck) (simp_all add: over_limit_def crowded_cache_eval residual_pass)
qed

text \<open>C2: A cache that receives entries which are each within its limit counts their bytes exactly,
  keeps no more entries of a kind than configured (at least one), and each kind of entry, but not
  their sum, stays within the limit: the cache holds at most three and a quarter times as much.
  Entries above the limit break this: such a key output sets the counter to its own length, and a
  later eviction makes the counter wrap below zero.\<close>

theorem running_cache_bounds:
  assumes "unat m < 2 ^ 61" and "\<forall>a\<in>set ops. op_fits m a"
  shows "let c = fold cache_step ops (with_max_bytes m (running_context_new n)) in
    unat (rc_size c) = stored_bytes c \<and> stored_bytes c \<le> 3 * unat m + unat m div 4 \<and>
    length (rc_tool_calls c) \<le> max 1 n \<and> length (rc_file_changes c) \<le> max 1 n \<and>
    length (rc_key_outputs c) \<le> max 1 n"
proof -
  define c where "c = fold cache_step ops (with_max_bytes m (running_context_new n))"
  have frame: "rc_max_bytes (fold cache_step ops c0) = rc_max_bytes c0 \<and>
    rc_max_entries (fold cache_step ops c0) = rc_max_entries c0" for c0
    by (induction ops arbitrary: c0) auto
  have max: "rc_max_bytes c = m" "rc_max_entries c = n"
    by (simp_all add: c_def frame with_max_bytes_def running_context_new_def)
  have ok: "cache_ok c" unfolding c_def
    by (rule cache_run_ok [OF cache_new_ok [OF assms(1)]]) (use assms(2) in \<open>simp add: with_max_bytes_def\<close>)
  have "stored_bytes c < 2 ^ 64" using stored_room [OF ok, of 0] by simp
  then have "unat (rc_size c) = stored_bytes c" using ok by (simp only: cache_ok_def counter_exact_def unat_word)
  then show ?thesis
    using ok stored_bound [OF ok] by (simp add: max cache_ok_def kind_ok_def flip: c_def)
qed

definition wrapping_ops :: "cache_op list" where
  "wrapping_ops = map AddKeyOutput [replicate 20 CHR 0x61, replicate 21 CHR 0x61, replicate 15 CHR 0x61]"

theorem running_cache_bounds_witness:
  "unat (rc_size crowded_cache) = stored_bytes crowded_cache \<and>
   stored_bytes crowded_cache \<le> 3 * unat (100 :: u64) + unat (100 :: u64) div 4 \<and>
   \<not> is_within_limits crowded_cache"
proof -
  have "unat (100 :: u64) < 2 ^ 61" "\<forall>a\<in>set crowded_ops. op_fits 100 a"
    by (simp_all add: crowded_ops_def file_bytes_def file_change_new_def tool_bytes_def tool_call_new_def)
  from running_cache_bounds [OF this, of 10] show ?thesis
    by (simp add: is_within_limits_def crowded_cache_eval Let_def flip: crowded_cache_def)
qed

lemma oversized_output_wraps:
  "rc_size (fold cache_step wrapping_ops (with_max_bytes 20 (running_context_new 10))) = 5 \<and>
   stored_bytes (fold cache_step wrapping_ops (with_max_bytes 20 (running_context_new 10))) = 25"
  by code_simp

end
