(* ===== verification/Git_State.thy ===== *)
theory Git_State
  imports Rust_Iterators
begin

text \<open>
  \<open>decision/src/state/git_state.rs\<close>: the state of a worktree as the decision layer sees it, read from
  the output of git. Git is the parameter \<open>git_env\<close>: whether a path exists, and what a command prints
  (on the right) or complains about (on the left). One analysis runs several commands against the
  same state of the repository. What the theorems rely on of git is stated as named hypotheses.
\<close>

datatype git_state_error =
    NotAGitRepository string
  | WorktreeNotFound string
  | GitCommandFailed string
  | GitTimeout u64
  | GitParseError string
  | GitInvalidPath

fun git_state_error_display :: "git_state_error \<Rightarrow> string" where
  "git_state_error_display (NotAGitRepository p) = ''not a git repository: '' @ p"
| "git_state_error_display (WorktreeNotFound p) = ''worktree not found: '' @ p"
| "git_state_error_display (GitCommandFailed e) = ''git command failed: '' @ e"
| "git_state_error_display (GitTimeout n) = ''git command timeout after '' @ nat_to_string (unat n) @ ''ms''"
| "git_state_error_display (GitParseError e) = ''failed to parse output: '' @ e"
| "git_state_error_display GitInvalidPath = ''worktree path is invalid''"

subsection \<open>File status\<close>

datatype file_change_type =
    FileAdded | FileModified | FileDeleted | FileRenamed | FileCopied | FileUntracked | FileIgnored | FileUnmerged

definition from_porcelain :: "string \<Rightarrow> file_change_type option" where
  "from_porcelain code =
     (if code \<in> {''M'', ''MM''} then Some FileModified
      else if code \<in> {''A'', ''AM'', ''AD''} then Some FileAdded
      else if code \<in> {''D'', ''DM''} then Some FileDeleted
      else if code \<in> {''R'', ''RM''} then Some FileRenamed
      else if code \<in> {''C'', ''CM''} then Some FileCopied
      else if code = ''??'' then Some FileUntracked
      else if code = ''!!'' then Some FileIgnored
      else if code \<in> {''UU'', ''AA'', ''DD''} then Some FileUnmerged
      else None)"

record file_status =
  fst_path :: string
  fst_change :: file_change_type
  fst_staged :: bool
  fst_new :: bool

fun or_else :: "'a option \<Rightarrow> 'a \<Rightarrow> 'a" where
  "or_else (Some x) y = x"
| "or_else None y = y"

definition change_of_codes :: "string \<Rightarrow> string \<Rightarrow> file_change_type" where
  "change_of_codes idx wt =
     (let both = or_else (from_porcelain (idx @ wt)) FileModified
      in if wt \<noteq> '' '' \<and> wt \<noteq> ''?'' then or_else (from_porcelain wt) both
         else if idx \<noteq> '' '' \<and> idx \<noteq> ''?'' then or_else (from_porcelain idx) both
         else both)"

definition from_porcelain_line :: "string \<Rightarrow> file_status option" where
  "from_porcelain_line line =
     (if length line < 3 then None
      else
        let idx = take 1 line; wt = take 1 (drop 1 line); c = change_of_codes idx wt
        in Some \<lparr>fst_path = trim (drop 3 line), fst_change = c,
             fst_staged = (idx \<noteq> '' '' \<and> idx \<noteq> ''?'' \<and> idx \<noteq> ''!''),
             fst_new = (c = FileAdded \<or> c = FileUntracked)\<rparr>)"

record git_state =
  gs_branch :: string
  gs_uncommitted :: bool
  gs_files :: "file_status list"
  gs_ahead :: nat
  gs_behind :: nat
  gs_conflicts :: bool
  gs_sha :: "string option"
  gs_message :: "string option"
  gs_healthy :: bool
  gs_last_activity :: "string option"

definition git_state_default :: git_state where
  "git_state_default =
     \<lparr>gs_branch = [], gs_uncommitted = False, gs_files = [], gs_ahead = 0, gs_behind = 0, gs_conflicts = False,
      gs_sha = None, gs_message = None, gs_healthy = True, gs_last_activity = None\<rparr>"

definition has_staged_changes :: "git_state \<Rightarrow> bool" where
  "has_staged_changes g = list_ex fst_staged (gs_files g)"

definition has_untracked_files :: "git_state \<Rightarrow> bool" where
  "has_untracked_files g = list_ex (\<lambda>f. fst_change f = FileUntracked) (gs_files g)"

definition needs_commit_before_switch :: "git_state \<Rightarrow> bool" where
  "needs_commit_before_switch g \<longleftrightarrow> gs_uncommitted g \<and> \<not> has_staged_changes g"

subsection \<open>Parsing\<close>

definition parse_status :: "string \<Rightarrow> file_status list" where
  "parse_status out = List.map_filter from_porcelain_line (str_lines out)"

definition parse_count :: "string \<Rightarrow> nat" where
  "parse_count s = or_else (parse_unsigned 64 s) 0"

definition parse_ahead_behind :: "string \<Rightarrow> nat \<times> nat" where
  "parse_ahead_behind out =
     (case split_on (CHR 0x09) (trim out) of
        [a, b] \<Rightarrow> (parse_count a, parse_count b)
      | _ \<Rightarrow> (0, 0))"

definition parse_log :: "string \<Rightarrow> (string \<times> string) option" where
  "parse_log out = (let t = trim out in if t = [] then None else split_first (CHR '' '') t)"

definition parse_current_branch :: "string \<Rightarrow> string option" where
  "parse_current_branch out = (let t = trim out in if t = [] then None else Some t)"

definition has_conflicts :: "string \<Rightarrow> bool" where
  "has_conflicts out \<longleftrightarrow> str_contains out ''UU'' \<or> str_contains out ''AA'' \<or> str_contains out ''DD'' \<or>
     str_contains out ''unmerged''"

subsection \<open>Analysis\<close>

record git_env =
  ge_exists :: "string \<Rightarrow> bool"
  ge_run :: "string \<Rightarrow> string list \<Rightarrow> string + string"

definition git_execute :: "git_env \<Rightarrow> string \<Rightarrow> string list \<Rightarrow> git_state_error + string" where
  "git_execute E cwd args =
     (if \<not> ge_exists E cwd then Inl (WorktreeNotFound cwd)
      else map_err GitCommandFailed (ge_run E cwd args))"

fun ok_option :: "'e + 'a \<Rightarrow> 'a option" where
  "ok_option (Inl e) = None"
| "ok_option (Inr a) = Some a"

definition get_base_rev :: "git_env \<Rightarrow> string \<Rightarrow> string \<Rightarrow> string" where
  "get_base_rev E base path =
     (if is_ok (git_execute E path [''rev-parse'', ''--verify'', ''origin/'' @ base]) then ''origin/'' @ base
      else if is_ok (git_execute E path [''rev-parse'', ''--verify'', base]) then base
      else ''HEAD'')"

definition get_ahead_behind :: "git_env \<Rightarrow> string \<Rightarrow> string \<Rightarrow> git_state_error + nat \<times> nat" where
  "get_ahead_behind E base path =
     result_map parse_ahead_behind
       (git_execute E path [''rev-list'', ''--left-right'', ''--count'', get_base_rev E base path @ ''...HEAD''])"

definition git_analyze :: "git_env \<Rightarrow> string \<Rightarrow> string \<Rightarrow> git_state_error + git_state" where
  "git_analyze E base path =
     (if \<not> ge_exists E path then Inl (WorktreeNotFound path)
      else if \<not> is_ok (git_execute E path [''rev-parse'', ''--git-dir'']) then Inl (NotAGitRepository path)
      else
        let branch = or_else (Option.bind (ok_option (git_execute E path [''branch'', ''--show-current'']))
              parse_current_branch) ''detached''
        in result_bind (git_execute E path [''status'', ''--porcelain'']) (\<lambda>status.
             let files = parse_status status;
                 ab = or_else (ok_option (get_ahead_behind E base path)) (0, 0);
                 lg = or_else (Option.bind (ok_option (git_execute E path [''log'', ''-1'', ''--format=%h %s'']))
                   parse_log) ([], [])
             in Inr \<lparr>gs_branch = branch, gs_uncommitted = (files \<noteq> []), gs_files = files,
                  gs_ahead = fst ab, gs_behind = snd ab, gs_conflicts = has_conflicts status,
                  gs_sha = Some (fst lg), gs_message = Some (snd lg), gs_healthy = True,
                  gs_last_activity = None\<rparr>))"

definition git_is_healthy :: "git_env \<Rightarrow> string \<Rightarrow> bool" where
  "git_is_healthy E path = is_ok (git_execute E path [''rev-parse'', ''--git-dir''])"

definition branch_exists :: "git_env \<Rightarrow> string \<Rightarrow> string \<Rightarrow> git_state_error + bool" where
  "branch_exists E path name =
     result_map (\<lambda>out. trim out \<noteq> [])
       (git_execute E path [''rev-parse'', ''--verify'', ''refs/heads/'' @ name])"

definition get_local_branches :: "git_env \<Rightarrow> string \<Rightarrow> git_state_error + string list" where
  "get_local_branches E path =
     result_map (\<lambda>out. filter (\<lambda>s. s \<noteq> []) (map (\<lambda>l. trim (dropWhile (\<lambda>c. c = CHR ''*'') l)) (str_lines out)))
       (git_execute E path [''branch'', ''--list''])"

subsection \<open>Branch setup\<close>

record branch_collision_info =
  bc_existing :: string
  bc_checked_out_at :: "string option"
  bc_has_changes :: bool
  bc_alternative :: "string option"

definition branch_collision_new :: "string \<Rightarrow> branch_collision_info" where
  "branch_collision_new b =
     \<lparr>bc_existing = b, bc_checked_out_at = None, bc_has_changes = False, bc_alternative = None\<rparr>"

definition base_branch_of :: "git_state \<Rightarrow> string" where
  "base_branch_of g = (if gs_branch g = ''main'' \<or> gs_branch g = ''master'' then gs_branch g else ''main'')"

subsection \<open>What git documents\<close>

text \<open>A repository: the commits reachable from each revision.\<close>

type_synonym repository = "string \<Rightarrow> nat set"

text \<open>\<open>git rev-list --left-right --count a...b\<close> prints the number of commits reachable from \<open>a\<close> only and
  from \<open>b\<close> only, separated by a tab.\<close>

definition rev_list_documented :: "git_env \<Rightarrow> string \<Rightarrow> repository \<Rightarrow> string \<Rightarrow> string \<Rightarrow> bool" where
  "rev_list_documented E path R a b \<longleftrightarrow>
     (ge_run E path [''rev-list'', ''--left-right'', ''--count'', a @ ''...'' @ b] =
        Inr (nat_to_string (card (R a - R b)) @ CHR 0x09 # nat_to_string (card (R b - R a)) @ [CHR 0x0A]))"

text \<open>\<open>git rev-parse --verify\<close> prints the hash of an existing reference and fails for another one.\<close>

definition rev_parse_documented :: "git_env \<Rightarrow> string \<Rightarrow> (string \<Rightarrow> bool) \<Rightarrow> bool" where
  "rev_parse_documented E path known \<longleftrightarrow>
     (\<forall>r. if known r then \<exists>h. h \<noteq> [] \<and> list_all is_alphanumeric h \<and>
            ge_run E path [''rev-parse'', ''--verify'', r] = Inr (h @ [CHR 0x0A])
          else \<exists>e. ge_run E path [''rev-parse'', ''--verify'', r] = Inl e)"

lemma digits_no_space: "list_all is_ascii_digit (nat_to_string n)"
  by (auto simp: list_all_iff dest: nat_to_string_digits)

lemma digit_not_space: "is_ascii_digit c \<Longrightarrow> \<not> is_whitespace c"
  by (auto simp: is_ascii_digit_def is_whitespace_def)

lemma nat_to_string_not_space: "c \<in> set (nat_to_string n) \<Longrightarrow> \<not> is_whitespace c"
  by (rule digit_not_space [OF nat_to_string_digits])

lemma alphanumeric_not_space: "is_alphanumeric c \<Longrightarrow> \<not> is_whitespace c"
  by (auto simp: is_alphanumeric_def is_alphabetic_def is_ascii_digit_def is_whitespace_def)

lemma trim_tight:
  assumes "s \<noteq> []" "\<not> is_whitespace (hd s)" "\<not> is_whitespace (List.last s)" "\<forall>c\<in>set t. is_whitespace c"
  shows "trim (s @ t) = s"
proof -
  have "trim_start (s @ t) = s @ t" using assms by (cases s) (simp_all add: trim_start_def)
  moreover have "dropWhile is_whitespace (rev t @ rev s) = rev s"
    using assms by (subst dropWhile_append2) (auto simp: hd_rev dropWhile_eq_self_iff)
  ultimately show ?thesis by (simp add: trim_def)
qed

lemma parse_count_nat: "n < 2 ^ 64 \<Longrightarrow> parse_count (nat_to_string n) = n"
  by (simp add: parse_count_def)

lemma parse_counts:
  assumes "a < 2 ^ 64" "b < 2 ^ 64"
  shows "parse_ahead_behind (nat_to_string a @ CHR 0x09 # nat_to_string b @ [CHR 0x0A]) = (a, b)"
proof -
  let ?s = "nat_to_string a @ CHR 0x09 # nat_to_string b"
  have tab: "CHR 0x09 \<notin> set (nat_to_string n)" for n
    by (rule nat_to_string_no_char) (simp add: is_ascii_digit_def char_code_def)
  have "\<not> is_whitespace (hd (nat_to_string a))" "\<not> is_whitespace (List.last (nat_to_string b))"
    using nat_to_string_not_space [of "hd (nat_to_string a)" a]
      nat_to_string_not_space [of "List.last (nat_to_string b)" b] by simp_all
  then have "trim (?s @ [CHR 0x0A]) = ?s"
    by (intro trim_tight) (auto simp: is_whitespace_def char_code_def)
  then show ?thesis
    using assms by (simp add: parse_ahead_behind_def split_on_append split_on_no_sep tab parse_count_nat)
qed

subsection \<open>Ahead and behind\<close>

text \<open>C1: When \<open>git rev-list\<close> behaves as documented, the analysis calls the number of commits that the
  base has and the branch lacks \<open>commits_ahead\<close>, and the number of commits the branch has added
  \<open>commits_behind\<close>: the parser expects the range \<open>HEAD...base\<close>, the command asks for \<open>base...HEAD\<close>.\<close>

theorem ahead_and_behind_swapped:
  assumes run: "git_analyze E base path = Inr g"
    and docs: "rev_list_documented E path R (get_base_rev E base path) ''HEAD''"
    and small: "card (R (get_base_rev E base path) - R ''HEAD'') < 2 ^ 64"
      "card (R ''HEAD'' - R (get_base_rev E base path)) < 2 ^ 64"
  shows "gs_ahead g = card (R (get_base_rev E base path) - R ''HEAD'') \<and>
         gs_behind g = card (R ''HEAD'' - R (get_base_rev E base path))"
proof -
  have ex: "ge_exists E path" using run by (simp add: git_analyze_def split: if_splits)
  then have "get_ahead_behind E base path =
      Inr (card (R (get_base_rev E base path) - R ''HEAD''), card (R ''HEAD'' - R (get_base_rev E base path)))"
    using docs by (simp add: get_ahead_behind_def git_execute_def rev_list_documented_def parse_counts [OF small])
  then show ?thesis using run by (auto simp: git_analyze_def Let_def result_bind_Inr_iff split: if_splits)
qed

text \<open>A branch with one commit of its own, three commits behind \<open>main\<close>.\<close>

definition sample_git :: git_env where
  "sample_git = \<lparr>ge_exists = (\<lambda>p. p = ''/work''),
     ge_run = (\<lambda>_ args.
       if args = [''rev-parse'', ''--git-dir''] then Inr ''.git''
       else if args = [''rev-parse'', ''--verify'', ''main''] then Inr (''abc'' @ [CHR 0x0A])
       else if args = [''branch'', ''--show-current''] then Inr (''feature/t/x'' @ [CHR 0x0A])
       else if args = [''status'', ''--porcelain''] then Inr []
       else if args = [''log'', ''-1'', ''--format=%h %s''] then Inr ''abc first''
       else if args = [''rev-list'', ''--left-right'', ''--count'', ''main...HEAD'']
         then Inr (''3'' @ CHR 0x09 # ''1'' @ [CHR 0x0A])
       else Inl ''fatal'')\<rparr>"

definition sample_repository :: repository where
  "sample_repository r = (if r = ''main'' then {1, 2, 3, 4} else {1, 5})"

definition sample_git_state :: git_state where
  "sample_git_state = git_state_default\<lparr>gs_branch := ''feature/t/x'', gs_ahead := 3, gs_behind := 1,
     gs_sha := Some ''abc'', gs_message := Some ''first''\<rparr>"

lemma sample_git_runs:
  "get_base_rev sample_git ''main'' ''/work'' = ''main''"
  "ge_exists sample_git ''/work''"
  "ge_run sample_git ''/work'' [''rev-parse'', ''--git-dir''] = Inr ''.git''"
  "ge_run sample_git ''/work'' [''branch'', ''--show-current''] = Inr (''feature/t/x'' @ [CHR 0x0A])"
  "ge_run sample_git ''/work'' [''status'', ''--porcelain''] = Inr []"
  "ge_run sample_git ''/work'' [''log'', ''-1'', ''--format=%h %s''] = Inr ''abc first''"
  "ge_run sample_git ''/work'' [''rev-list'', ''--left-right'', ''--count'', ''main'' @ ''...HEAD''] =
     Inr (nat_to_string 3 @ CHR 0x09 # nat_to_string 1 @ [CHR 0x0A])"
  "parse_current_branch (''feature/t/x'' @ [CHR 0x0A]) = Some ''feature/t/x''"
  "parse_log ''abc first'' = Some (''abc'', ''first'')"
  "parse_status [] = []" "has_conflicts [] = False"
  by code_simp+

lemma sample_git_eval:
  "get_ahead_behind sample_git ''main'' ''/work'' = Inr (3, 1)"
  "git_analyze sample_git ''main'' ''/work'' = Inr sample_git_state"
proof -
  have counts: "parse_ahead_behind (nat_to_string 3 @ CHR 0x09 # nat_to_string 1 @ [CHR 0x0A]) = (3, 1)"
    by (rule parse_counts) simp_all
  show ab: "get_ahead_behind sample_git ''main'' ''/work'' = Inr (3, 1)"
    by (simp only: get_ahead_behind_def sample_git_runs git_execute_def simp_thms if_False map_err.simps
      result_map.simps counts)
  show "git_analyze sample_git ''main'' ''/work'' = Inr sample_git_state"
    by (simp only: git_analyze_def git_execute_def sample_git_runs ab simp_thms if_False map_err.simps
      is_ok.simps ok_option.simps bind.simps or_else.simps result_bind.simps Let_def fst_conv snd_conv
      sample_git_state_def git_state_default_def) simp
qed

theorem ahead_and_behind_swapped_witness:
  "gs_ahead sample_git_state = card (sample_repository ''main'' - sample_repository ''HEAD'') \<and>
   gs_behind sample_git_state = card (sample_repository ''HEAD'' - sample_repository ''main'') \<and>
   gs_ahead sample_git_state = 3"
proof -
  have sets: "sample_repository ''main'' - sample_repository ''HEAD'' = {2, 3, 4}"
    "sample_repository ''HEAD'' - sample_repository ''main'' = {5}"
    by (auto simp: sample_repository_def)
  have cards: "card (sample_repository ''main'' - sample_repository ''HEAD'') = 3"
    "card (sample_repository ''HEAD'' - sample_repository ''main'') = 1"
    by (simp_all add: sets)
  have prints: "ge_run sample_git ''/work'' [''rev-list'', ''--left-right'', ''--count'', ''main'' @ ''...'' @ ''HEAD''] =
      Inr (nat_to_string 3 @ CHR 0x09 # nat_to_string 1 @ [CHR 0x0A])"
    by code_simp
  have "rev_list_documented sample_git ''/work'' sample_repository
      (get_base_rev sample_git ''main'' ''/work'') ''HEAD''"
    by (simp only: sample_git_runs(1) rev_list_documented_def cards prints)
  then have "gs_ahead sample_git_state = card (sample_repository ''main'' - sample_repository ''HEAD'') \<and>
      gs_behind sample_git_state = card (sample_repository ''HEAD'' - sample_repository ''main'')"
    using ahead_and_behind_swapped [OF sample_git_eval(2), of sample_repository]
    by (simp only: sample_git_runs(1) cards) simp
  then show ?thesis by (simp add: cards)
qed

subsection \<open>Branches\<close>

text \<open>With the documented \<open>rev-parse\<close>, a branch that does not exist is an error and never the answer
  \<open>false\<close>.\<close>

lemma branch_exists_documented:
  assumes "ge_exists E path" "rev_parse_documented E path known"
  shows "if known (''refs/heads/'' @ b) then branch_exists E path b = Inr True
         else \<exists>e. branch_exists E path b = Inl (GitCommandFailed e)"
proof (cases "known (''refs/heads/'' @ b)")
  note doc = assms(2) [unfolded rev_parse_documented_def, rule_format, of "''refs/heads/'' @ b"]
  case True
  then obtain h where h: "h \<noteq> []" "list_all is_alphanumeric h"
    "ge_run E path [''rev-parse'', ''--verify'', ''refs/heads/'' @ b] = Inr (h @ [CHR 0x0A])"
    using doc by (simp only: if_True) blast
  then have "trim (h @ [CHR 0x0A]) = h"
    using alphanumeric_not_space
    by (intro trim_tight) (auto simp: list_all_iff is_whitespace_def char_code_def)
  then show ?thesis using True assms(1) h by (simp add: branch_exists_def git_execute_def)
next
  case False
  then obtain e where "ge_run E path [''rev-parse'', ''--verify'', ''refs/heads/'' @ b] = Inl e"
    using assms(2) [unfolded rev_parse_documented_def, rule_format, of "''refs/heads/'' @ b"]
    by (simp only: if_False) blast
  then show ?thesis using False assms(1) by (simp add: branch_exists_def git_execute_def)
qed

subsection \<open>Conflicts\<close>

text \<open>The seven codes that \<open>git status --porcelain\<close> prints for an unmerged path.\<close>

definition unmerged_codes :: "(string \<times> string) list" where
  "unmerged_codes = [(''D'', ''D''), (''A'', ''U''), (''U'', ''D''), (''U'', ''A''), (''D'', ''U''),
     (''A'', ''A''), (''U'', ''U'')]"

text \<open>C2: Of the seven codes of an unmerged path only \<open>UU\<close> is read as unmerged, and only three let the
  state report conflicts. A path that contains one of these pairs of letters reports a conflict in a
  tree without any.\<close>

theorem conflicts_misread:
  "map (\<lambda>(x, y). change_of_codes x y) unmerged_codes =
     [FileDeleted, FileModified, FileDeleted, FileAdded, FileModified, FileAdded, FileUnmerged] \<and>
   map (\<lambda>(x, y). has_conflicts (x @ y @ '' src/a.rs'')) unmerged_codes =
     [True, False, False, False, False, True, True] \<and>
   has_conflicts (pre @ '' M src/UUID.rs'' @ post)"
proof (intro conjI)
  have "sublist ''UU'' (pre @ '' M src/UUID.rs'' @ post)"
    by (auto simp: sublist_def intro: exI [of _ "pre @ '' M src/''"])
  then show "has_conflicts (pre @ '' M src/UUID.rs'' @ post)" by (simp add: has_conflicts_def str_contains_iff)
qed (code_simp)+

end
