(* ===== verification/Task_Metadata.thy ===== *)
theory Task_Metadata
  imports Rust_Iterators Float64
begin

text \<open>
  \<open>decision/src/model/task/task_metadata.rs\<close>: from the description of a task to its type, a short
  summary and the name of its branch; the check of branch names; the names tried when a branch
  exists already. The type is the one with the most keywords in the description; they are counted
  in a hash map, so its iteration order is a parameter. The confidence is \<open>0.5 + min (0.15 n) 0.45\<close>
  in \<open>f64\<close>, here by its bit patterns.
\<close>

subsection \<open>Classification\<close>

datatype task_type = FeatureTask | BugfixTask | RefactorTask | DocsTask | TestTask | ChoreTask | HotfixTask

datatype task_priority = PrioCritical | PrioHigh | PrioMedium | PrioLow

fun branch_prefix :: "task_type \<Rightarrow> string" where
  "branch_prefix FeatureTask = ''feature''"
| "branch_prefix BugfixTask = ''bugfix''"
| "branch_prefix RefactorTask = ''refactor''"
| "branch_prefix DocsTask = ''docs''"
| "branch_prefix TestTask = ''test''"
| "branch_prefix ChoreTask = ''chore''"
| "branch_prefix HotfixTask = ''hotfix''"

fun keywords_of :: "task_type \<Rightarrow> string list" where
  "keywords_of FeatureTask = [''add'', ''implement'', ''create'', ''new'', ''introduce'', ''develop'']"
| "keywords_of BugfixTask = [''fix'', ''bug'', ''issue'', ''error'', ''resolve'', ''patch'', ''solve'']"
| "keywords_of RefactorTask = [''refactor'', ''simplify'', ''optimize'', ''clean'', ''improve'', ''restructure'']"
| "keywords_of DocsTask = [''document'', ''readme'', ''doc'', ''update docs'', ''documentation'', ''write'']"
| "keywords_of TestTask = [''test'', ''testing'', ''spec'', ''coverage'', ''verify'', ''unit test'']"
| "keywords_of ChoreTask = [''chore'', ''maintenance'', ''cleanup'', ''update'', ''bump'', ''upgrade'']"
| "keywords_of HotfixTask = [''hotfix'', ''urgent'', ''critical'', ''emergency'', ''production'']"

definition all_task_types :: "task_type list" where
  "all_task_types = [FeatureTask, BugfixTask, RefactorTask, DocsTask, TestTask, ChoreTask, HotfixTask]"

definition keyword_count :: "string \<Rightarrow> task_type \<Rightarrow> nat" where
  "keyword_count d t = length (filter (str_contains (to_lowercase d)) (keywords_of t))"

text \<open>Only the types with a match have an entry in the map.\<close>

definition keyword_matches :: "string \<Rightarrow> (task_type \<times> nat) list" where
  "keyword_matches d = filter (\<lambda>(t, n). 0 < n) (map (\<lambda>t. (t, keyword_count d t)) all_task_types)"

fun match_confidence :: "nat \<Rightarrow> f64" where
  "match_confidence n =
     (if n = 0 then 0x3FE0000000000000
      else if n = 1 then 0x3FE4CCCCCCCCCCCD
      else if n = 2 then 0x3FE999999999999A
      else 0x3FEE666666666666)"

definition classify_task_type :: "(task_type \<times> nat) hash_order \<Rightarrow> string \<Rightarrow> task_type \<times> f64" where
  "classify_task_type ord d =
     (case max_by_key snd (ord (keyword_matches d)) of
        None \<Rightarrow> (FeatureTask, match_confidence 0)
      | Some (t, n) \<Rightarrow> (t, match_confidence n))"

subsection \<open>Branch names\<close>

definition summary_of :: "string \<Rightarrow> string" where
  "summary_of d = take 30 (str_join '' '' (take 5 (split_whitespace d)))"

text \<open>The loop of \<open>sanitize_branch_description\<close>, with its accumulator and the flag \<open>prev_hyphen\<close>.\<close>

fun sanitize_loop :: "string \<Rightarrow> bool \<Rightarrow> string \<Rightarrow> string" where
  "sanitize_loop acc hyphen [] = acc"
| "sanitize_loop acc hyphen (c # cs) =
     (if is_alphanumeric c then sanitize_loop (acc @ [c]) False cs
      else if \<not> hyphen \<and> acc \<noteq> [] then sanitize_loop (acc @ ''-'') True cs
      else sanitize_loop acc hyphen cs)"

definition drop_last_hyphen :: "string \<Rightarrow> string" where
  "drop_last_hyphen s = (if ends_with s ''-'' then butlast s else s)"

text \<open>A longer text is cut at the index of its thirtieth character, that is after 29 characters.\<close>

definition sanitize_branch_description :: "string \<Rightarrow> string" where
  "sanitize_branch_description d =
     (let s = drop_last_hyphen (sanitize_loop [] False (to_lowercase d))
      in if 30 < length s then drop_last_hyphen (take 29 s) else s)"

definition generate_branch_name :: "string \<Rightarrow> task_type \<Rightarrow> string \<Rightarrow> string" where
  "generate_branch_name i t s =
     branch_prefix t @ ''/'' @ i @ ''/'' @ sanitize_branch_description s"

record task_metadata =
  tm_id :: string
  tm_branch :: string
  tm_summary :: string
  tm_description :: string
  tm_type :: task_type
  tm_priority :: task_priority
  tm_confidence :: f64
  tm_created_at :: instant

definition task_metadata_new ::
    "(task_type \<times> nat) hash_order \<Rightarrow> instant \<Rightarrow> string \<Rightarrow> string \<Rightarrow> task_metadata" where
  "task_metadata_new ord now i d =
     (let t = classify_task_type ord d; s = summary_of d
      in \<lparr>tm_id = i, tm_branch = generate_branch_name i (fst t) s, tm_summary = s, tm_description = d,
          tm_type = fst t, tm_priority = PrioMedium, tm_confidence = snd t, tm_created_at = now\<rparr>)"

definition tm_with_type :: "task_type \<Rightarrow> task_metadata \<Rightarrow> task_metadata" where
  "tm_with_type t m = m\<lparr>tm_type := t, tm_branch := generate_branch_name (tm_id m) t (tm_summary m)\<rparr>"

subsection \<open>Checking and changing names\<close>

datatype branch_name_error =
    BranchInvalidFormat string
  | BranchInvalidType string
  | BranchEmptyTaskId
  | BranchEmptyDescription
  | BranchInvalidCharacter char

definition branch_char :: "char \<Rightarrow> bool" where
  "branch_char c \<longleftrightarrow> is_alphanumeric c \<or> c \<in> {CHR ''/'', CHR ''-'', CHR ''_''}"

definition branch_types :: "string set" where
  "branch_types = {''feature'', ''bugfix'', ''refactor'', ''docs'', ''test'', ''chore'', ''hotfix'', ''agent''}"

definition validate_branch_name :: "string \<Rightarrow> branch_name_error + unit" where
  "validate_branch_name b =
     (let parts = split_on (CHR ''/'') b
      in if length parts = 2 \<and> parts ! 0 = ''agent'' then
           if parts ! 1 = [] then Inl BranchEmptyTaskId else Inr ()
         else if length parts \<noteq> 3 then
           Inl (BranchInvalidFormat ''Branch name must be in format: <type>/<task-id>-<desc>'')
         else if parts ! 0 \<notin> branch_types
         then Inl (BranchInvalidType (''Invalid type prefix: '' @ parts ! 0))
         else if parts ! 1 = [] then Inl BranchEmptyTaskId
         else if parts ! 2 = [] then Inl BranchEmptyDescription
         else case find (\<lambda>c. \<not> branch_char c) b of
                Some c \<Rightarrow> Inl (BranchInvalidCharacter c)
              | None \<Rightarrow> Inr ())"

definition has_numeric_suffix :: "string \<Rightarrow> u8 option" where
  "has_numeric_suffix b =
     (case split_last (CHR ''-'') b of
        Some (p, q) \<Rightarrow> map_option of_nat (parse_unsigned 8 q)
      | None \<Rightarrow> None)"

definition increment_branch_suffix :: "string \<Rightarrow> string" where
  "increment_branch_suffix b =
     (case split_last (CHR ''-'') b of
        Some (p, q) \<Rightarrow>
          (case parse_unsigned 8 q of
             Some n \<Rightarrow> p @ ''-'' @ nat_to_string (unat (of_nat n + 1 :: u8))
           | None \<Rightarrow> b @ ''-2'')
      | None \<Rightarrow> b @ ''-2'')"

definition generate_unique_branch_name :: "string \<Rightarrow> string" where
  "generate_unique_branch_name b =
     (if has_numeric_suffix b = None then b @ ''-2'' else increment_branch_suffix b)"

subsection \<open>Sanitized descriptions\<close>

definition slug_char :: "char \<Rightarrow> bool" where
  "slug_char c \<longleftrightarrow> c = CHR ''-'' \<or> is_alphanumeric c \<and> ascii_lower c = c"

text \<open>What the documentation of the function promises.\<close>

definition slug :: "string \<Rightarrow> bool" where
  "slug s \<longleftrightarrow> list_all slug_char s \<and> \<not> sublist ''--'' s \<and>
     (s = [] \<or> hd s \<noteq> CHR ''-'' \<and> List.last s \<noteq> CHR ''-'')"

lemma hyphen_not_alphanumeric [simp]: "\<not> is_alphanumeric (CHR ''-'')"
  by (simp add: char_class_defs)

lemma alphanumeric_lower [simp]: "is_alphanumeric (ascii_lower c) = is_alphanumeric c"
  by (auto simp: is_alphanumeric_def is_alphabetic_def is_ascii_digit_def char_code_lower)

lemma double_hyphen_snoc:
  "sublist ''--'' (s @ [c]) \<longleftrightarrow> sublist ''--'' s \<or> c = CHR ''-'' \<and> s \<noteq> [] \<and> List.last s = CHR ''-''"
proof -
  have "suffix ''--'' (s @ [c]) \<longleftrightarrow> c = CHR ''-'' \<and> suffix ''-'' s"
    using snoc_suffix_snoc [of "''-''" "CHR ''-''" s c] by auto
  moreover have "suffix ''-'' s \<longleftrightarrow> s \<noteq> [] \<and> List.last s = CHR ''-''"
    by (cases s rule: rev_cases) (auto simp: suffix_snoc)
  ultimately show ?thesis by (auto simp: sublist_snoc)
qed

text \<open>The invariant of the loop.\<close>

definition loop_ok :: "string \<Rightarrow> bool \<Rightarrow> bool" where
  "loop_ok acc hyphen \<longleftrightarrow> list_all slug_char acc \<and> \<not> sublist ''--'' acc \<and> (acc \<noteq> [] \<longrightarrow> hd acc \<noteq> CHR ''-'') \<and>
     (hyphen \<longleftrightarrow> acc \<noteq> [] \<and> List.last acc = CHR ''-'')"

lemma loop_ok_char:
  "loop_ok acc hyphen \<Longrightarrow> is_alphanumeric c \<Longrightarrow> ascii_lower c = c \<Longrightarrow> loop_ok (acc @ [c]) False"
  by (auto simp: loop_ok_def slug_char_def double_hyphen_snoc hd_append)

lemma loop_ok_hyphen: "loop_ok acc False \<Longrightarrow> acc \<noteq> [] \<Longrightarrow> loop_ok (acc @ ''-'') True"
  by (auto simp: loop_ok_def slug_char_def double_hyphen_snoc)

lemma sanitize_loop_ok:
  "loop_ok acc hyphen \<Longrightarrow> list_all (\<lambda>c. ascii_lower c = c) cs \<Longrightarrow> \<exists>h. loop_ok (sanitize_loop acc hyphen cs) h"
proof (induction acc hyphen cs rule: sanitize_loop.induct)
  case (2 acc hyphen c cs)
  consider "is_alphanumeric c" | "\<not> is_alphanumeric c" "\<not> hyphen" "acc \<noteq> []"
    | "\<not> is_alphanumeric c" "hyphen \<or> acc = []" by blast
  then show ?case
  proof cases
    case 1
    then show ?thesis using 2 loop_ok_char by simp
  next
    case 2
    then show ?thesis using "2.IH"(2) "2.prems" loop_ok_hyphen by simp
  next
    case 3
    then show ?thesis using "2.IH"(3) "2.prems" by auto
  qed
qed auto

lemma sanitize_loop_empty:
  "sanitize_loop acc hyphen cs = [] \<longleftrightarrow> acc = [] \<and> list_all (\<lambda>c. \<not> is_alphanumeric c) cs"
  by (induction acc hyphen cs rule: sanitize_loop.induct) auto

lemma ends_with_hyphen: "ends_with s ''-'' \<longleftrightarrow> s \<noteq> [] \<and> List.last s = CHR ''-''"
  by (cases s rule: rev_cases) (auto simp: ends_with_def starts_with_def)

lemma drop_hyphen_slug:
  assumes "list_all slug_char s" "\<not> sublist ''--'' s" "s \<noteq> [] \<longrightarrow> hd s \<noteq> CHR ''-''"
  shows "slug (drop_last_hyphen s)" and "drop_last_hyphen s = [] \<longleftrightarrow> s = []"
proof -
  have "slug (drop_last_hyphen s) \<and> (drop_last_hyphen s = [] \<longleftrightarrow> s = [])"
  proof (cases s rule: rev_cases)
    case (snoc t c)
    have t: "\<not> sublist ''--'' t" "c = CHR ''-'' \<longrightarrow> t \<noteq> [] \<longrightarrow> List.last t \<noteq> CHR ''-''" "list_all slug_char t"
      using assms(1,2) by (auto simp: snoc double_hyphen_snoc)
    have hd: "t \<noteq> [] \<longrightarrow> hd t \<noteq> CHR ''-''" "t = [] \<longrightarrow> c \<noteq> CHR ''-''" using assms(3) by (auto simp: snoc hd_append)
    show ?thesis
    proof (cases "c = CHR ''-''")
      case True
      then show ?thesis using t hd by (auto simp: snoc drop_last_hyphen_def ends_with_hyphen slug_def)
    next
      case False
      then show ?thesis using assms by (simp add: snoc drop_last_hyphen_def ends_with_hyphen slug_def)
    qed
  qed (simp add: drop_last_hyphen_def ends_with_hyphen slug_def)
  then show "slug (drop_last_hyphen s)" "drop_last_hyphen s = [] \<longleftrightarrow> s = []" by simp_all
qed

lemma length_drop_hyphen: "length (drop_last_hyphen s) \<le> length s"
  by (simp add: drop_last_hyphen_def)

text \<open>C1: A sanitized description consists of lower-case letters, digits and hyphens, with no two
  hyphens in a row and none at the ends, and has at most 30 characters. It is empty exactly if the
  description has no letter or digit.\<close>

theorem sanitized_description:
  "slug (sanitize_branch_description d) \<and> length (sanitize_branch_description d) \<le> 30 \<and>
   (sanitize_branch_description d = [] \<longleftrightarrow> \<not> list_ex is_alphanumeric d)"
proof -
  define r where "r = sanitize_loop [] False (to_lowercase d)"
  have "loop_ok [] False" by (simp add: loop_ok_def)
  moreover have "list_all (\<lambda>c. ascii_lower c = c) (to_lowercase d)" by (simp add: to_lowercase_def list_all_iff)
  ultimately obtain h where r: "loop_ok r h" using sanitize_loop_ok unfolding r_def by blast
  have empty: "r = [] \<longleftrightarrow> \<not> list_ex is_alphanumeric d"
    by (simp add: r_def sanitize_loop_empty to_lowercase_def list_all_iff list_ex_iff)
  have s: "slug (drop_last_hyphen r)" "drop_last_hyphen r = [] \<longleftrightarrow> r = []"
    using r drop_hyphen_slug [of r] by (simp_all add: loop_ok_def)
  define u where "u = take 29 (drop_last_hyphen r)"
  have u: "list_all slug_char u" "\<not> sublist ''--'' u" "u \<noteq> [] \<longrightarrow> hd u \<noteq> CHR ''-''"
    using s(1) by (auto simp: slug_def u_def list_all_iff dest: in_set_takeD
      intro: sublist_order.order_trans [OF _ sublist_take])
  show ?thesis
    using s drop_hyphen_slug [OF u] empty length_drop_hyphen [of u]
    by (auto simp: sanitize_branch_description_def Let_def simp flip: r_def u_def)
      (auto simp: u_def)
qed

subsection \<open>Generated names\<close>

definition id_char :: "char \<Rightarrow> bool" where
  "id_char c \<longleftrightarrow> is_alphanumeric c \<or> c = CHR ''-'' \<or> c = CHR ''_''"

lemma slash_not_alphanumeric [simp]: "\<not> is_alphanumeric (CHR ''/'')"
  by (simp add: char_class_defs)

lemma slug_no_slash: "list_all slug_char s \<Longrightarrow> CHR ''/'' \<notin> set s"
proof -
  have "\<not> slug_char (CHR ''/'')" by (simp add: slug_char_def)
  then show "list_all slug_char s \<Longrightarrow> CHR ''/'' \<notin> set s" by (metis list_all_iff)
qed

lemma slug_branch_char: "slug_char c \<Longrightarrow> branch_char c"
  by (auto simp: slug_char_def branch_char_def)

lemma prefix_chars: "list_all branch_char (branch_prefix t)"
  by (cases t; simp add: branch_char_def is_alphanumeric_def is_alphabetic_def char_code_def)

lemma prefix_no_slash: "CHR ''/'' \<notin> set (branch_prefix t)"
  by (cases t) simp_all

lemma prefix_valid: "branch_prefix t \<in> branch_types" "branch_prefix t \<noteq> ''agent''"
  by (cases t, simp_all add: branch_types_def) (cases t, simp_all)

lemma length_split_on: "length (split_on c s) = Suc (length (filter (\<lambda>d. d = c) s))"
  by (induction s) (auto split: list.splits)

lemma find_branch_char: "find (\<lambda>c. \<not> branch_char c) b = None \<longleftrightarrow> list_all branch_char b"
  by (auto simp: find_None_iff list_all_iff)

text \<open>C2: A generated branch name passes the check of branch names exactly if the task id is a non-empty
  string of letters, digits, hyphens and underscores and the summary has a letter or a digit.\<close>

theorem generated_name_valid:
  "validate_branch_name (generate_branch_name i t s) = Inr () \<longleftrightarrow>
     i \<noteq> [] \<and> list_all id_char i \<and> list_ex is_alphanumeric s"
proof -
  let ?d = "sanitize_branch_description s"
  let ?b = "generate_branch_name i t s"
  have d: "list_all slug_char ?d" "?d = [] \<longleftrightarrow> \<not> list_ex is_alphanumeric s"
    using sanitized_description [of s] by (simp_all add: slug_def)
  have b: "?b = branch_prefix t @ CHR ''/'' # i @ CHR ''/'' # ?d" by (simp add: generate_branch_name_def)
  show ?thesis
  proof (cases "CHR ''/'' \<in> set i")
    case True
    then have "0 < length (filter (\<lambda>d. d = CHR ''/'') i)" by (auto simp: filter_empty_conv)
    then have "3 < length (split_on (CHR ''/'') ?b)" by (simp add: b length_split_on)
    then have "validate_branch_name ?b \<noteq> Inr ()" by (simp add: validate_branch_name_def Let_def)
    moreover have "\<not> list_all id_char i" using True by (auto simp: list_all_iff id_char_def intro!: bexI [of _ "CHR ''/''"])
    ultimately show ?thesis by simp
  next
    case False
    then have parts: "split_on (CHR ''/'') ?b = [branch_prefix t, i, ?d]"
      using prefix_no_slash [of t] slug_no_slash [OF d(1)]
      by (simp add: b split_on_append split_on_no_sep)
    have "list_all branch_char ?d" using d(1) slug_branch_char by (metis list_all_iff)
    moreover have "list_all branch_char i \<longleftrightarrow> list_all id_char i"
      using False by (induction i) (auto simp: branch_char_def id_char_def)
    ultimately have chars: "list_all branch_char ?b \<longleftrightarrow> list_all id_char i"
      using prefix_chars [of t] by (simp add: b) (simp add: branch_char_def)
    show ?thesis
      using d(2) prefix_valid [of t] chars
      by (auto simp: validate_branch_name_def Let_def parts find_branch_char split: option.split)
        (auto simp: find_branch_char [symmetric])
  qed
qed

subsection \<open>Names after collisions\<close>

text \<open>C3: The names tried after a collision count from 2; the counter is a \<open>u8\<close>, so after \<open>-255\<close> it
  continues with \<open>-0\<close> and the 257th name is the first one again.\<close>

theorem collision_names:
  assumes "has_numeric_suffix b = None"
  shows "(generate_unique_branch_name ^^ Suc k) b = b @ ''-'' @ nat_to_string ((k + 2) mod 256)"
proof (induction k)
  case 0
  have two: "nat_to_string (2 mod 256) = ''2''" by code_simp
  show ?case using assms two by (simp add: generate_unique_branch_name_def numeral_2_eq_2)
next
  case (Suc k)
  have split: "split_last (CHR ''-'') (b @ ''-'' @ nat_to_string n) = Some (b, nat_to_string n)" for n
    using split_last_append [of "CHR ''-''" "nat_to_string n" b]
    by (simp add: nat_to_string_no_char is_ascii_digit_def char_code_def)
  have "unat (of_nat ((k + 2) mod 256) + 1 :: u8) = (k + 3) mod 256"
    by (simp add: unat_word_ariths unat_of_nat mod_Suc_eq add.commute)
  then have "generate_unique_branch_name (b @ ''-'' @ nat_to_string ((k + 2) mod 256)) =
      b @ ''-'' @ nat_to_string ((k + 3) mod 256)"
    by (simp only: generate_unique_branch_name_def has_numeric_suffix_def increment_branch_suffix_def split) simp
  then show ?case using Suc by (simp add: add.commute)
qed

theorem collision_names_witness:
  "(generate_unique_branch_name ^^ Suc 254) ''feature/t/x'' = ''feature/t/x'' @ ''-'' @ nat_to_string 0"
proof -
  have "has_numeric_suffix ''feature/t/x'' = None" by code_simp
  from collision_names [OF this, of 254] show ?thesis by simp
qed

subsection \<open>Classification\<close>

lemma keyword_matches_eval:
  "keyword_matches ''add fix'' = [(FeatureTask, 1), (BugfixTask, 1)]"
  by code_simp

text \<open>C4: The chosen type has the most keywords of all types, whatever the order of the map. When two
  types tie, the order decides: \<open>add fix\<close> becomes a feature branch in one run and a bugfix branch in
  another.\<close>

theorem classification_is_maximal:
  "(hash_order_ok ord \<longrightarrow> keyword_count d t \<le> keyword_count d (fst (classify_task_type ord d))) \<and>
   fst (classify_task_type id ''add fix'') = BugfixTask \<and>
   fst (classify_task_type rev ''add fix'') = FeatureTask"
proof (intro conjI impI)
  assume "hash_order_ok ord"
  then have set: "set (ord (keyword_matches d)) = set (keyword_matches d)"
    by (metis hash_order_ok_def set_mset_mset)
  have all: "t \<in> set all_task_types" for t by (cases t) (simp_all add: all_task_types_def)
  show "keyword_count d t \<le> keyword_count d (fst (classify_task_type ord d))"
  proof (cases "max_by_key snd (ord (keyword_matches d))")
    case None
    then have "keyword_matches d = []" using set by simp
    then have "keyword_count d t = 0"
      using all [of t] by (auto simp: keyword_matches_def filter_empty_conv)
    then show ?thesis by simp
  next
    case (Some m)
    then have m: "m \<in> set (keyword_matches d)" using max_by_key_mem set by fastforce
    then have key: "snd m = keyword_count d (fst m)" by (auto simp: keyword_matches_def)
    have "keyword_count d t \<le> snd m"
    proof (cases "keyword_count d t = 0")
      case False
      then have "(t, keyword_count d t) \<in> set (keyword_matches d)"
        using all [of t] by (auto simp: keyword_matches_def)
      then have "(t, keyword_count d t) \<in> set (ord (keyword_matches d))" by (simp only: set)
      from max_by_key_max [OF Some this] show ?thesis by simp
    qed simp
    moreover have "fst (classify_task_type ord d) = fst m"
      using Some by (cases m) (simp add: classify_task_type_def)
    ultimately show ?thesis using key by simp
  qed
qed (simp_all add: classify_task_type_def keyword_matches_eval)

theorem classification_is_maximal_witness:
  "keyword_count ''add fix'' ChoreTask \<le> keyword_count ''add fix'' (fst (classify_task_type rev ''add fix''))"
proof -
  have "hash_order_ok (rev :: (task_type \<times> nat) hash_order)" by (simp add: hash_order_ok_def)
  then show ?thesis using classification_is_maximal [of rev "''add fix''" ChoreTask] by blast
qed

end
