(* ===== verification/Task_Preparation.thy ===== *)
theory Task_Preparation
  imports Task_Metadata Git_State
begin

text \<open>
  \<open>decision/src/state/uncommitted_handler.rs\<close> and \<open>decision/src/model/task/task_preparation.rs\<close>: what
  to do with uncommitted changes before a task starts, and the steps from the request to a branch
  that is ready. The pipeline asks git through \<open>Git_State\<close>.
\<close>

subsection \<open>Uncommitted changes\<close>

datatype changes_context = CtxCurrentTask | CtxPreviousTask | CtxUnknown | CtxTemporary

fun changes_context_display :: "changes_context \<Rightarrow> string" where
  "changes_context_display CtxCurrentTask = ''CurrentTask''"
| "changes_context_display CtxPreviousTask = ''PreviousTask''"
| "changes_context_display CtxUnknown = ''Unknown''"
| "changes_context_display CtxTemporary = ''Temporary''"

datatype uncommitted_action = UncCommit | UncStash | UncDiscard | UncRequestHuman

fun uncommitted_action_display :: "uncommitted_action \<Rightarrow> string" where
  "uncommitted_action_display UncCommit = ''Commit''"
| "uncommitted_action_display UncStash = ''Stash''"
| "uncommitted_action_display UncDiscard = ''Discard''"
| "uncommitted_action_display UncRequestHuman = ''RequestHuman''"

record uncommitted_analysis =
  ua_context :: changes_context
  ua_valuable :: bool
  ua_action :: uncommitted_action
  ua_reason :: string

definition analysis_summary :: "uncommitted_analysis \<Rightarrow> string" where
  "analysis_summary a = changes_context_display (ua_context a) @ '' changes - '' @
     (if ua_valuable a then ''valuable'' else ''low value'') @ '' - '' @ uncommitted_action_display (ua_action a)"

definition temporary_patterns :: "string list" where
  "temporary_patterns = [''.tmp'', ''.temp'', ''.bak'', ''.backup'', ''~'', ''DEBUG:'', ''XXX:'', ''FIXME:'',
     ''TODO:debug'', ''console.log'', ''print!('', ''dbg!('']"

definition is_temporary_file :: "string \<Rightarrow> bool" where
  "is_temporary_file path =
     (let p = to_lowercase path
      in list_ex (\<lambda>t. str_contains p (to_lowercase t)) temporary_patterns \<or>
         str_contains p ''/tmp/'' \<or> str_contains p ''/temp/'')"

definition meaningful_file :: "string \<Rightarrow> bool" where
  "meaningful_file path =
     (let p = to_lowercase path
      in list_ex (ends_with p) [''.rs'', ''.ts'', ''.js'', ''.py'', ''.go''])"

definition classify_context :: "git_state \<Rightarrow> changes_context" where
  "classify_context g =
     (if list_ex (\<lambda>f. is_temporary_file (fst_path f)) (gs_files g) then CtxTemporary
      else if list_all (\<lambda>f. fst_change f = FileUntracked) (gs_files g) then CtxUnknown
      else if list_ex (\<lambda>f. meaningful_file (fst_path f)) (gs_files g) then CtxCurrentTask
      else CtxUnknown)"

definition valuable_file :: "file_status \<Rightarrow> bool" where
  "valuable_file f \<longleftrightarrow>
     fst_change f = FileModified \<or> fst_change f = FileRenamed \<or> fst_change f = FileDeleted \<or>
     fst_change f = FileAdded \<and> (starts_with (fst_path f) ''src/'' \<or> starts_with (fst_path f) ''lib/'')"

definition assess_value :: "git_state \<Rightarrow> bool" where
  "assess_value g \<longleftrightarrow> gs_files g \<noteq> [] \<and> length (gs_files g) \<le> length (filter valuable_file (gs_files g)) * 2"

fun determine_action :: "changes_context \<Rightarrow> bool \<Rightarrow> uncommitted_action" where
  "determine_action CtxCurrentTask True = UncCommit"
| "determine_action CtxCurrentTask False = UncStash"
| "determine_action CtxPreviousTask True = UncCommit"
| "determine_action CtxPreviousTask False = UncDiscard"
| "determine_action CtxUnknown True = UncStash"
| "determine_action CtxUnknown False = UncRequestHuman"
| "determine_action CtxTemporary _ = UncDiscard"

definition file_summary :: "file_status list \<Rightarrow> string" where
  "file_summary fs = (case fs of
      [f] \<Rightarrow> ''1 file ('' @ fst_path f @ '')''
    | _ \<Rightarrow> nat_to_string (length fs) @ '' files'')"

fun explain_reason :: "changes_context \<Rightarrow> bool \<Rightarrow> file_status list \<Rightarrow> string" where
  "explain_reason CtxCurrentTask True fs =
     ''Changes appear related to current task with '' @ file_summary fs @ '' - suggesting commit''"
| "explain_reason CtxCurrentTask False fs =
     ''Changes appear related to current task but '' @ file_summary fs @ '' - stashing for safety''"
| "explain_reason CtxPreviousTask True fs =
     ''Changes appear from previous task with '' @ file_summary fs @ '' - suggesting commit''"
| "explain_reason CtxPreviousTask False fs =
     ''Changes appear from previous task but '' @ file_summary fs @ '' - discarding''"
| "explain_reason CtxUnknown True fs =
     ''Uncertain context with '' @ file_summary fs @ '' - stashing for review''"
| "explain_reason CtxUnknown False fs =
     ''Uncertain context with '' @ file_summary fs @ '' - human decision needed''"
| "explain_reason CtxTemporary _ fs = ''Temporary/debug changes detected - discarding''"

definition uncommitted_analyze :: "git_state \<Rightarrow> uncommitted_analysis" where
  "uncommitted_analyze g =
     (if gs_files g = [] then
        \<lparr>ua_context = CtxUnknown, ua_valuable = False, ua_action = UncCommit, ua_reason = ''No uncommitted changes''\<rparr>
      else
        let c = classify_context g; v = assess_value g
        in \<lparr>ua_context = c, ua_valuable = v, ua_action = determine_action c v,
             ua_reason = explain_reason c v (gs_files g)\<rparr>)"

subsection \<open>Commit messages\<close>

definition to_commit_prefix :: "string \<Rightarrow> string" where
  "to_commit_prefix t =
     (let l = to_lowercase t
      in if l = ''feature'' then ''feat''
         else if l = ''bugfix'' then ''fix''
         else if l = ''refactor'' then ''refactor''
         else if l = ''docs'' then ''docs''
         else if l = ''test'' then ''test''
         else if l = ''chore'' then ''chore''
         else if l = ''hotfix'' then ''fix''
         else ''feat'')"

definition commit_message :: "string \<Rightarrow> string \<Rightarrow> string \<Rightarrow> string" where
  "commit_message i s t = to_commit_prefix t @ ''('' @ i @ ''): '' @ s"

definition wip_message :: "string \<Rightarrow> string \<Rightarrow> string \<Rightarrow> string" where
  "wip_message i s t = to_commit_prefix t @ ''('' @ i @ ''): '' @ s @ '' [wip]''"

definition parse_message :: "string \<Rightarrow> (string \<times> string) option" where
  "parse_message m = (case split_first (CHR '':'') m of
      None \<Rightarrow> None
    | Some (p, q) \<Rightarrow> Some (p, trim q))"

subsection \<open>The pipeline\<close>

record preparation_request =
  pr_description :: string
  pr_task_id :: "string option"
  pr_worktree :: string
  pr_agent_id :: string

datatype preparation_step =
    StepMetaExtraction | StepGitStateAnalysis | StepUncommittedHandling | StepBranchSetup | StepFinalVerification

datatype preparation_result =
    PrepReady task_metadata bool bool
  | PrepNeedsUncommittedHandling uncommitted_analysis task_metadata
  | PrepNeedsSync git_state task_metadata
  | PrepNeedsHuman string
  | PrepFailed string preparation_step

datatype pre_action =
    HandleUncommitted uncommitted_action "string option" "string option"
  | CreateBranch string string
  | RebaseToMain string

fun pre_action_summary :: "pre_action \<Rightarrow> string" where
  "pre_action_summary (HandleUncommitted a _ _) = ''Handle uncommitted: '' @ uncommitted_action_display a"
| "pre_action_summary (CreateBranch b base) = ''Create branch '' @ [CHR 0x27] @ b @ [CHR 0x27] @ '' from '' @ [CHR 0x27] @ base @ [CHR 0x27]"
| "pre_action_summary (RebaseToMain base) = ''Rebase to '' @ base"

definition extract_task_meta ::
    "(task_type \<times> nat) hash_order \<Rightarrow> instant \<Rightarrow> string \<Rightarrow> string option \<Rightarrow> task_metadata" where
  "extract_task_meta ord now d i = task_metadata_new ord now (or_else i ''task-001'') d"

definition needs_rebase :: "git_state \<Rightarrow> string \<Rightarrow> bool" where
  "needs_rebase g base \<longleftrightarrow> 0 < gs_behind g \<or> gs_branch g \<noteq> base \<and> 0 < gs_ahead g"

definition prepare ::
    "(task_type \<times> nat) hash_order \<Rightarrow> git_env \<Rightarrow> instant \<Rightarrow> preparation_request \<Rightarrow> preparation_result" where
  "prepare ord E now r =
     (let m = extract_task_meta ord now (pr_description r) (pr_task_id r)
      in case git_analyze E ''main'' (pr_worktree r) of
           Inl e \<Rightarrow> PrepFailed (''Git state analysis failed: '' @ git_state_error_display e) StepGitStateAnalysis
         | Inr g \<Rightarrow>
             let a = uncommitted_analyze g
             in if gs_uncommitted g \<and> ua_action a = UncRequestHuman then
                  PrepNeedsHuman (''Uncommitted changes require human decision: '' @ ua_reason a)
                else if gs_uncommitted g \<and> ua_action a \<in> {UncCommit, UncStash, UncDiscard} then
                  PrepNeedsUncommittedHandling a m
                else if needs_rebase g (base_branch_of g) then PrepNeedsSync g m
                else
                  case branch_exists E (pr_worktree r) (tm_branch m) of
                    Inr True \<Rightarrow> PrepReady m True (\<not> gs_uncommitted g)
                  | Inr False \<Rightarrow> PrepNeedsSync g m
                  | Inl e \<Rightarrow>
                      PrepFailed (''Failed to check branch existence: '' @ git_state_error_display e) StepBranchSetup)"

fun context_prefix :: "changes_context \<Rightarrow> string" where
  "context_prefix CtxCurrentTask = ''wip''"
| "context_prefix CtxPreviousTask = ''chore''"
| "context_prefix CtxUnknown = ''wip''"
| "context_prefix CtxTemporary = ''cleanup''"

text \<open>The check of the branch runs in the directory named like the task id, as the code has it.\<close>

fun generate_pre_actions :: "git_env \<Rightarrow> preparation_result \<Rightarrow> pre_action list" where
  "generate_pre_actions E (PrepNeedsUncommittedHandling a m) =
     [HandleUncommitted (ua_action a) (Some (context_prefix (ua_context a) @ '': '' @ ua_reason a))
        (Some (''WIP: '' @ ua_reason a))]"
| "generate_pre_actions E (PrepNeedsSync g m) =
     (let base = base_branch_of g
      in if branch_exists E (tm_id m) (tm_branch m) = Inr False then [CreateBranch (tm_branch m) base]
         else if needs_rebase g base then [RebaseToMain base]
         else [])"
| "generate_pre_actions E _ = []"

subsection \<open>When changes are discarded\<close>

definition mixed_changes :: git_state where
  "mixed_changes = git_state_default\<lparr>gs_uncommitted := True,
     gs_files := map (\<lambda>p. \<lparr>fst_path = p, fst_change = FileModified, fst_staged = True, fst_new = False\<rparr>)
       [''src/main.rs'', ''src/email.template.rs'']\<rparr>"

text \<open>C1: Discarding all uncommitted changes is suggested exactly if the path of one of the changed files
  contains one of the patterns of temporary files, however valuable the changes are. The pattern
  \<open>.temp\<close> occurs in \<open>email.template.rs\<close>: a change of that file and of \<open>main.rs\<close> is rated valuable and
  still to be discarded.\<close>

theorem discard_suggested_iff_temporary:
  "(ua_action (uncommitted_analyze g) = UncDiscard \<longleftrightarrow>
     list_ex (\<lambda>f. is_temporary_file (fst_path f)) (gs_files g)) \<and>
   ua_valuable (uncommitted_analyze mixed_changes) \<and>
   ua_action (uncommitted_analyze mixed_changes) = UncDiscard"
proof (intro conjI)
  have det: "determine_action c v = UncDiscard \<longleftrightarrow> c = CtxTemporary" if "c \<noteq> CtxPreviousTask" for c v
    using that by (cases c; cases v) simp_all
  have ctx: "classify_context g = CtxTemporary \<longleftrightarrow> list_ex (\<lambda>f. is_temporary_file (fst_path f)) (gs_files g)"
    "classify_context g \<noteq> CtxPreviousTask"
    by (simp_all add: classify_context_def)
  show "ua_action (uncommitted_analyze g) = UncDiscard \<longleftrightarrow>
     list_ex (\<lambda>f. is_temporary_file (fst_path f)) (gs_files g)"
    using det [OF ctx(2)] ctx(1) by (cases "gs_files g = []") (simp_all add: uncommitted_analyze_def Let_def)
qed (code_simp)+

subsection \<open>Branches of new tasks\<close>

lemma analyze_exists: "git_analyze E base path = Inr g \<Longrightarrow> ge_exists E path"
  by (simp add: git_analyze_def split: if_splits)

text \<open>The branch is asked for only in a clean tree.\<close>

lemma handled_action:
  "a = UncRequestHuman \<or> a \<in> {UncCommit, UncStash, UncDiscard}"
  by (cases a) simp_all

lemma prepare_clean:
  assumes "git_analyze E ''main'' (pr_worktree r) = Inr g" "\<not> gs_uncommitted g"
    "\<not> needs_rebase g (base_branch_of g)"
    and "m = extract_task_meta ord now (pr_description r) (pr_task_id r)"
  shows "prepare ord E now r =
    (case branch_exists E (pr_worktree r) (tm_branch m) of
       Inr True \<Rightarrow> PrepReady m True True
     | Inr False \<Rightarrow> PrepNeedsSync g m
     | Inl e \<Rightarrow> PrepFailed (''Failed to check branch existence: '' @ git_state_error_display e) StepBranchSetup)"
  using assms by (simp add: prepare_def Let_def split: sum.split bool.split)

text \<open>C2: Let \<open>git rev-parse --verify\<close> fail for a reference that does not exist, as documented. Then no
  preparation ever leads to the creation of a branch: for a task whose branch is new, in a clean and
  up-to-date tree, the preparation fails; a ready preparation has an existing branch; and no list
  of pre-actions contains \<open>CreateBranch\<close>.\<close>

theorem no_branch_is_created:
  assumes docs: "\<And>p. ge_exists E p \<Longrightarrow> rev_parse_documented E p (known p)"
    and tree: "git_analyze E ''main'' (pr_worktree r) = Inr g" "\<not> gs_uncommitted g"
      "\<not> needs_rebase g (base_branch_of g)"
  shows "(if known (pr_worktree r) (''refs/heads/'' @
              tm_branch (extract_task_meta ord now (pr_description r) (pr_task_id r)))
          then prepare ord E now r = PrepReady (extract_task_meta ord now (pr_description r) (pr_task_id r)) True True
          else \<exists>e. prepare ord E now r = PrepFailed e StepBranchSetup) \<and>
         CreateBranch b base \<notin> set (generate_pre_actions E res)"
proof
  define m where "m = extract_task_meta ord now (pr_description r) (pr_task_id r)"
  have ex: "ge_exists E (pr_worktree r)" using tree(1) by (rule analyze_exists)
  note prep = prepare_clean [OF tree m_def]
  have branch: "if known (pr_worktree r) (''refs/heads/'' @ tm_branch m)
      then branch_exists E (pr_worktree r) (tm_branch m) = Inr True
      else \<exists>e. branch_exists E (pr_worktree r) (tm_branch m) = Inl (GitCommandFailed e)"
    by (rule branch_exists_documented [OF ex docs [OF ex]])
  show "if known (pr_worktree r) (''refs/heads/'' @
        tm_branch (extract_task_meta ord now (pr_description r) (pr_task_id r)))
      then prepare ord E now r = PrepReady (extract_task_meta ord now (pr_description r) (pr_task_id r)) True True
      else \<exists>e. prepare ord E now r = PrepFailed e StepBranchSetup"
    unfolding m_def [symmetric] prep using branch by (cases "known (pr_worktree r) (''refs/heads/'' @ tm_branch m)") auto
  have "branch_exists E p n \<noteq> Inr False" for p n
  proof (cases "ge_exists E p")
    case True
    from branch_exists_documented [OF True docs [OF True], of n] show ?thesis
      by (cases "known p (''refs/heads/'' @ n)") auto
  qed (simp add: branch_exists_def git_execute_def)
  then show "CreateBranch b base \<notin> set (generate_pre_actions E res)" by (cases res) (simp_all add: Let_def)
qed

text \<open>A clean repository on \<open>main\<close> with no other branch.\<close>

definition fresh_git :: git_env where
  "fresh_git = \<lparr>ge_exists = (\<lambda>p. p = ''/work''),
     ge_run = (\<lambda>_ args.
       if args = [''rev-parse'', ''--git-dir''] then Inr ''.git''
       else if args = [''rev-parse'', ''--verify'', ''main''] then Inr (''abc'' @ [CHR 0x0A])
       else if args = [''branch'', ''--show-current''] then Inr (''main'' @ [CHR 0x0A])
       else if args = [''status'', ''--porcelain''] then Inr []
       else Inl ''fatal'')\<rparr>"

definition fresh_request :: preparation_request where
  "fresh_request = \<lparr>pr_description = ''add login'', pr_task_id = Some ''T-1'', pr_worktree = ''/work'',
     pr_agent_id = ''agent_001''\<rparr>"

definition fresh_state :: git_state where
  "fresh_state = git_state_default\<lparr>gs_branch := ''main'', gs_sha := Some [], gs_message := Some []\<rparr>"

lemma fresh_git_eval: "git_analyze fresh_git ''main'' (pr_worktree fresh_request) = Inr fresh_state"
  "extract_task_meta id 0 (pr_description fresh_request) (pr_task_id fresh_request) =
     \<lparr>tm_id = ''T-1'', tm_branch = ''feature/T-1/add-login'', tm_summary = ''add login'',
      tm_description = ''add login'', tm_type = FeatureTask, tm_priority = PrioMedium,
      tm_confidence = 0x3FE4CCCCCCCCCCCD, tm_created_at = 0\<rparr>"
  by code_simp+

theorem no_branch_is_created_witness:
  "(\<exists>e. prepare id fresh_git 0 fresh_request = PrepFailed e StepBranchSetup) \<and>
   CreateBranch ''feature/T-1/add-login'' ''main'' \<notin>
     set (generate_pre_actions fresh_git (prepare id fresh_git 0 fresh_request))"
proof -
  have docs: "rev_parse_documented fresh_git p (\<lambda>ref. ref = ''main'')" for p
    unfolding rev_parse_documented_def
  proof
    fix ref
    have "list_all is_alphanumeric ''abc''" by (simp add: is_alphanumeric_def is_alphabetic_def char_code_def)
    then have "\<exists>h. h \<noteq> [] \<and> list_all is_alphanumeric h \<and> ''abc'' @ [CHR 0x0A] = h @ [CHR 0x0A]"
      by (intro exI [of _ "''abc''"]) simp
    then show "if ref = ''main'' then \<exists>h. h \<noteq> [] \<and> list_all is_alphanumeric h \<and>
        ge_run fresh_git p [''rev-parse'', ''--verify'', ref] = Inr (h @ [CHR 0x0A])
      else \<exists>e. ge_run fresh_git p [''rev-parse'', ''--verify'', ref] = Inl e"
      by (simp add: fresh_git_def)
  qed
  have tree: "\<not> gs_uncommitted fresh_state" "\<not> needs_rebase fresh_state (base_branch_of fresh_state)"
    by (simp_all add: fresh_state_def git_state_default_def needs_rebase_def)
  from no_branch_is_created [OF docs fresh_git_eval(1) tree, of id 0
      "''feature/T-1/add-login''" "''main''" "prepare id fresh_git 0 fresh_request"]
  show ?thesis by (simp add: fresh_git_eval)
qed

end
