(* ===== verification/Decision_Actions.thy ===== *)
theory Decision_Actions
  imports Decision_Types Task_Preparation
begin

text \<open>
  \<open>decision/src/model/action/builtin_actions.rs\<close> and \<open>action_registry.rs\<close>: the actions a decision
  consists of and the registry that parses them. An action struct is a constructor of one datatype,
  its trait methods are functions, and \<open>boxed\<close> is the trait object. The derived JSON of \<open>serde\<close> is a
  parameter, \<open>action_codec\<close>: what \<open>serde_json::to_string\<close> prints and how the parameters of a type
  are read back.
\<close>

datatype builtin_action =
    SelectOption string string
  | SelectFirst
  | Reflect string
  | ConfirmCompletion bool "string option"
  | ContinueWith string "string list"
  | Retry string u64 bool
  | RequestHuman string
  | CustomInstruction string
  | ContinueAllTasks string
  | StopIfComplete string
  | WakeUp
  | CommitChanges string bool "string option"
  | StashChanges string bool "string option"
  | DiscardChanges "string option"
  | SuggestCommit string bool string
  | PreparePr string string string bool
  | CreateTaskBranch string string "string option"
  | RebaseTaskToMain string
  | PrepareTaskStart task_metadata "pre_action list" "string option"

fun builtin_name :: "builtin_action \<Rightarrow> string" where
  "builtin_name (SelectOption _ _) = ''select_option''"
| "builtin_name SelectFirst = ''select_first''"
| "builtin_name (Reflect _) = ''reflect''"
| "builtin_name (ConfirmCompletion _ _) = ''confirm_completion''"
| "builtin_name (ContinueWith _ _) = ''continue''"
| "builtin_name (Retry _ _ _) = ''retry''"
| "builtin_name (RequestHuman _) = ''request_human''"
| "builtin_name (CustomInstruction _) = ''custom_instruction''"
| "builtin_name (ContinueAllTasks _) = ''continue_all_tasks''"
| "builtin_name (StopIfComplete _) = ''stop_if_complete''"
| "builtin_name WakeUp = ''wake_up''"
| "builtin_name (CommitChanges _ _ _) = ''commit_changes''"
| "builtin_name (StashChanges _ _ _) = ''stash_changes''"
| "builtin_name (DiscardChanges _) = ''discard_changes''"
| "builtin_name (SuggestCommit _ _ _) = ''suggest_commit''"
| "builtin_name (PreparePr _ _ _ _) = ''prepare_pr''"
| "builtin_name (CreateTaskBranch _ _ _) = ''create_task_branch''"
| "builtin_name (RebaseTaskToMain _) = ''rebase_to_main''"
| "builtin_name (PrepareTaskStart _ _ _) = ''prepare_task_start''"

fun builtin_implementation :: "builtin_action \<Rightarrow> string" where
  "builtin_implementation (SelectOption _ _) = ''SelectOptionAction''"
| "builtin_implementation SelectFirst = ''SelectFirstAction''"
| "builtin_implementation (Reflect _) = ''ReflectAction''"
| "builtin_implementation (ConfirmCompletion _ _) = ''ConfirmCompletionAction''"
| "builtin_implementation (ContinueWith _ _) = ''ContinueAction''"
| "builtin_implementation (Retry _ _ _) = ''RetryAction''"
| "builtin_implementation (RequestHuman _) = ''RequestHumanAction''"
| "builtin_implementation (CustomInstruction _) = ''CustomInstructionAction''"
| "builtin_implementation (ContinueAllTasks _) = ''ContinueAllTasksAction''"
| "builtin_implementation (StopIfComplete _) = ''StopIfCompleteAction''"
| "builtin_implementation WakeUp = ''WakeUpAction''"
| "builtin_implementation (CommitChanges _ _ _) = ''CommitChangesAction''"
| "builtin_implementation (StashChanges _ _ _) = ''StashChangesAction''"
| "builtin_implementation (DiscardChanges _) = ''DiscardChangesAction''"
| "builtin_implementation (SuggestCommit _ _ _) = ''SuggestCommitAction''"
| "builtin_implementation (PreparePr _ _ _ _) = ''PreparePrAction''"
| "builtin_implementation (CreateTaskBranch _ _ _) = ''CreateTaskBranchAction''"
| "builtin_implementation (RebaseTaskToMain _) = ''RebaseToMainAction''"
| "builtin_implementation (PrepareTaskStart _ _ _) = ''PrepareTaskStartAction''"

definition nl :: string where
  "nl = [CHR 0x0A]"

fun builtin_prompt :: "builtin_action \<Rightarrow> string" where
  "builtin_prompt (SelectOption _ _) = ''Selection: [Option ID]'' @ nl @ ''Reason: [Brief explanation]''"
| "builtin_prompt SelectFirst = ''select_first: Select the first available option''"
| "builtin_prompt (Reflect _) = ''Reflect: [Reflection prompt for verification]''"
| "builtin_prompt (ConfirmCompletion _ _) = ''Confirm: [yes/no]'' @ nl @ ''SubmitPR: [yes/no]''"
| "builtin_prompt (ContinueWith _ _) = ''Continue: [Instruction to continue]'' @ nl @ ''Focus: [Items to focus on]''"
| "builtin_prompt (Retry _ _ _) = ''Retry: [Retry instruction]'' @ nl @ ''CooldownMs: [milliseconds]''"
| "builtin_prompt (RequestHuman _) = ''RequestHuman: [Message for human]''"
| "builtin_prompt (CustomInstruction _) = ''Custom: [Free-form instruction text]''"
| "builtin_prompt (ContinueAllTasks _) = ''ContinueAllTasks: [Instruction to continue working]''"
| "builtin_prompt (StopIfComplete _) = ''StopIfComplete: [Reason for stopping]''"
| "builtin_prompt WakeUp = ''WakeUp''"
| "builtin_prompt (CommitChanges m w _) = (if w then ''Commit (WIP): '' else ''Commit: '') @ m"
| "builtin_prompt (StashChanges d _ _) = ''Stash: '' @ d"
| "builtin_prompt (DiscardChanges _) = ''Discard all uncommitted changes''"
| "builtin_prompt (SuggestCommit m mandatory r) =
     (if mandatory then ''MANDATORY: Commit your changes now.'' @ nl @ m
      else ''[Git Reminder] Consider committing: '' @ m) @ nl @ ''Reason: '' @ r"
| "builtin_prompt (PreparePr t _ b d) =
     ''PreparePR: '' @ t @ nl @ ''Base: '' @ b @ nl @ ''Draft: '' @ bool_to_string d"
| "builtin_prompt (CreateTaskBranch b base _) = ''CreateBranch: '' @ b @ '' from '' @ base"
| "builtin_prompt (RebaseTaskToMain base) = ''RebaseToMain: rebase to '' @ base"
| "builtin_prompt (PrepareTaskStart m pre _) =
     ''PrepareTaskStart: branch='' @ tm_branch m @ nl @ ''Pre-actions: '' @ nat_to_string (length pre) @
     concat (map (\<lambda>a. nl @ ''  - '' @ pre_action_summary a) pre)"

record action_codec =
  ac_encode :: "builtin_action \<Rightarrow> string"
  ac_decode :: "string \<Rightarrow> string \<Rightarrow> builtin_action option"

text \<open>Three of the structs have no parameters to print.\<close>

fun builtin_params :: "action_codec \<Rightarrow> builtin_action \<Rightarrow> string" where
  "builtin_params J SelectFirst = ''{}''"
| "builtin_params J WakeUp = ''{}''"
| "builtin_params J (DiscardChanges _) = ''{}''"
| "builtin_params J a = ac_encode J a"

definition boxed :: "action_codec \<Rightarrow> builtin_action \<Rightarrow> decision_action" where
  "boxed J a = \<lparr>act_type = ActionType (builtin_name a), act_implementation = builtin_implementation a,
     act_prompt_format = builtin_prompt a, act_params = builtin_params J a\<rparr>"

text \<open>The derived reader gives an action of the type it was asked for.\<close>

definition codec_typed :: "action_codec \<Rightarrow> bool" where
  "codec_typed J \<longleftrightarrow> (\<forall>n p a. ac_decode J n p = Some a \<longrightarrow> builtin_name a = n)"

subsection \<open>Registry\<close>

type_synonym action_parser = "string \<Rightarrow> decision_action option"

record action_registry =
  ar_actions :: "(action_type \<times> decision_action) list"
  ar_parsers :: "(action_type \<times> action_parser) list"
  ar_deserializers :: "(action_type \<times> action_parser) list"

definition action_registry_new :: action_registry where
  "action_registry_new = \<lparr>ar_actions = [], ar_parsers = [], ar_deserializers = []\<rparr>"

definition register_action :: "decision_action \<Rightarrow> action_registry \<Rightarrow> action_registry" where
  "register_action a r = r\<lparr>ar_actions := AList.update (act_type a) a (ar_actions r)\<rparr>"

definition register_parser :: "action_type \<Rightarrow> action_parser \<Rightarrow> action_registry \<Rightarrow> action_registry" where
  "register_parser t p r = r\<lparr>ar_parsers := AList.update t p (ar_parsers r)\<rparr>"

definition register_deserializer :: "action_type \<Rightarrow> action_parser \<Rightarrow> action_registry \<Rightarrow> action_registry" where
  "register_deserializer t p r = r\<lparr>ar_deserializers := AList.update t p (ar_deserializers r)\<rparr>"

definition registry_get :: "action_registry \<Rightarrow> action_type \<Rightarrow> decision_action option" where
  "registry_get r t = map_of (ar_actions r) t"

definition registry_parse :: "action_registry \<Rightarrow> action_type \<Rightarrow> string \<Rightarrow> decision_action option" where
  "registry_parse r t out = Option.bind (map_of (ar_parsers r) t) (\<lambda>p. p out)"

definition registry_deserialize :: "action_registry \<Rightarrow> action_type \<Rightarrow> string \<Rightarrow> decision_action option" where
  "registry_deserialize r t params = Option.bind (map_of (ar_deserializers r) t) (\<lambda>p. p params)"

definition is_registered :: "action_registry \<Rightarrow> action_type \<Rightarrow> bool" where
  "is_registered r t \<longleftrightarrow> registry_get r t \<noteq> None"

text \<open>\<open>SelectOptionAction::parse\<close>: the part after the first colon, up to the second one.\<close>

definition after_colon :: "string \<Rightarrow> string" where
  "after_colon l = (case split_on (CHR '':'') l of _ # p # _ \<Rightarrow> trim p | _ \<Rightarrow> [])"

definition parse_select_option :: "string \<Rightarrow> builtin_action option" where
  "parse_select_option out =
     (let ls = str_lines out
      in if length ls < 2 then None
         else
           case (find (\<lambda>l. starts_with l ''Selection:'') ls, find (\<lambda>l. starts_with l ''Reason:'') ls) of
             (Some o_line, Some r_line) \<Rightarrow>
               Some (SelectOption (filter (\<lambda>c. c \<noteq> CHR ''['' \<and> c \<noteq> CHR '']'') (after_colon o_line)) (after_colon r_line))
           | _ \<Rightarrow> None)"

definition default_actions :: "builtin_action list" where
  "default_actions =
     [SelectOption ''A'' ''Default selection'',
      Reflect ''Please reflect on your work and verify completion.'',
      ConfirmCompletion False None,
      ContinueWith ''Continue with the next steps.'' [],
      Retry ''Retry the previous action.'' 1000 False,
      RequestHuman ''Please provide human input.'',
      CustomInstruction ''Custom instruction placeholder.'',
      ContinueAllTasks ''continue finish all tasks'',
      StopIfComplete ''All tasks complete'',
      CommitChanges [] False None,
      StashChanges [] True None,
      DiscardChanges None,
      SuggestCommit [] False [],
      PreparePr [] [] ''main'' True]"

definition builtin_deserializer :: "action_codec \<Rightarrow> string \<Rightarrow> action_parser" where
  "builtin_deserializer J n params = map_option (boxed J) (ac_decode J n params)"

definition register_action_builtins :: "action_codec \<Rightarrow> action_registry \<Rightarrow> action_registry" where
  "register_action_builtins J r =
     fold (\<lambda>a. register_deserializer (ActionType (builtin_name a)) (builtin_deserializer J (builtin_name a)))
       default_actions
       (register_parser (ActionType ''select_option'') (\<lambda>out. map_option (boxed J) (parse_select_option out))
         (fold (\<lambda>a. register_action (boxed J a)) default_actions r))"

definition builtin_registry :: "action_codec \<Rightarrow> action_registry" where
  "builtin_registry J = register_action_builtins J action_registry_new"

lemma boxed_type [simp]: "act_type (boxed J a) = ActionType (builtin_name a)"
  by (simp add: boxed_def)

text \<open>What the registry of the builtin actions holds.\<close>

lemma fold_register:
  "map_of (ar_actions (fold (\<lambda>a. register_action (boxed J a)) as0 r)) t =
     (case find (\<lambda>a. ActionType (builtin_name a) = t) (rev as0) of
        Some a \<Rightarrow> Some (boxed J a) | None \<Rightarrow> map_of (ar_actions r) t)"
  by (induction as0 rule: rev_induct) (auto simp: register_action_def update_conv)

lemma fold_deserializers:
  "map_of (ar_deserializers (fold (\<lambda>a. register_deserializer (ActionType (builtin_name a))
       (builtin_deserializer J (builtin_name a))) as0 r)) t =
     (if \<exists>a\<in>set as0. ActionType (builtin_name a) = t then Some (builtin_deserializer J (action_name t))
      else map_of (ar_deserializers r) t)"
  by (induction as0 rule: rev_induct) (auto simp: register_deserializer_def update_conv)

lemma fold_deserializers_frame [simp]:
  "ar_actions (fold (\<lambda>a. register_deserializer (f a) (g a)) as0 r) = ar_actions r"
  "ar_parsers (fold (\<lambda>a. register_deserializer (f a) (g a)) as0 r) = ar_parsers r"
  by (induction as0 arbitrary: r) (simp_all add: register_deserializer_def)

lemma fold_register_frame [simp]:
  "ar_parsers (fold (\<lambda>a. register_action (f a)) as0 r) = ar_parsers r"
  "ar_deserializers (fold (\<lambda>a. register_action (f a)) as0 r) = ar_deserializers r"
  by (induction as0 arbitrary: r) (simp_all add: register_action_def)

lemma builtin_parse:
  "registry_parse (builtin_registry J) t out =
     (if t = ActionType ''select_option'' then map_option (boxed J) (parse_select_option out) else None)"
  by (simp add: registry_parse_def builtin_registry_def register_action_builtins_def register_parser_def
    action_registry_new_def)

lemma builtin_deserialize:
  "registry_deserialize (builtin_registry J) t params =
     (if action_name t \<in> builtin_name ` set default_actions
      then map_option (boxed J) (ac_decode J (action_name t) params) else None)"
  by (cases t) (auto simp: registry_deserialize_def builtin_registry_def register_action_builtins_def
    fold_deserializers register_parser_def action_registry_new_def builtin_deserializer_def)

lemma builtin_get:
  "registry_get (builtin_registry J) t =
     map_option (boxed J) (find (\<lambda>a. ActionType (builtin_name a) = t) (rev default_actions))"
  by (simp add: registry_get_def builtin_registry_def register_action_builtins_def fold_register
    register_parser_def action_registry_new_def split: option.split)

end
