(* ===== verification/Decision_Situations.thy ===== *)
theory Decision_Situations
  imports Decision_Blocking Decision_Actions
begin

text \<open>
  \<open>decision/src/model/situation/builtin_situations.rs\<close> and \<open>situation_registry.rs\<close>: the situations a
  decision is asked for and the registry that builds them by type. A situation struct is a constructor
  of one datatype; \<open>situation_of\<close> is its trait object. Two texts depend on the environment: the
  percentage of a confidence is formatted by the standard library (\<open>fmt\<close>), and the age of a rate
  limit is read from the clock.
\<close>

datatype builtin_situation =
    TaskStarting string "string option" "task_metadata option" "git_state option"
  | UncommittedChanges git_state uncommitted_analysis
  | WaitingForChoice "choice_option list" "string option" bool
  | ClaimsCompletion string u8 u8 f64
  | PartialCompletion completion_progress "string option"
  | ErrorSituation error_info
  | AgentIdle string bool u64
  | RateLimitRecovery instant "32 word" "string option"
  | GenericUnknown situation_type

fun situation_type_of :: "builtin_situation \<Rightarrow> situation_type" where
  "situation_type_of (TaskStarting _ _ _ _) = situation_new ''task_starting''"
| "situation_type_of (UncommittedChanges _ _) = situation_new ''uncommitted_changes_detected''"
| "situation_type_of (WaitingForChoice _ _ _) = situation_new ''waiting_for_choice''"
| "situation_type_of (ClaimsCompletion _ _ _ _) = situation_new ''claims_completion''"
| "situation_type_of (PartialCompletion _ _) = situation_new ''partial_completion''"
| "situation_type_of (ErrorSituation _) = situation_new ''error''"
| "situation_type_of (AgentIdle _ _ _) = situation_new ''agent_idle''"
| "situation_type_of (RateLimitRecovery _ _ _) = situation_new ''rate_limit_recovery''"
| "situation_type_of (GenericUnknown t) = t"

fun situation_implementation :: "builtin_situation \<Rightarrow> string" where
  "situation_implementation (TaskStarting _ _ _ _) = ''TaskStartingSituation''"
| "situation_implementation (UncommittedChanges _ _) = ''UncommittedChangesSituation''"
| "situation_implementation (WaitingForChoice _ _ _) = ''WaitingForChoiceSituation''"
| "situation_implementation (ClaimsCompletion _ _ _ _) = ''ClaimsCompletionSituation''"
| "situation_implementation (PartialCompletion _ _) = ''PartialCompletionSituation''"
| "situation_implementation (ErrorSituation _) = ''ErrorSituation''"
| "situation_implementation (AgentIdle _ _ _) = ''AgentIdleSituation''"
| "situation_implementation (RateLimitRecovery _ _ _) = ''RateLimitRecoverySituation''"
| "situation_implementation (GenericUnknown _) = ''GenericUnknownSituation''"

definition git_conflicts :: "git_state option \<Rightarrow> bool" where
  "git_conflicts g = (case g of Some s \<Rightarrow> gs_conflicts s | None \<Rightarrow> False)"

definition f64_07 :: f64 where
  "f64_07 = 0x3FE6666666666666"

definition f64_05 :: f64 where
  "f64_05 = 0x3FE0000000000000"

definition f64_08 :: f64 where
  "f64_08 = 0x3FE999999999999A"

fun situation_requires_human :: "builtin_situation \<Rightarrow> bool" where
  "situation_requires_human (TaskStarting _ _ _ g) = git_conflicts g"
| "situation_requires_human (UncommittedChanges _ a) = (ua_action a = UncRequestHuman)"
| "situation_requires_human (WaitingForChoice _ _ critical) = critical"
| "situation_requires_human (ClaimsCompletion _ rounds mx c) = (mx \<le> rounds \<and> f64_less c f64_07)"
| "situation_requires_human (PartialCompletion _ blocker) = (blocker \<noteq> None)"
| "situation_requires_human (ErrorSituation e) = (\<not> ei_recoverable e \<or> 3 \<le> ei_retry_count e)"
| "situation_requires_human (AgentIdle _ _ _) = False"
| "situation_requires_human (RateLimitRecovery _ _ _) = False"
| "situation_requires_human (GenericUnknown _) = True"

fun situation_urgency :: "builtin_situation \<Rightarrow> urgency_level" where
  "situation_urgency (TaskStarting _ _ _ g) = (if git_conflicts g then UrgencyHigh else UrgencyLow)"
| "situation_urgency (UncommittedChanges _ a) =
     (if ua_context a = CtxTemporary then UrgencyLow else UrgencyMedium)"
| "situation_urgency (WaitingForChoice _ _ critical) = (if critical then UrgencyHigh else UrgencyLow)"
| "situation_urgency (ClaimsCompletion _ _ _ c) = (if f64_less c f64_05 then UrgencyCritical else UrgencyMedium)"
| "situation_urgency (PartialCompletion _ _) = UrgencyMedium"
| "situation_urgency (ErrorSituation e) = (if ei_recoverable e then UrgencyMedium else UrgencyHigh)"
| "situation_urgency (AgentIdle _ _ _) = UrgencyLow"
| "situation_urgency (RateLimitRecovery _ _ _) = UrgencyLow"
| "situation_urgency (GenericUnknown _) = UrgencyHigh"

definition warning_sign :: string where
  "warning_sign = [CHR 0xE2, CHR 0x9A, CHR 0xA0, CHR 0xEF, CHR 0xB8, CHR 0x8F]"

fun task_type_display :: "task_type \<Rightarrow> string" where
  "task_type_display FeatureTask = ''Feature''"
| "task_type_display BugfixTask = ''Bugfix''"
| "task_type_display RefactorTask = ''Refactor''"
| "task_type_display DocsTask = ''Docs''"
| "task_type_display TestTask = ''Test''"
| "task_type_display ChoreTask = ''Chore''"
| "task_type_display HotfixTask = ''Hotfix''"

fun situation_text :: "(f64 \<Rightarrow> string) \<Rightarrow> chrono_ops \<Rightarrow> instant \<Rightarrow> builtin_situation \<Rightarrow> string" where
  "situation_text fmt C now (TaskStarting d _ m g) =
     ''Task starting: '' @ d @
     (case m of Some m' \<Rightarrow> nl @ ''Branch: '' @ tm_branch m' @ nl @ ''Type: '' @ task_type_display (tm_type m')
      | None \<Rightarrow> []) @
     (case g of
        Some s \<Rightarrow> nl @ ''Current branch: '' @ gs_branch s @
          (if gs_uncommitted s then nl @ ''Uncommitted changes: '' @ nat_to_string (length (gs_files s)) @ '' files''
           else []) @
          (if gs_conflicts s then nl @ warning_sign @ '' Conflicts detected!'' else []) @
          (if 0 < gs_behind s
           then nl @ warning_sign @ '' Branch is '' @ nat_to_string (gs_behind s) @ '' commits behind base'' else [])
      | None \<Rightarrow> [])"
| "situation_text fmt C now (UncommittedChanges g a) =
     ''Uncommitted changes detected:'' @ nl @ ''Files: '' @ nat_to_string (length (gs_files g)) @ nl @
     ''Context: '' @ changes_context_display (ua_context a) @ nl @
     ''Value: '' @ (if ua_valuable a then ''valuable'' else ''low value'') @ nl @
     ''Suggested: '' @ uncommitted_action_display (ua_action a)"
| "situation_text fmt C now (WaitingForChoice os p _) =
     ''Waiting for choice:'' @ nl @ ''Options:'' @ nl @
     str_join nl (map (\<lambda>x. ''['' @ co_id x @ ''] '' @ co_label x) os) @ nl @
     ''Permission type: '' @ or_else p ''unknown''"
| "situation_text fmt C now (ClaimsCompletion s r _ c) =
     ''Claims completion (round '' @ nat_to_string (unat r) @ ''):'' @ nl @ ''Summary: '' @ s @ nl @
     ''Confidence: '' @ fmt c @ ''%''"
| "situation_text fmt C now (PartialCompletion p b) =
     ''Partial completion:'' @ nl @ ''Completed: '' @ str_join '', '' (cp_completed p) @ nl @
     ''Remaining: '' @ str_join '', '' (cp_remaining p) @ nl @ ''Blocker: '' @ or_else b ''none''"
| "situation_text fmt C now (ErrorSituation e) =
     ''Error (retry '' @ nat_to_string (unat (ei_retry_count e)) @ ''):'' @ nl @ ''Type: '' @ ei_type e @ nl @
     ''Message: '' @ ei_message e @ nl @ ''Recoverable: '' @ bool_to_string (ei_recoverable e)"
| "situation_text fmt C now (AgentIdle t h d) =
     ''Agent Idle State:'' @ nl @ ''Trigger: '' @ t @ nl @ ''Has assigned task: '' @ bool_to_string h @ nl @
     ''Idle duration: '' @ nat_to_string (unat d) @ ''s'' @ nl @ nl @
     ''Determine whether agent should continue working or stop.'' @ nl @
     ''Check Kanban/Backlog for pending tasks.''"
| "situation_text fmt C now (RateLimitRecovery started n e) =
     ''Rate Limit Recovery:'' @ nl @ ''First 429 hit: '' @ int_to_string (ch_minutes C now started) @ '' min ago'' @ nl @
     ''Retry attempts: '' @ nat_to_string (unat n) @ nl @ ''Last error: '' @ or_else e ''None'' @ nl @ nl @
     ''Option: retry (try LLM call to check if rate limit cleared)'' @ nl @
     ''Option: request_human (ask user for manual intervention)''"
| "situation_text fmt C now (GenericUnknown t) =
     ''Unknown situation detected: '' @ situation_display t @ nl @ ''Requires human intervention.''"

fun situation_actions :: "builtin_situation \<Rightarrow> string list" where
  "situation_actions (TaskStarting _ _ _ g) =
     [''prepare_task_start'', ''create_task_branch'', ''rebase_to_main''] @
     (case g of Some s \<Rightarrow> (if gs_uncommitted s then [''custom_instruction''] else []) | None \<Rightarrow> []) @
     [''request_human'']"
| "situation_actions (UncommittedChanges _ _) =
     [''commit_changes'', ''stash_changes'', ''discard_changes'', ''request_human'']"
| "situation_actions (WaitingForChoice _ _ _) =
     [''select_option'', ''select_first'', ''reject_all'', ''custom_instruction'']"
| "situation_actions (ClaimsCompletion _ r mx _) =
     (if r < mx then [''reflect'', ''confirm_completion''] else [''confirm_completion'', ''request_human''])"
| "situation_actions (PartialCompletion _ _) = [''continue'', ''skip_remaining'', ''request_context'']"
| "situation_actions (ErrorSituation e) =
     (if ei_recoverable e \<and> ei_retry_count e < 3 then [''retry'', ''retry_adjusted'', ''restart'']
      else [''request_human'', ''abort''])"
| "situation_actions (AgentIdle _ _ _) = [''continue_all_tasks'', ''stop_if_complete'', ''request_human'']"
| "situation_actions (RateLimitRecovery _ _ _) = [''retry'', ''request_human'']"
| "situation_actions (GenericUnknown _) = [''request_human'']"

fun situation_error :: "builtin_situation \<Rightarrow> error_info option" where
  "situation_error (ErrorSituation e) = Some e"
| "situation_error _ = None"

definition situation_of ::
    "(f64 \<Rightarrow> string) \<Rightarrow> chrono_ops \<Rightarrow> instant \<Rightarrow> builtin_situation \<Rightarrow> decision_situation" where
  "situation_of fmt C now s =
     \<lparr>sit_type = situation_type_of s, sit_implementation = situation_implementation s,
      sit_requires_human = situation_requires_human s, sit_human_urgency = situation_urgency s,
      sit_prompt_text = situation_text fmt C now s,
      sit_available_actions = map ActionType (situation_actions s),
      sit_error_info = situation_error s, sit_params = None\<rparr>"

subsection \<open>Registry\<close>

record situation_registry =
  sr_builders :: "(situation_type \<times> decision_situation option) list"
  sr_defaults :: "(situation_type \<times> decision_situation) list"

definition situation_registry_new :: situation_registry where
  "situation_registry_new = \<lparr>sr_builders = [], sr_defaults = []\<rparr>"

definition register_default :: "decision_situation \<Rightarrow> situation_registry \<Rightarrow> situation_registry" where
  "register_default s r = r\<lparr>sr_defaults := AList.update (sit_type s) s (sr_defaults r)\<rparr>"

definition register_builder ::
    "situation_type \<Rightarrow> decision_situation option \<Rightarrow> situation_registry \<Rightarrow> situation_registry" where
  "register_builder t b r = r\<lparr>sr_builders := AList.update t b (sr_builders r)\<rparr>"

definition try_builder :: "situation_registry \<Rightarrow> situation_type \<Rightarrow> decision_situation option" where
  "try_builder r t = Option.bind (map_of (sr_builders r) t) id"

fun first_present :: "'a option list \<Rightarrow> 'a option" where
  "first_present [] = None"
| "first_present (Some x # xs) = Some x"
| "first_present (None # xs) = first_present xs"

definition build_situation ::
    "(f64 \<Rightarrow> string) \<Rightarrow> chrono_ops \<Rightarrow> instant \<Rightarrow> situation_registry \<Rightarrow> situation_type \<Rightarrow> decision_situation" where
  "build_situation fmt C now r t =
     (let b = situation_base t
      in or_else (first_present
           [try_builder r t, if b \<noteq> t then try_builder r b else None,
            map_of (sr_defaults r) t, if b \<noteq> t then map_of (sr_defaults r) b else None])
         (situation_of fmt C now (GenericUnknown t)))"

definition builtin_situations :: "builtin_situation list" where
  "builtin_situations =
     [WaitingForChoice [] None False,
      ClaimsCompletion [] 0 2 f64_08,
      PartialCompletion \<lparr>cp_completed = [], cp_remaining = [], cp_minutes = None\<rparr> None,
      ErrorSituation (error_info_new ''unknown'' ''Unknown error''),
      AgentIdle ''unknown'' False 0,
      TaskStarting ''Untitled task'' None None None]"

definition builtin_situation_registry ::
    "(f64 \<Rightarrow> string) \<Rightarrow> chrono_ops \<Rightarrow> instant \<Rightarrow> situation_registry" where
  "builtin_situation_registry fmt C now =
     fold (\<lambda>s. register_default (situation_of fmt C now s)) builtin_situations situation_registry_new"

lemma situation_of_simps [simp]:
  "sit_type (situation_of fmt C now s) = situation_type_of s"
  "sit_requires_human (situation_of fmt C now s) = situation_requires_human s"
  "sit_available_actions (situation_of fmt C now s) = map ActionType (situation_actions s)"
  "sit_error_info (situation_of fmt C now s) = situation_error s"
  by (simp_all add: situation_of_def)

text \<open>A situation of any type can be built; the type asked for is the type built, up to its subtype.\<close>

lemma builtin_defaults:
  "sr_defaults (builtin_situation_registry fmt C now) =
     map (\<lambda>s. (situation_type_of s, situation_of fmt C now s)) builtin_situations"
  "sr_builders (builtin_situation_registry fmt C now) = []"
  by (simp_all add: builtin_situation_registry_def builtin_situations_def register_default_def
    situation_registry_new_def situation_new_def)

end
