(* ===== verification/Decision_Context.thy ===== *)
theory Decision_Context
  imports Decision_Situations Running_Context
begin

text \<open>
  What a decision engine receives and returns: the context of \<open>decision/src/core/context.rs\<close> with the
  project rules, the output and the record of \<open>decision/src/core/output.rs\<close>, the errors of
  \<open>decision/src/core/error.rs\<close>, and the conditions of \<open>decision/src/condition.rs\<close> over a context.
\<close>

subsection \<open>Errors\<close>

datatype decision_error =
    SituationNotFound string
  | ActionNotFound string
  | ActionParseError string
  | ParseError string
  | SerializationError string
  | EngineError string
  | ConfigError string
  | BlockingError string
  | PersistenceError string
  | SessionPoolExhausted string
  | RateLimitExceeded nat
  | IoError string
  | JsonError string

fun decision_error_display :: "decision_error \<Rightarrow> string" where
  "decision_error_display (SituationNotFound m) = ''Situation type not found: '' @ m"
| "decision_error_display (ActionNotFound m) = ''Action type not found: '' @ m"
| "decision_error_display (ActionParseError m) = ''Failed to parse action: '' @ m"
| "decision_error_display (ParseError m) = ''Failed to parse response: '' @ m"
| "decision_error_display (SerializationError m) = ''Serialization error: '' @ m"
| "decision_error_display (EngineError m) = ''Decision engine error: '' @ m"
| "decision_error_display (ConfigError m) = ''Invalid configuration: '' @ m"
| "decision_error_display (BlockingError m) = ''Blocking resolution failed: '' @ m"
| "decision_error_display (PersistenceError m) = ''Persistence error: '' @ m"
| "decision_error_display (SessionPoolExhausted m) = ''Session pool exhausted: '' @ m"
| "decision_error_display (RateLimitExceeded n) = ''Rate limit exceeded, waiting at position '' @ nat_to_string n"
| "decision_error_display (IoError m) = ''IO error: '' @ m"
| "decision_error_display (JsonError m) = ''JSON error: '' @ m"

subsection \<open>Output and history\<close>

record decision_output =
  do_actions :: "decision_action list"
  do_reasoning :: string
  do_confidence :: f64
  do_human_requested :: bool
  do_reflection_round :: "u8 option"

definition output_new :: "decision_action list \<Rightarrow> string \<Rightarrow> decision_output" where
  "output_new as r = \<lparr>do_actions = as, do_reasoning = r, do_confidence = f64_08, do_human_requested = False,
     do_reflection_round = None\<rparr>"

definition first_action_type :: "decision_output \<Rightarrow> action_type option" where
  "first_action_type out = (case do_actions out of [] \<Rightarrow> None | a # _ \<Rightarrow> Some (act_type a))"

record output_serde =
  os_types :: "string list"
  os_params :: "string list"
  os_reasoning :: string
  os_confidence :: f64
  os_human_requested :: bool
  os_reflection_round :: "u8 option"

definition output_to_serde :: "decision_output \<Rightarrow> output_serde" where
  "output_to_serde out =
     \<lparr>os_types = map (\<lambda>a. action_name (act_type a)) (do_actions out), os_params = map act_params (do_actions out),
      os_reasoning = do_reasoning out, os_confidence = do_confidence out,
      os_human_requested = do_human_requested out, os_reflection_round = do_reflection_round out\<rparr>"

definition output_from_serde :: "action_registry \<Rightarrow> output_serde \<Rightarrow> decision_output option" where
  "output_from_serde r s =
     (let as = List.map_filter (\<lambda>(t, p). registry_deserialize r (ActionType t) p) (zip (os_types s) (os_params s))
      in if length as \<noteq> length (os_types s) then None
         else Some \<lparr>do_actions = as, do_reasoning = os_reasoning s, do_confidence = os_confidence s,
           do_human_requested = os_human_requested s, do_reflection_round = os_reflection_round s\<rparr>)"

record decision_record =
  dr_id :: string
  dr_timestamp :: instant
  dr_situation :: situation_type
  dr_actions :: "action_type list"
  dr_reasoning :: string
  dr_confidence :: f64
  dr_engine :: engine_type

definition decision_record_new ::
    "instant \<Rightarrow> string \<Rightarrow> situation_type \<Rightarrow> decision_output \<Rightarrow> engine_type \<Rightarrow> decision_record" where
  "decision_record_new now i t out e =
     \<lparr>dr_id = i, dr_timestamp = now, dr_situation = t, dr_actions = map act_type (do_actions out),
      dr_reasoning = do_reasoning out, dr_confidence = do_confidence out, dr_engine = e\<rparr>"

subsection \<open>Project rules\<close>

record project_rules =
  pj_content :: string
  pj_rules :: "string hashmap"
  pj_keywords :: "string list"
  pj_human_rules :: "string list"

definition project_rules_new :: "string \<Rightarrow> project_rules" where
  "project_rules_new c = \<lparr>pj_content = c, pj_rules = [], pj_keywords = [], pj_human_rules = []\<rparr>"

definition contains_keyword :: "project_rules \<Rightarrow> string \<Rightarrow> bool" where
  "contains_keyword p k \<longleftrightarrow> k \<in> set (pj_keywords p)"

definition rules_summary :: "(string \<times> string) hash_order \<Rightarrow> project_rules \<Rightarrow> string" where
  "rules_summary ord p =
     (if pj_rules p = [] then ''No project rules defined''
      else str_join nl (map (\<lambda>(k, v). k @ '': '' @ v) (ord (pj_rules p))))"

definition requires_human_for :: "project_rules \<Rightarrow> action_type \<Rightarrow> bool" where
  "requires_human_for p t \<longleftrightarrow> list_ex (\<lambda>r. str_contains r (action_name t)) (pj_human_rules p)"

subsection \<open>Context\<close>

record decision_context =
  dc_situation :: decision_situation
  dc_agent :: string
  dc_task :: "string option"
  dc_story :: "string option"
  dc_running :: running_context
  dc_rules :: project_rules
  dc_history :: "decision_record list"
  dc_metadata :: "string hashmap"

definition context_new :: "decision_situation \<Rightarrow> string \<Rightarrow> decision_context" where
  "context_new s a =
     \<lparr>dc_situation = s, dc_agent = a, dc_task = None, dc_story = None, dc_running = running_context_default,
      dc_rules = project_rules_new [], dc_history = [], dc_metadata = []\<rparr>"

definition with_metadata :: "string \<Rightarrow> string \<Rightarrow> decision_context \<Rightarrow> decision_context" where
  "with_metadata k v c = c\<lparr>dc_metadata := AList.update k v (dc_metadata c)\<rparr>"

definition with_reflection_round :: "u8 \<Rightarrow> decision_context \<Rightarrow> decision_context" where
  "with_reflection_round r c = with_metadata ''reflection_round'' (nat_to_string (unat r)) c"

definition metadata_round :: "decision_context \<Rightarrow> u8 option" where
  "metadata_round c =
     map_option of_nat (Option.bind (map_of (dc_metadata c) ''reflection_round'') (parse_unsigned 8))"

definition ctx_reflection_round :: "decision_context \<Rightarrow> u8" where
  "ctx_reflection_round c = or_else (metadata_round c) 0"

definition ctx_situation_name :: "decision_context \<Rightarrow> string" where
  "ctx_situation_name c = st_name (sit_type (dc_situation c))"

definition ctx_record_decision :: "decision_record \<Rightarrow> decision_context \<Rightarrow> decision_context" where
  "ctx_record_decision r c = c\<lparr>dc_history := dc_history c @ [r]\<rparr>"

lemma metadata_round_with [simp]: "metadata_round (with_reflection_round r c) = Some r"
proof -
  have "unat r < 2 ^ LENGTH(8)" by (rule unsigned_less)
  then show ?thesis by (simp add: metadata_round_def with_reflection_round_def with_metadata_def update_conv')
qed

lemma with_reflection_round_frame [simp]:
  "dc_situation (with_reflection_round r c) = dc_situation c"
  "dc_history (with_reflection_round r c) = dc_history c"
  by (simp_all add: with_reflection_round_def with_metadata_def)

text \<open>Metadata set to a round is read back as that round.\<close>

lemma ctx_reflection_round_with [simp]: "ctx_reflection_round (with_reflection_round r c) = r"
  by (simp add: ctx_reflection_round_def)

subsection \<open>Conditions\<close>

datatype condition =
    CondSituationType string
  | CondProjectKeyword string
  | CondReflectionRounds u8 u8
  | CondConfidenceBelow f64
  | CondTimeSinceLastAction u64 "u64 option"
  | CondCustom string "string hashmap"

datatype condition_expr =
    CondSingle condition
  | CondAnd "condition_expr list"
  | CondOr "condition_expr list"
  | CondNot condition_expr

type_synonym evaluator_registry = "(string \<times> (decision_context \<Rightarrow> string hashmap \<Rightarrow> bool)) list"

definition registry_evaluate ::
    "evaluator_registry \<Rightarrow> string \<Rightarrow> decision_context \<Rightarrow> string hashmap \<Rightarrow> bool" where
  "registry_evaluate reg n c ps = (case map_of reg n of Some e \<Rightarrow> e c ps | None \<Rightarrow> False)"

fun condition_holds :: "evaluator_registry \<Rightarrow> decision_context \<Rightarrow> condition \<Rightarrow> bool" where
  "condition_holds reg c (CondSituationType t) = (ctx_situation_name c = t)"
| "condition_holds reg c (CondProjectKeyword k) = contains_keyword (dc_rules c) k"
| "condition_holds reg c (CondReflectionRounds lo hi) =
     (lo \<le> ctx_reflection_round c \<and> ctx_reflection_round c \<le> hi)"
| "condition_holds reg c (CondConfidenceBelow _) = False"
| "condition_holds reg c (CondTimeSinceLastAction _ _) = False"
| "condition_holds reg c (CondCustom n ps) = registry_evaluate reg n c ps"

fun expr_holds :: "evaluator_registry \<Rightarrow> decision_context \<Rightarrow> condition_expr \<Rightarrow> bool" where
  "expr_holds reg c (CondSingle k) = condition_holds reg c k"
| "expr_holds reg c (CondAnd es) = list_all (expr_holds reg c) es"
| "expr_holds reg c (CondOr es) = list_ex (expr_holds reg c) es"
| "expr_holds reg c (CondNot e) = (\<not> expr_holds reg c e)"

end
