(* ===== verification/Rule_Engine.thy ===== *)
theory Rule_Engine
  imports Decision_Context
begin

text \<open>
  \<open>decision/src/engine/rule_engine.rs\<close>: the engine that decides by rules, the first tier of the tiered
  engine. Building \<open>prepare_task_start\<close> classifies a task, so it takes the clock and the order of that
  hash map.
\<close>

subsection \<open>Rules\<close>

datatype rule_priority = PriorityLow | PriorityMedium | PriorityHigh | PriorityCritical

fun priority_rank :: "rule_priority \<Rightarrow> nat" where
  "priority_rank PriorityLow = 0"
| "priority_rank PriorityMedium = 1"
| "priority_rank PriorityHigh = 2"
| "priority_rank PriorityCritical = 3"

lemma priority_rank_inj [simp]: "priority_rank p = priority_rank q \<longleftrightarrow> p = q"
  by (cases p; cases q) auto

instantiation rule_priority :: linorder
begin

definition less_eq_rule_priority :: "rule_priority \<Rightarrow> rule_priority \<Rightarrow> bool" where
  "less_eq_rule_priority p q \<longleftrightarrow> priority_rank p \<le> priority_rank q"

definition less_rule_priority :: "rule_priority \<Rightarrow> rule_priority \<Rightarrow> bool" where
  "less_rule_priority p q \<longleftrightarrow> priority_rank p < priority_rank q"

instance
  by standard (auto simp: less_eq_rule_priority_def less_rule_priority_def)

end

record action_spec =
  spec_type :: string
  spec_params :: "string hashmap"

definition spec_new :: "string \<Rightarrow> action_spec" where
  "spec_new t = \<lparr>spec_type = t, spec_params = []\<rparr>"

definition spec_param :: "action_spec \<Rightarrow> string \<Rightarrow> string \<Rightarrow> string" where
  "spec_param s k d = or_else (map_of (spec_params s) k) d"

type_synonym task_clock = "(task_type \<times> nat) hash_order \<times> instant"

definition build_action :: "task_clock \<Rightarrow> action_spec \<Rightarrow> builtin_action option" where
  "build_action tc s =
     (let t = spec_type s; p = spec_param s
      in if t = ''select_first'' then Some SelectFirst
         else if t = ''select_option'' then Some (SelectOption (p ''option_id'' []) (p ''reason'' []))
         else if t = ''reflect'' then Some (Reflect (p ''prompt'' []))
         else if t = ''retry'' then Some (Retry ''retry'' 1000 False)
         else if t = ''confirm_completion'' then Some (ConfirmCompletion False None)
         else if t = ''continue'' then Some (ContinueWith (p ''instruction'' []) [])
         else if t = ''custom_instruction'' then Some (CustomInstruction (p ''instruction'' []))
         else if t = ''continue_all_tasks'' then
           Some (ContinueAllTasks (p ''instruction'' ''continue finish all tasks''))
         else if t = ''stop_if_complete'' then Some (StopIfComplete (p ''reason'' ''All tasks complete''))
         else if t = ''create_task_branch'' then
           Some (CreateTaskBranch (p ''branch_name'' []) (p ''base_branch'' ''main'') None)
         else if t = ''rebase_to_main'' then Some (RebaseTaskToMain (p ''base_branch'' ''main''))
         else if t = ''prepare_task_start'' then
           Some (PrepareTaskStart
             (task_metadata_new (fst tc) (snd tc) (p ''task_id'' ''task-001'') (p ''task_description'' [])) [] None)
         else None)"

record decision_rule =
  ru_name :: string
  ru_condition :: condition_expr
  ru_actions :: "action_spec list"
  ru_priority :: rule_priority

definition situation_rule :: "string \<Rightarrow> string \<Rightarrow> string \<Rightarrow> rule_priority \<Rightarrow> decision_rule" where
  "situation_rule n t a p =
     \<lparr>ru_name = n, ru_condition = CondSingle (CondSituationType t), ru_actions = [spec_new a], ru_priority = p\<rparr>"

definition completion_rule :: "string \<Rightarrow> u8 \<Rightarrow> u8 \<Rightarrow> string \<Rightarrow> decision_rule" where
  "completion_rule n lo hi a =
     \<lparr>ru_name = n,
      ru_condition = CondAnd [CondSingle (CondSituationType ''claims_completion''),
        CondSingle (CondReflectionRounds lo hi)],
      ru_actions = [spec_new a], ru_priority = PriorityHigh\<rparr>"

definition builtin_rules :: "decision_rule list" where
  "builtin_rules =
     [situation_rule ''approve-first'' ''waiting_for_choice'' ''select_first'' PriorityMedium,
      completion_rule ''reflect-first'' 0 1 ''reflect'',
      completion_rule ''confirm-when-max-reflections'' 2 10 ''confirm_completion'',
      situation_rule ''retry-error'' ''error'' ''retry'' PriorityMedium,
      situation_rule ''retry-rate-limit'' ''rate_limit_recovery'' ''retry'' PriorityMedium,
      situation_rule ''continue-on-idle'' ''agent_idle'' ''continue_all_tasks'' PriorityMedium,
      situation_rule ''prepare-task-start'' ''task_starting'' ''prepare_task_start'' PriorityHigh]"

subsection \<open>Engine\<close>

record rule_engine =
  re_rules :: "decision_rule list"
  re_defaults :: "decision_rule list"
  re_evaluators :: evaluator_registry

definition rule_engine_new :: rule_engine where
  "rule_engine_new = \<lparr>re_rules = [], re_defaults = builtin_rules, re_evaluators = []\<rparr>"

definition rule_engine_with :: "decision_rule list \<Rightarrow> rule_engine" where
  "rule_engine_with rs = rule_engine_new\<lparr>re_rules := rs\<rparr>"

fun selection_key :: "rule_priority \<Rightarrow> nat" where
  "selection_key PriorityCritical = 0"
| "selection_key PriorityHigh = 1"
| "selection_key PriorityMedium = 2"
| "selection_key PriorityLow = 3"

definition rule_matches :: "rule_engine \<Rightarrow> decision_context \<Rightarrow> decision_rule \<Rightarrow> bool" where
  "rule_matches e c r = expr_holds (re_evaluators e) c (ru_condition r)"

definition find_matching_rule :: "rule_engine \<Rightarrow> decision_context \<Rightarrow> decision_rule option" where
  "find_matching_rule e c =
     max_by_key (\<lambda>r. selection_key (ru_priority r)) (filter (rule_matches e c) (re_rules e @ re_defaults e))"

definition f64_09 :: f64 where
  "f64_09 = 0x3FECCCCCCCCCCCCD"

definition rule_decide :: "action_codec \<Rightarrow> task_clock \<Rightarrow> rule_engine \<Rightarrow> decision_context \<Rightarrow> decision_output" where
  "rule_decide J tc e c =
     (case find_matching_rule e c of
        Some r \<Rightarrow>
          let as = List.map_filter (build_action tc) (ru_actions r)
          in (output_new (map (boxed J) as)
               (''Rule '' @ [CHR 0x27] @ ru_name r @ [CHR 0x27] @ '' matched for situation '' @ [CHR 0x27] @
                ctx_situation_name c @ [CHR 0x27] @ ''. Condition satisfied, executing action: '' @
                (case as of [] \<Rightarrow> ''unknown'' | a # _ \<Rightarrow> builtin_name a)))\<lparr>do_confidence := f64_09\<rparr>
      | None \<Rightarrow>
          (output_new [boxed J (CustomInstruction ''Continue with current task'')]
            (''No rule matched for situation '' @ [CHR 0x27] @ ctx_situation_name c @ [CHR 0x27] @
             '', using default action''))\<lparr>do_confidence := f64_05\<rparr>)"

subsection \<open>Which rule decides\<close>

lemma selection_key_le: "selection_key p \<le> selection_key q \<longleftrightarrow> q \<le> p"
  by (cases p; cases q) (simp_all add: less_eq_rule_priority_def)

lemma find_matching_rule_some:
  "find_matching_rule e c = Some r \<Longrightarrow>
     rule_matches e c r \<and> r \<in> set (re_rules e @ re_defaults e) \<and>
     (\<forall>r'\<in>set (re_rules e @ re_defaults e). rule_matches e c r' \<longrightarrow> ru_priority r \<le> ru_priority r')"
  unfolding find_matching_rule_def selection_key_le [symmetric]
  by (auto dest: max_by_key_mem max_by_key_max)

text \<open>C1: Of the rules that match, custom or builtin, the one with the lowest priority decides, and the
  last of these in a tie: a rule of priority \<open>Critical\<close> decides only when nothing else matches. The
  comment announces the order \<open>Critical > High > Medium > Low\<close>.\<close>

theorem lowest_priority_rule_decides:
  assumes "find_matching_rule e c = Some r"
  shows "rule_matches e c r \<and>
    list_all (\<lambda>r'. rule_matches e c r' \<longrightarrow> ru_priority r \<le> ru_priority r') (re_rules e @ re_defaults e)"
  using find_matching_rule_some [OF assms] by (auto simp: list_all_iff)

definition sample_choice :: decision_context where
  "sample_choice = context_new
     (situation_of (\<lambda>_. []) sample_chrono 0 (WaitingForChoice [choice_new ''A'' ''rm -rf''] None False)) ''agent_001''"

definition escalate_rule :: decision_rule where
  "escalate_rule = situation_rule ''never-approve'' ''waiting_for_choice'' ''stop_if_complete'' PriorityCritical"

definition approve_first :: decision_rule where
  "approve_first = situation_rule ''approve-first'' ''waiting_for_choice'' ''select_first'' PriorityMedium"

definition strict_engine :: rule_engine where
  "strict_engine = rule_engine_with [escalate_rule]"

theorem lowest_priority_rule_decides_witness:
  "rule_matches strict_engine sample_choice escalate_rule \<and> ru_priority escalate_rule = PriorityCritical \<and>
   rule_matches strict_engine sample_choice approve_first \<and>
   list_all (\<lambda>r'. rule_matches strict_engine sample_choice r' \<longrightarrow>
       ru_priority approve_first \<le> ru_priority r') (re_rules strict_engine @ re_defaults strict_engine)"
proof -
  have find: "find_matching_rule strict_engine sample_choice = Some approve_first"
    by (simp add: find_matching_rule_def rule_matches_def strict_engine_def rule_engine_with_def rule_engine_new_def
      builtin_rules_def situation_rule_def completion_rule_def escalate_rule_def sample_choice_def
      ctx_situation_name_def context_new_def situation_new_def approve_first_def)
  have "rule_matches strict_engine sample_choice escalate_rule" "ru_priority escalate_rule = PriorityCritical"
    by (simp_all add: rule_matches_def strict_engine_def rule_engine_with_def rule_engine_new_def situation_rule_def
      escalate_rule_def sample_choice_def ctx_situation_name_def context_new_def situation_new_def)
  then show ?thesis using lowest_priority_rule_decides [OF find] by blast
qed

text \<open>Without custom rules the engine knows seven situations; it always returns at least one action.\<close>

lemma builtin_decides:
  "do_actions (rule_decide J tc rule_engine_new c) \<noteq> []"
proof (cases "find_matching_rule rule_engine_new c")
  case (Some r)
  then have "r \<in> set builtin_rules"
    using find_matching_rule_some [OF Some] by (simp add: rule_engine_new_def)
  moreover have "\<forall>r\<in>set builtin_rules. List.map_filter (build_action tc) (ru_actions r) \<noteq> []"
    by (simp add: builtin_rules_def situation_rule_def completion_rule_def build_action_def spec_new_def
      map_filter_simps Let_def)
  ultimately show ?thesis using Some by (simp add: rule_decide_def output_new_def Let_def)
qed (simp add: rule_decide_def output_new_def)

end
