(* ===== verification/Llm_Engine.thy ===== *)
theory Llm_Engine
  imports Rule_Engine
begin

text \<open>
  \<open>decision/src/engine/llm_engine.rs\<close>, \<open>llm_caller.rs\<close> and \<open>cli_engine.rs\<close>: the engine that asks a
  language model and the one that asks on the command line. The model behind an \<open>LLMCaller\<close>, the
  clock, fresh ids and the formatting of floats are the parameter \<open>llm_env\<close>; every attempt of a call
  is numbered, and the answer of the caller may depend on the number, so any behaviour of a model over time
  is covered. An optional \<open>PromptBuilder\<close> is the function from the context to the prompt.
\<close>

subsection \<open>State\<close>

record llm_config =
  lc_timeout :: u64
  lc_max_retries :: "32 word"
  lc_temperature :: f64
  lc_max_tokens :: "32 word"
  lc_persist :: bool

definition llm_config_default :: llm_config where
  "llm_config_default = \<lparr>lc_timeout = 30, lc_max_retries = 2, lc_temperature = 0x3FD3333333333333,
     lc_max_tokens = 500, lc_persist = True\<rparr>"

record llm_record =
  lr_id :: string
  lr_situation :: situation_type
  lr_action :: action_type
  lr_reasoning :: string
  lr_confidence :: f64
  lr_timestamp :: string

type_synonym prompt_builder =
  "decision_context \<Rightarrow> action_registry \<Rightarrow> u8 \<Rightarrow> (string \<times> string \<times> f64) list \<Rightarrow> string"

record llm_env =
  lv_healthy :: "nat \<Rightarrow> bool"
  lv_call :: "nat \<Rightarrow> string \<Rightarrow> u64 \<Rightarrow> decision_error + string"
  lv_caller_id :: string
  lv_uuid :: "nat \<Rightarrow> string"
  lv_now :: "nat \<Rightarrow> string"
  lv_rfc3339 :: "instant \<Rightarrow> string"
  lv_parse_f64 :: "string \<Rightarrow> f64 option"
  lv_fmt2 :: "f64 \<Rightarrow> string"
  lv_tools_order :: "(string \<times> nat) hash_order"
  lv_rules_order :: "(string \<times> string) hash_order"
  lv_codec :: action_codec

text \<open>\<open>le_caller\<close> says whether a caller is set; without one the built-in mock answers.\<close>

record llm_engine =
  le_provider :: provider_kind
  le_session :: "string option"
  le_config :: llm_config
  le_history :: "llm_record list"
  le_healthy :: bool
  le_caller :: bool
  le_builder :: "prompt_builder option"
  le_round :: u8
  le_max :: u8

definition llm_engine_new :: "provider_kind \<Rightarrow> llm_config \<Rightarrow> llm_engine" where
  "llm_engine_new p cfg =
     \<lparr>le_provider = p, le_session = None, le_config = cfg, le_history = [], le_healthy = True, le_caller = False,
      le_builder = None, le_round = 0, le_max = 2\<rparr>"

definition set_llm_caller :: "llm_engine \<Rightarrow> llm_engine" where
  "set_llm_caller e = e\<lparr>le_caller := True\<rparr>"

definition increment_round :: "llm_engine \<Rightarrow> llm_engine" where
  "increment_round e = e\<lparr>le_round := le_round e + 1\<rparr>"

definition sync_round :: "decision_context \<Rightarrow> llm_engine \<Rightarrow> llm_engine" where
  "sync_round c e = (case metadata_round c of Some r \<Rightarrow> e\<lparr>le_round := r\<rparr> | None \<Rightarrow> e)"

definition llm_reset :: "llm_engine \<Rightarrow> llm_engine" where
  "llm_reset e = e\<lparr>le_history := [], le_session := None, le_healthy := True, le_round := 0\<rparr>"

subsection \<open>Prompt\<close>

definition recent_history :: "llm_env \<Rightarrow> llm_engine \<Rightarrow> string" where
  "recent_history V e =
     (if le_history e = [] then ''No previous decisions.''
      else str_join nl (map (\<lambda>r. ''- '' @ st_name (lr_situation r) @ '' -> '' @ action_name (lr_action r) @
          '' (confidence: '' @ lv_fmt2 V (lr_confidence r) @ '')'') (take 5 (rev (le_history e)))))"

definition action_formats :: "action_registry \<Rightarrow> decision_situation \<Rightarrow> string list" where
  "action_formats reg s =
     List.map_filter (\<lambda>t. map_option act_prompt_format (registry_get reg t)) (sit_available_actions s)"

definition prompt_legacy :: "llm_env \<Rightarrow> action_registry \<Rightarrow> decision_context \<Rightarrow> llm_engine \<Rightarrow> string" where
  "prompt_legacy V reg c e =
     ''You are a decision helper for a development agent.'' @ nl @ nl @
     ''## Current Situation'' @ nl @ sit_prompt_text (dc_situation c) @ nl @ nl @
     ''## Available Actions'' @ nl @ str_join (nl @ nl @ ''---'' @ nl @ nl) (action_formats reg (dc_situation c)) @
     nl @ nl @
     ''## Project Rules'' @ nl @ rules_summary (lv_rules_order V) (dc_rules c) @ nl @ nl @
     ''## Current Task'' @ nl @
     (case dc_task c of Some t \<Rightarrow> ''Task ID: '' @ t | None \<Rightarrow> ''No task assigned'') @ nl @ nl @
     ''## Running Context Summary'' @ nl @ generate_summary (lv_tools_order V) (dc_running c) @ nl @ nl @
     ''## Decision History (Recent)'' @ nl @ recent_history V e @ nl @ nl @
     ''## Instructions'' @ nl @ ''Select exactly one action from the Available Actions above.'' @ nl @ nl @
     ''## Output Format'' @ nl @ ''ACTION: <action_type>'' @ nl @ ''PARAMETERS: <json parameters if applicable>'' @ nl @
     ''REASONING: <brief explanation>'' @ nl @ ''CONFIDENCE: <number between 0.0 and 1.0>'' @ nl @ nl @
     ''Respond in this exact format.''"

definition llm_prompt :: "llm_env \<Rightarrow> action_registry \<Rightarrow> decision_context \<Rightarrow> llm_engine \<Rightarrow> string" where
  "llm_prompt V reg c e =
     (case le_builder e of
        Some b \<Rightarrow> b c reg (le_round e) (map (\<lambda>r. (st_name (lr_situation r), action_name (lr_action r), lr_confidence r))
          (take 5 (rev (le_history e))))
      | None \<Rightarrow> prompt_legacy V reg c e)"

subsection \<open>Reading the answer\<close>

definition extract_field :: "string \<Rightarrow> string \<Rightarrow> string option" where
  "extract_field resp field =
     (let pre = field @ '':''
      in map_option (\<lambda>l. trim (drop (length pre) (trim l))) (find (\<lambda>l. starts_with (trim l) pre) (str_lines resp)))"

definition f64_one :: f64 where
  "f64_one = 0x3FF0000000000000"

definition clamp_unit :: "f64 \<Rightarrow> f64" where
  "clamp_unit x = (if f64_less x 0 then 0 else if f64_less f64_one x then f64_one else x)"

definition extract_confidence :: "llm_env \<Rightarrow> string \<Rightarrow> f64" where
  "extract_confidence V resp =
     or_else (map_option clamp_unit (Option.bind (extract_field resp ''CONFIDENCE'') (lv_parse_f64 V))) f64_08"

definition extract_reasoning :: "string \<Rightarrow> string" where
  "extract_reasoning resp =
     or_else (extract_field resp ''REASONING'')
       (case find (\<lambda>t. \<not> starts_with t ''ACTION:'' \<and> \<not> starts_with t ''PARAMETERS:'' \<and>
            \<not> starts_with t ''CONFIDENCE:'' \<and> 10 < length t) (map trim (str_lines resp)) of
          Some t \<Rightarrow> t
        | None \<Rightarrow> if 100 < length resp then take 100 resp @ ''...[truncated]'' else resp)"

definition parse_structured :: "action_registry \<Rightarrow> string \<Rightarrow> decision_action list" where
  "parse_structured reg resp =
     (case extract_field resp ''ACTION'' of
        None \<Rightarrow> []
      | Some n \<Rightarrow>
          let t = ActionType (to_lowercase n)
          in case registry_deserialize reg t (or_else (extract_field resp ''PARAMETERS'') []) of
               Some a \<Rightarrow> [a]
             | None \<Rightarrow> (case registry_parse reg t resp of Some a \<Rightarrow> [a] | None \<Rightarrow> []))"

definition parse_custom :: "action_codec \<Rightarrow> string \<Rightarrow> decision_error + decision_action list" where
  "parse_custom J resp =
     (let t = trim (str_join nl (take 3 (str_lines resp)))
      in if 10 < length t then Inr [boxed J (CustomInstruction t)] else Inl (ParseError ''Could not parse response''))"

definition parse_available :: "action_registry \<Rightarrow> decision_situation \<Rightarrow> string \<Rightarrow> decision_action option" where
  "parse_available reg s resp = first_present (map (\<lambda>t. registry_parse reg t resp) (sit_available_actions s))"

definition llm_parse ::
    "action_codec \<Rightarrow> action_registry \<Rightarrow> decision_situation \<Rightarrow> string \<Rightarrow> decision_error + decision_action list" where
  "llm_parse J reg s resp =
     (let st = parse_structured reg resp
      in if st \<noteq> [] then Inr st
         else case parse_available reg s resp of Some a \<Rightarrow> Inr [a] | None \<Rightarrow> parse_custom J resp)"

subsection \<open>Calling the model\<close>

definition mock_call :: "string \<Rightarrow> string" where
  "mock_call p =
     (if str_contains p ''waiting_for_choice'' \<or> str_contains p ''Waiting for choice'' then
        ''ACTION: select_option'' @ nl @ ''PARAMETERS: {'' @ [CHR 0x22] @ ''option_id'' @ [CHR 0x22] @ '': '' @
        [CHR 0x22] @ ''A'' @ [CHR 0x22] @ ''}'' @ nl @ ''REASONING: First option is typically safest'' @ nl @
        ''CONFIDENCE: 0.85''
      else if str_contains p ''claims_completion'' \<or> str_contains p ''Claims completion'' then
        ''ACTION: confirm_completion'' @ nl @ ''PARAMETERS: {}'' @ nl @
        ''REASONING: Task appears complete based on output'' @ nl @ ''CONFIDENCE: 0.75''
      else if str_contains p ''error'' \<or> str_contains p ''Error'' then
        ''ACTION: retry'' @ nl @ ''PARAMETERS: {}'' @ nl @ ''REASONING: Retry may resolve transient error'' @ nl @
        ''CONFIDENCE: 0.70''
      else
        ''ACTION: reflect'' @ nl @ ''PARAMETERS: {}'' @ nl @ ''REASONING: Need to analyze situation further'' @ nl @
        ''CONFIDENCE: 0.60'')"

definition call_llm :: "llm_env \<Rightarrow> string \<Rightarrow> llm_engine \<Rightarrow> nat \<Rightarrow> decision_error + string" where
  "call_llm V p e k =
     (if le_caller e then
        if \<not> lv_healthy V k then Inl (EngineError (''LLM caller '' @ lv_caller_id V @ '' is not healthy''))
        else lv_call V k p (lc_timeout (le_config e) * 1000)
      else Inr (mock_call p))"

text \<open>The loop with the number of attempts left; \<open>k\<close> numbers the attempts.\<close>

fun retry_calls :: "llm_env \<Rightarrow> string \<Rightarrow> llm_engine \<Rightarrow> nat \<Rightarrow> nat \<Rightarrow> (decision_error + string) \<times> llm_engine \<times> nat" where
  "retry_calls V p e 0 k = (Inl (EngineError ''Max retries exceeded''), e\<lparr>le_healthy := False\<rparr>, k)"
| "retry_calls V p e (Suc n) k =
     (case call_llm V p e k of
        Inr resp \<Rightarrow> (Inr resp, e, Suc k)
      | Inl err \<Rightarrow> if n = 0 then (Inl err, e\<lparr>le_healthy := False\<rparr>, Suc k) else retry_calls V p e n (Suc k))"

definition call_with_retry ::
    "llm_env \<Rightarrow> string \<Rightarrow> llm_engine \<Rightarrow> nat \<Rightarrow> (decision_error + string) \<times> llm_engine \<times> nat" where
  "call_with_retry V p e k = retry_calls V p e (unat (lc_max_retries (le_config e) + 1)) k"

subsection \<open>Deciding\<close>

definition llm_record_of :: "llm_env \<Rightarrow> decision_record \<Rightarrow> llm_record" where
  "llm_record_of V r =
     \<lparr>lr_id = dr_id r, lr_situation = dr_situation r,
      lr_action = (case dr_actions r of [] \<Rightarrow> ActionType ''unknown'' | a # _ \<Rightarrow> a),
      lr_reasoning = dr_reasoning r, lr_confidence = dr_confidence r, lr_timestamp = lv_rfc3339 V (dr_timestamp r)\<rparr>"

definition merge_history :: "llm_env \<Rightarrow> decision_context \<Rightarrow> llm_engine \<Rightarrow> llm_engine" where
  "merge_history V c e =
     fold (\<lambda>r e. if list_ex (\<lambda>h. lr_id h = dr_id r) (le_history e) then e
                 else e\<lparr>le_history := le_history e @ [llm_record_of V r]\<rparr>) (dc_history c) e"

definition first_round :: "decision_context \<Rightarrow> llm_engine \<Rightarrow> llm_engine" where
  "first_round c e = (if ctx_situation_name c = ''claims_completion'' \<and> le_round e = 0 then e\<lparr>le_round := 1\<rparr> else e)"

definition human_review :: "u8 \<Rightarrow> builtin_action" where
  "human_review n = RequestHuman (''Maximum reflection rounds ('' @ nat_to_string (unat n) @
     '') reached. Human review required.'')"

definition manage_round ::
    "llm_env \<Rightarrow> decision_context \<Rightarrow> decision_action list \<Rightarrow> llm_engine \<Rightarrow> decision_action list \<times> llm_engine" where
  "manage_round V c as e =
     (let n = action_name (act_type (hd as));
          (as1, e1) =
            (if n = ''reflect'' \<and> ctx_situation_name c = ''claims_completion'' then
               if le_max e \<le> le_round e then ([boxed (lv_codec V) (human_review (le_max e))], e)
               else (as, increment_round e)
             else (as, e));
          e2 = (if n = ''confirm_completion'' \<or> n = ''continue'' then e1\<lparr>le_round := 0\<rparr> else e1)
      in (as1, e2))"

definition llm_decide ::
    "llm_env \<Rightarrow> action_registry \<Rightarrow> decision_context \<Rightarrow> llm_engine \<Rightarrow> nat \<Rightarrow>
     (decision_error + decision_output) \<times> llm_engine \<times> nat" where
  "llm_decide V reg c e0 k0 =
     (let e1 = first_round c (merge_history V c (sync_round c e0))
      in case call_with_retry V (llm_prompt V reg c e1) e1 k0 of
           (Inl err, e2, k) \<Rightarrow> (Inl err, e2, k)
         | (Inr resp, e2, k) \<Rightarrow>
             (case llm_parse (lv_codec V) reg (dc_situation c) resp of
                Inl err \<Rightarrow> (Inl err, e2, k)
              | Inr as \<Rightarrow>
                  if as = [] then (Inl (ParseError ''Parsed response produced no actions''), e2, k)
                  else
                    let rs = extract_reasoning resp; cf = extract_confidence V resp;
                        (as', e3) = manage_round V c as e2;
                        e4 = e3\<lparr>le_history := le_history e3 @
                          [\<lparr>lr_id = ''dec-'' @ lv_uuid V k, lr_situation = sit_type (dc_situation c),
                            lr_action = act_type (hd as'), lr_reasoning = rs, lr_confidence = cf,
                            lr_timestamp = lv_now V k\<rparr>]\<rparr>
                    in (Inr ((output_new as' rs)\<lparr>do_confidence := cf, do_reflection_round := Some (le_round e4)\<rparr>),
                        e4, k)))"

subsection \<open>The command line\<close>

definition cli_input :: string where
  "cli_input = ''1''"

definition parse_cli_input ::
    "action_codec \<Rightarrow> action_registry \<Rightarrow> decision_situation \<Rightarrow> string \<Rightarrow> decision_error + decision_action list" where
  "parse_cli_input J reg s inp =
     (let t = to_lowercase (trim inp); av = sit_available_actions s
      in if t = ''c'' \<or> starts_with t ''c:'' then
           Inr [boxed J (CustomInstruction
             (if starts_with t ''c:'' then trim (drop 2 t) else ''Custom instruction provided via CLI''))]
         else if t = ''s'' then Inr []
         else if t = ''h'' then Inr [boxed J (RequestHuman ''Requested via CLI'')]
         else
           case (case parse_unsigned 64 t of
                   Some n \<Rightarrow> if 0 < n \<and> n \<le> length av then registry_get reg (av ! (n - 1)) else None
                 | None \<Rightarrow> None) of
             Some a \<Rightarrow> Inr [a]
           | None \<Rightarrow>
               (case parse_available reg s inp of
                  Some a \<Rightarrow> Inr [a]
                | None \<Rightarrow> Inl (ParseError (''Invalid CLI input: '' @ inp))))"

definition cli_decide ::
    "action_codec \<Rightarrow> action_registry \<Rightarrow> decision_context \<Rightarrow> decision_error + decision_output" where
  "cli_decide J reg c =
     result_map (\<lambda>as. (output_new as (''CLI input: '' @ cli_input))\<lparr>do_confidence := (if as = [] then 0 else f64_one)\<rparr>)
       (parse_cli_input J reg (dc_situation c) cli_input)"


subsection \<open>Retries\<close>

text \<open>The reference: ask a number of times, take the first answer, else the last error.\<close>

definition first_answer ::
    "llm_env \<Rightarrow> string \<Rightarrow> llm_engine \<Rightarrow> nat \<Rightarrow> nat \<Rightarrow> (decision_error + string) \<times> llm_engine \<times> nat" where
  "first_answer V p e n k =
     (case find (\<lambda>j. is_ok (call_llm V p e j)) [k..<k + n] of
        Some j \<Rightarrow> (call_llm V p e j, e, Suc j)
      | None \<Rightarrow>
          (if n = 0 then Inl (EngineError ''Max retries exceeded'') else call_llm V p e (k + n - 1),
           e\<lparr>le_healthy := False\<rparr>, k + n))"

lemma retry_calls_first: "retry_calls V p e n k = first_answer V p e n k"
proof (induction n arbitrary: k)
  case (Suc n)
  show ?case
  proof (cases "call_llm V p e k")
    case (Inl err)
    then show ?thesis
      using Suc.IH [of "Suc k"]
      by (cases n) (auto simp: first_answer_def upt_conv_Cons simp del: upt_Suc split: option.split)
  next
    case (Inr r)
    then show ?thesis by (simp add: first_answer_def upt_conv_Cons del: upt_Suc)
  qed
qed (simp add: first_answer_def)

text \<open>C1: A call with retries is the first answer among \<open>max_retries + 1\<close> attempts, and after as many
  errors the last error with the engine marked unhealthy. The number of attempts is computed in 32
  bits: the largest number of retries asks the model not at all.\<close>

theorem retry_takes_first_answer:
  "call_with_retry V p e k = first_answer V p e (unat (lc_max_retries (le_config e) + 1)) k \<and>
   call_with_retry V p (e\<lparr>le_config := c\<lparr>lc_max_retries := - 1\<rparr>\<rparr>) k =
     (Inl (EngineError ''Max retries exceeded''), e\<lparr>le_config := c\<lparr>lc_max_retries := - 1\<rparr>, le_healthy := False\<rparr>, k)"
  by (simp add: call_with_retry_def retry_calls_first first_answer_def)

subsection \<open>Reflection\<close>

lemma retry_calls_engine:
  "retry_calls V p e n k = (r, e', k') \<Longrightarrow> le_round e' = le_round e \<and> le_max e' = le_max e"
  by (induction n arbitrary: k) (auto split: sum.splits if_splits)

lemma merge_history_frame [simp]:
  "le_round (merge_history V c e) = le_round e" "le_max (merge_history V c e) = le_max e"
proof -
  have "le_round (fold (\<lambda>r e. if list_ex (\<lambda>h. lr_id h = dr_id r) (le_history e) then e
                 else e\<lparr>le_history := le_history e @ [llm_record_of V r]\<rparr>) rs e) = le_round e \<and>
        le_max (fold (\<lambda>r e. if list_ex (\<lambda>h. lr_id h = dr_id r) (le_history e) then e
                 else e\<lparr>le_history := le_history e @ [llm_record_of V r]\<rparr>) rs e) = le_max e" for rs
    by (induction rs arbitrary: e) auto
  then show "le_round (merge_history V c e) = le_round e" "le_max (merge_history V c e) = le_max e"
    by (simp_all add: merge_history_def)
qed

definition reflects :: "decision_output \<Rightarrow> bool" where
  "reflects out \<longleftrightarrow> first_action_type out = Some (ActionType ''reflect'')"

lemma manage_round_reflects:
  assumes "manage_round V c as e = (as', e')" "ctx_situation_name c = ''claims_completion''"
    and "act_type (hd as') = ActionType ''reflect''"
  shows "le_round e < le_max e \<and> le_round e' = le_round e + 1 \<and> le_max e' = le_max e"
  using assms
  by (auto simp: manage_round_def increment_round_def human_review_def not_le Let_def split: if_splits)

lemma manage_round_max [simp]: "manage_round V c as e = (as', e') \<Longrightarrow> le_max e' = le_max e"
  by (auto simp: manage_round_def increment_round_def Let_def split: if_splits)

lemma llm_decide_reflects:
  assumes d: "llm_decide V reg c e k = (Inr out, e', k')"
    and s: "ctx_situation_name c = ''claims_completion''" and r: "reflects out"
  shows "le_round e' \<le> le_max e' \<and> le_max e' = le_max e \<and>
    unat (le_round e') = Suc (max 1 (unat (or_else (metadata_round c) (le_round e))))"
proof -
  let ?e = "first_round c (merge_history V c (sync_round c e))"
  obtain resp e2 k2 where call: "call_with_retry V (llm_prompt V reg c ?e) ?e k = (Inr resp, e2, k2)"
    using d by (auto simp: llm_decide_def Let_def split: prod.splits sum.splits)
  obtain as e3 where man: "manage_round V c (the (case llm_parse (lv_codec V) reg (dc_situation c) resp of
      Inl _ \<Rightarrow> None | Inr as \<Rightarrow> Some as)) e2 = (as, e3)"
    by fastforce
  have out: "first_action_type out = (case as of [] \<Rightarrow> None | a # _ \<Rightarrow> Some (act_type a))"
      "le_round e' = le_round e3" "le_max e' = le_max e3"
    using d call man
    by (auto simp: llm_decide_def Let_def first_action_type_def output_new_def split: sum.splits if_splits)
  then have "act_type (hd as) = ActionType ''reflect''"
    using r by (auto simp: reflects_def split: list.splits)
  from manage_round_reflects [OF man s this]
  have m: "le_round e2 < le_max e2" "le_round e3 = le_round e2 + 1" "le_max e3 = le_max e2" by auto
  have e2: "le_round e2 = le_round ?e" "le_max e2 = le_max ?e"
    using retry_calls_engine call by (auto simp: call_with_retry_def)
  have first: "unat (le_round ?e) = max 1 (unat (or_else (metadata_round c) (le_round e)))" "le_max ?e = le_max e"
    using s by (auto simp: first_round_def sync_round_def max_def unat_eq_zero Suc_le_eq split: option.splits)
  have "unat (le_round e3) = Suc (unat (le_round e2))" "unat (le_round e3) \<le> unat (le_max e3)"
    using m unsigned_less [where 'a = nat, of "le_max e2"]
    by (simp_all add: word_less_nat_alt unat_word_ariths)
  then show ?thesis using out e2 first m by (simp add: word_le_nat_alt)
qed

text \<open>One engine deciding for several contexts in turn, with the outputs it returns.\<close>

fun decide_in_turn ::
    "llm_env \<Rightarrow> action_registry \<Rightarrow> decision_context list \<Rightarrow> llm_engine \<Rightarrow> nat \<Rightarrow>
     (decision_error + decision_output) list" where
  "decide_in_turn V reg [] e k = []"
| "decide_in_turn V reg (c # cs) e k =
     (case llm_decide V reg c e k of (r, e', k') \<Rightarrow> r # decide_in_turn V reg cs e' k')"

definition ok_reflects :: "decision_error + decision_output \<Rightarrow> bool" where
  "ok_reflects r = (case r of Inr out \<Rightarrow> reflects out | Inl _ \<Rightarrow> False)"

lemma decide_in_turn_bound:
  assumes "list_all (\<lambda>c. ctx_situation_name c = ''claims_completion'' \<and> metadata_round c = None) cs"
    and "list_all ok_reflects (decide_in_turn V reg cs e k)" and "cs \<noteq> []"
  shows "max 1 (unat (le_round e)) + length cs \<le> unat (le_max e)"
  using assms
proof (induction cs arbitrary: e k)
  case (Cons c cs)
  obtain out e' k' where d: "llm_decide V reg c e k = (Inr out, e', k')" and r: "reflects out"
    using Cons.prems(2) by (auto simp: ok_reflects_def split: prod.splits sum.splits)
  have a: "unat (le_round e') = Suc (max 1 (unat (le_round e)))" "unat (le_round e') \<le> unat (le_max e)" "le_max e' = le_max e"
    using llm_decide_reflects [OF d _ r] Cons.prems(1) by (auto simp: word_le_nat_alt)
  show ?case
  proof (cases "cs = []")
    case True
    then show ?thesis using a by simp
  next
    case False
    then show ?thesis using Cons.IH [of e' k'] Cons.prems a d by simp
  qed
qed simp

text \<open>C1: An engine whose caller does not set the round itself answers a claimed completion with a
  reflection fewer times in a row than its maximum; then it asks for a human. The first decision
  starts in round one, so of the maximum of two one reflection is left.\<close>

theorem reflections_bounded:
  assumes "list_all (\<lambda>c. ctx_situation_name c = ''claims_completion'' \<and> metadata_round c = None) cs"
    and "list_all ok_reflects (decide_in_turn V reg cs e k)" and "cs \<noteq> []"
  shows "length cs < unat (le_max e)"
  using decide_in_turn_bound [OF assms] by simp

definition reflecting_env :: llm_env where
  "reflecting_env = \<lparr>lv_healthy = \<lambda>_. True, lv_call = \<lambda>_ _ _. Inr ''ACTION: reflect'', lv_caller_id = ''c'',
     lv_uuid = \<lambda>_. ''0'', lv_now = \<lambda>_. ''t'', lv_rfc3339 = \<lambda>_. ''t'', lv_parse_f64 = \<lambda>_. None, lv_fmt2 = \<lambda>_. ''0.80'',
     lv_tools_order = id, lv_rules_order = id,
     lv_codec = \<lparr>ac_encode = builtin_prompt, ac_decode = \<lambda>n p. if n = ''reflect'' then Some (Reflect p) else None\<rparr>\<rparr>"

definition claim_context :: decision_context where
  "claim_context = context_new
     (situation_of (\<lambda>_. []) sample_chrono 0 (ClaimsCompletion ''done'' 0 2 f64_08)) ''agent_001''"

definition reflecting_engine :: llm_engine where
  "reflecting_engine = set_llm_caller (llm_engine_new Claude llm_config_default)
     \<lparr>le_builder := Some (\<lambda>_ _ _ _. [])\<rparr>"

lemma reflecting_parse:
  "parse_structured (builtin_registry (lv_codec reflecting_env)) ''ACTION: reflect'' =
     [boxed (lv_codec reflecting_env) (Reflect [])]"
proof -
  have "extract_field ''ACTION: reflect'' ''ACTION'' = Some ''reflect''"
       "extract_field ''ACTION: reflect'' ''PARAMETERS'' = None" "to_lowercase ''reflect'' = ''reflect''"
    by code_simp+
  then show ?thesis
    by (simp add: parse_structured_def builtin_deserialize default_actions_def reflecting_env_def)
qed

lemma reflecting_call:
  assumes "le_caller e" "le_config e = llm_config_default"
  shows "call_with_retry reflecting_env p e k = (Inr ''ACTION: reflect'', e, Suc k)"
proof -
  have "unat (lc_max_retries llm_config_default + 1) = Suc 2" by (simp add: llm_config_default_def)
  moreover have "call_llm reflecting_env p e k = Inr ''ACTION: reflect''"
    using assms by (simp add: call_llm_def reflecting_env_def)
  ultimately show ?thesis
    unfolding call_with_retry_def assms by (simp only: retry_calls.simps sum.case)
qed

lemma claim_context_facts:
  "ctx_situation_name claim_context = ''claims_completion''" "metadata_round claim_context = None"
  "dc_history claim_context = []"
  by (simp_all add: claim_context_def ctx_situation_name_def context_new_def situation_new_def metadata_round_def)

theorem reflections_bounded_witness:
  "list_all ok_reflects (decide_in_turn reflecting_env (builtin_registry (lv_codec reflecting_env)) [claim_context]
     reflecting_engine 0) \<and> length [claim_context] < unat (le_max reflecting_engine)"
proof -
  let ?V = reflecting_env and ?reg = "builtin_registry (lv_codec reflecting_env)"
  let ?e = "reflecting_engine\<lparr>le_round := 1\<rparr>"
  have eng: "le_caller reflecting_engine" "le_config reflecting_engine = llm_config_default"
    "le_round reflecting_engine = 0" "le_max reflecting_engine = 2"
    by (simp_all add: reflecting_engine_def set_llm_caller_def llm_engine_new_def)
  have first: "first_round claim_context (merge_history ?V claim_context (sync_round claim_context reflecting_engine)) = ?e"
    by (simp add: merge_history_def first_round_def sync_round_def claim_context_facts eng)
  have parse: "llm_parse (lv_codec ?V) ?reg s ''ACTION: reflect'' = Inr [boxed (lv_codec ?V) (Reflect [])]" for s
    by (simp add: llm_parse_def reflecting_parse)
  have two: "\<not> (2 :: u8) \<le> 1" by (simp add: word_le_nat_alt)
  have man: "manage_round ?V claim_context [boxed (lv_codec ?V) (Reflect [])] ?e =
      ([boxed (lv_codec ?V) (Reflect [])], ?e\<lparr>le_round := 2\<rparr>)"
    unfolding manage_round_def claim_context_facts boxed_type list.sel action_type.sel builtin_name.simps Let_def increment_round_def
    by (simp add: eng two split del: if_split)
  have "\<exists>out e' k'. llm_decide ?V ?reg claim_context reflecting_engine 0 = (Inr out, e', k') \<and> reflects out"
    unfolding llm_decide_def first Let_def
    by (simp add: reflecting_call eng parse man reflects_def first_action_type_def output_new_def)
  then have ok: "list_all ok_reflects (decide_in_turn ?V ?reg [claim_context] reflecting_engine 0)"
    by (auto simp: ok_reflects_def)
  have "length [claim_context] < unat (le_max reflecting_engine)"
    by (rule reflections_bounded [OF _ ok]) (simp_all add: claim_context_facts)
  then show ?thesis using ok by simp
qed

end
