(* ===== verification/Tiered_Engine.thy ===== *)
theory Tiered_Engine
  imports Llm_Engine
begin

text \<open>
  \<open>decision/src/engine/tiered_engine.rs\<close>: the engine that selects another by the tier of the situation
  and tries a fallback tier when the selected engine fails. The environment of the engines below it is
  the record \<open>tier_env\<close>; \<open>k\<close> numbers the calls of the language model and the fresh ids.
\<close>

subsection \<open>Tiers\<close>

datatype decision_tier = TierSimple | TierMedium | TierComplex | TierCritical

definition decision_tier_default :: decision_tier where
  "decision_tier_default = TierSimple"

fun tier_number :: "decision_tier \<Rightarrow> u8" where
  "tier_number TierSimple = 1"
| "tier_number TierMedium = 2"
| "tier_number TierComplex = 3"
| "tier_number TierCritical = 4"

definition tier_requires_human :: "decision_tier \<Rightarrow> bool" where
  "tier_requires_human t \<longleftrightarrow> t = TierCritical"

definition is_rate_limit_error :: "error_info \<Rightarrow> bool" where
  "is_rate_limit_error e =
     (let msg = to_lowercase (ei_message e); ty = to_lowercase (ei_type e)
      in str_contains ty ''429'' \<or> str_contains ty ''rate_limit'' \<or> str_contains ty ''rate limit'' \<or>
         str_contains msg ''429'' \<or> str_contains msg ''rate limit'' \<or> str_contains msg ''quota'')"

definition tier_of :: "decision_situation \<Rightarrow> decision_tier" where
  "tier_of s =
     (let n = st_name (sit_type s)
      in if sit_requires_human s then TierCritical
         else if n = ''error'' then
           (case sit_error_info s of
              Some e \<Rightarrow> if is_rate_limit_error e then TierSimple else TierComplex
            | None \<Rightarrow> TierComplex)
         else if n = ''partial_completion'' then TierComplex
         else if n = ''claims_completion'' then TierMedium
         else if n = ''waiting_for_choice'' \<or> n = ''agent_idle'' then TierSimple
         else TierMedium)"

subsection \<open>State\<close>

record tiered_config =
  tc_provider :: provider_kind
  tc_llm :: llm_config
  tc_use_cli :: bool
  tc_fallback :: decision_tier

definition tiered_config_default :: tiered_config where
  "tiered_config_default =
     \<lparr>tc_provider = Claude, tc_llm = llm_config_default, tc_use_cli = True, tc_fallback = TierMedium\<rparr>"

record tiered_record =
  td_id :: string
  td_situation :: situation_type
  td_tier :: decision_tier
  td_engine :: engine_type
  td_action :: string
  td_confidence :: f64
  td_timestamp :: string

record tiered_engine =
  te_config :: tiered_config
  te_rules :: rule_engine
  te_llm :: llm_engine
  te_cli :: bool
  te_history :: "tiered_record list"
  te_healthy :: bool

definition tiered_new :: "tiered_config \<Rightarrow> tiered_engine" where
  "tiered_new cfg = \<lparr>te_config = cfg, te_rules = rule_engine_new, te_llm = llm_engine_new (tc_provider cfg) (tc_llm cfg),
     te_cli = tc_use_cli cfg, te_history = [], te_healthy = True\<rparr>"

definition tiered_with_provider :: "provider_kind \<Rightarrow> tiered_engine" where
  "tiered_with_provider p = tiered_new (tiered_config_default\<lparr>tc_provider := p\<rparr>)"

definition tiered_set_caller :: "tiered_engine \<Rightarrow> tiered_engine" where
  "tiered_set_caller g = g\<lparr>te_llm := set_llm_caller (te_llm g)\<rparr>"

definition tiered_round :: "tiered_engine \<Rightarrow> u8" where
  "tiered_round g = le_round (te_llm g)"

definition tiered_set_round :: "u8 \<Rightarrow> tiered_engine \<Rightarrow> tiered_engine" where
  "tiered_set_round r g = g\<lparr>te_llm := (te_llm g)\<lparr>le_round := r\<rparr>\<rparr>"

definition tiered_reset_round :: "tiered_engine \<Rightarrow> tiered_engine" where
  "tiered_reset_round = tiered_set_round 0"

definition tiered_set_max :: "u8 \<Rightarrow> tiered_engine \<Rightarrow> tiered_engine" where
  "tiered_set_max m g = g\<lparr>te_llm := (te_llm g)\<lparr>le_max := m\<rparr>\<rparr>"

definition tiered_reset :: "tiered_engine \<Rightarrow> tiered_engine" where
  "tiered_reset g = g\<lparr>te_llm := llm_reset (te_llm g), te_history := [], te_healthy := True\<rparr>"

definition tiered_is_healthy :: "tiered_engine \<Rightarrow> bool" where
  "tiered_is_healthy g \<longleftrightarrow> te_healthy g \<and> le_healthy (te_llm g)"

subsection \<open>Deciding\<close>

record tier_env =
  tv_llm :: llm_env
  tv_tasks :: task_clock
  tv_fmt :: "f64 \<Rightarrow> string"
  tv_chrono :: chrono_ops
  tv_now :: instant

text \<open>The engine of a tier; without a command line the language model answers the critical tier too.\<close>

definition engine_decide ::
    "tier_env \<Rightarrow> action_registry \<Rightarrow> decision_tier \<Rightarrow> decision_context \<Rightarrow> tiered_engine \<Rightarrow> nat \<Rightarrow>
     (decision_error + decision_output) \<times> tiered_engine \<times> nat" where
  "engine_decide T reg t c g k =
     (let J = lv_codec (tv_llm T);
          ask = (case llm_decide (tv_llm T) reg c (te_llm g) k of (r, e, k') \<Rightarrow> (r, g\<lparr>te_llm := e\<rparr>, k'))
      in case t of
           TierSimple \<Rightarrow> (Inr (rule_decide J (tv_tasks T) (te_rules g) c), g, k)
         | TierMedium \<Rightarrow> ask
         | TierComplex \<Rightarrow> ask
         | TierCritical \<Rightarrow> if te_cli g then (cli_decide J reg c, g, k) else ask)"

fun tier_engine_type :: "provider_kind \<Rightarrow> decision_tier \<Rightarrow> engine_type" where
  "tier_engine_type p TierSimple = EngineRuleBased"
| "tier_engine_type p TierMedium = EngineLLM p"
| "tier_engine_type p TierComplex = EngineLLM p"
| "tier_engine_type p TierCritical = EngineCLI p"

definition record_tiered ::
    "tier_env \<Rightarrow> nat \<Rightarrow> situation_type \<Rightarrow> decision_tier \<Rightarrow> engine_type \<Rightarrow> decision_output \<Rightarrow> tiered_engine \<Rightarrow> tiered_engine" where
  "record_tiered T k s t ty out g =
     g\<lparr>te_history := te_history g @
       [\<lparr>td_id = ''dec-'' @ lv_uuid (tv_llm T) k, td_situation = s, td_tier = t, td_engine = ty,
         td_action = (case first_action_type out of Some a \<Rightarrow> action_name a | None \<Rightarrow> []),
         td_confidence = do_confidence out, td_timestamp = lv_now (tv_llm T) k\<rparr>]\<rparr>"

definition fallback_context :: "tier_env \<Rightarrow> situation_type \<Rightarrow> decision_context" where
  "fallback_context T s =
     context_new (build_situation (tv_fmt T) (tv_chrono T) (tv_now T)
       (builtin_situation_registry (tv_fmt T) (tv_chrono T) (tv_now T)) s) ''tiered-fallback''"

definition both_failed :: "decision_error \<Rightarrow> decision_error \<Rightarrow> decision_error" where
  "both_failed e f = EngineError (''Primary engine failed: '' @ decision_error_display e @
     ''. Fallback engine also failed: '' @ decision_error_display f)"

definition tiered_decide ::
    "tier_env \<Rightarrow> action_registry \<Rightarrow> decision_context \<Rightarrow> tiered_engine \<Rightarrow> nat \<Rightarrow>
     (decision_error + decision_output) \<times> tiered_engine \<times> nat" where
  "tiered_decide T reg c g k =
     (let t = tier_of (dc_situation c); s = sit_type (dc_situation c);
          p = tc_provider (te_config g); f = tc_fallback (te_config g)
      in case engine_decide T reg t c g k of
           (Inr out, g1, k1) \<Rightarrow> (Inr out, record_tiered T k1 s t (tier_engine_type p t) out g1, Suc k1)
         | (Inl e, g1, k1) \<Rightarrow>
             if f = t then (Inl e, g1, k1)
             else
               (case engine_decide T reg f (fallback_context T s) g1 k1 of
                  (Inr out, g2, k2) \<Rightarrow> (Inr out, record_tiered T k2 s f (tier_engine_type p f) out g2, Suc k2)
                | (Inl e', g2, k2) \<Rightarrow> (Inl (both_failed e e'), g2, k2)))"

subsection \<open>Statistics\<close>

record tier_statistics =
  ts_total :: u64
  ts_simple :: u64
  ts_medium :: u64
  ts_complex :: u64
  ts_critical :: u64

definition count_tier :: "tiered_record \<Rightarrow> tier_statistics \<Rightarrow> tier_statistics" where
  "count_tier r st =
     (case td_tier r of
        TierSimple \<Rightarrow> st\<lparr>ts_simple := ts_simple st + 1\<rparr>
      | TierMedium \<Rightarrow> st\<lparr>ts_medium := ts_medium st + 1\<rparr>
      | TierComplex \<Rightarrow> st\<lparr>ts_complex := ts_complex st + 1\<rparr>
      | TierCritical \<Rightarrow> st\<lparr>ts_critical := ts_critical st + 1\<rparr>)"

definition tier_stats :: "tiered_engine \<Rightarrow> tier_statistics" where
  "tier_stats g =
     (fold count_tier (te_history g) \<lparr>ts_total = 0, ts_simple = 0, ts_medium = 0, ts_complex = 0, ts_critical = 0\<rparr>)
       \<lparr>ts_total := of_nat (length (te_history g))\<rparr>"

lemma fold_count_tier:
  "ts_simple (fold count_tier h st) + ts_medium (fold count_tier h st) + ts_complex (fold count_tier h st) +
     ts_critical (fold count_tier h st) =
   ts_simple st + ts_medium st + ts_complex st + ts_critical st + of_nat (length h)"
  by (induction h arbitrary: st) (auto simp: count_tier_def algebra_simps split: decision_tier.split)

text \<open>The four counters add up to the total.\<close>

lemma tier_stats_total:
  "ts_total (tier_stats g) = ts_simple (tier_stats g) + ts_medium (tier_stats g) + ts_complex (tier_stats g) +
     ts_critical (tier_stats g)"
  by (simp add: tier_stats_def fold_count_tier)

subsection \<open>Which engine decides what\<close>

lemma tier_of_builtin:
  "tier_of (situation_of fmt C now s) =
     (if situation_requires_human s then TierCritical
      else case s of
        ErrorSituation e \<Rightarrow> if is_rate_limit_error e then TierSimple else TierComplex
      | PartialCompletion _ _ \<Rightarrow> TierComplex
      | WaitingForChoice _ _ _ \<Rightarrow> TierSimple
      | AgentIdle _ _ _ \<Rightarrow> TierSimple
      | _ \<Rightarrow> TierMedium)"
  by (cases s) (simp_all add: tier_of_def situation_new_def Let_def)

lemma parse_one: "parse_unsigned 64 ''1'' = Some 1" "to_lowercase (trim ''1'') = ''1''"
  "\<not> starts_with ''1'' ''c:''"
proof -
  have "parse_unsigned 64 (nat_to_string (Suc 0)) = Some (Suc 0)" by (rule parse_unsigned_nat) simp
  moreover have "nat_to_string (Suc 0) = ''1''" by code_simp
  ultimately show "parse_unsigned 64 ''1'' = Some 1" by (simp only: One_nat_def)
  show "to_lowercase (trim ''1'') = ''1''" "\<not> starts_with ''1'' ''c:''" by code_simp+
qed

text \<open>The input of the command line is always the same, so it takes the first available action.\<close>

lemma cli_takes_first:
  assumes "sit_available_actions (dc_situation c) = t # ts" "registry_get reg t = Some a"
  shows "cli_decide J reg c =
    Inr ((output_new [a] ''CLI input: 1'')\<lparr>do_confidence := f64_one\<rparr>)"
  by (simp add: cli_decide_def parse_cli_input_def cli_input_def parse_one assms Let_def)

text \<open>C1: In the critical tier of a new engine no human is asked: the command line always answers
  \<open>1\<close>. A critical choice is answered with the default selection \<open>A\<close>, whatever the options are, and a
  doubtful completion is confirmed, both with confidence one and no human requested.\<close>

theorem critical_tier_approves:
  "fst (tiered_decide T (builtin_registry J) (c\<lparr>dc_situation := situation_of fmt C now (WaitingForChoice os p True)\<rparr>)
     (tiered_with_provider pr) k) =
   Inr \<lparr>do_actions = [boxed J (SelectOption ''A'' ''Default selection'')], do_reasoning = ''CLI input: 1'',
     do_confidence = f64_one, do_human_requested = False, do_reflection_round = None\<rparr> \<and>
   fst (tiered_decide T (builtin_registry J)
     (c\<lparr>dc_situation := situation_of fmt C now (ClaimsCompletion s 2 2 0)\<rparr>) (tiered_with_provider pr) k) =
   Inr \<lparr>do_actions = [boxed J (ConfirmCompletion False None)], do_reasoning = ''CLI input: 1'',
     do_confidence = f64_one, do_human_requested = False, do_reflection_round = None\<rparr>"
proof -
  have get: "registry_get (builtin_registry J) (ActionType ''select_option'') =
      Some (boxed J (SelectOption ''A'' ''Default selection''))"
    "registry_get (builtin_registry J) (ActionType ''confirm_completion'') = Some (boxed J (ConfirmCompletion False None))"
    by (simp_all add: builtin_get default_actions_def)
  have less: "f64_less 0 f64_07"
    by (simp add: f64_less_def f64_is_nan_def f64_units_def f64_magnitude_def f64_exp_def f64_frac_def f64_negative_def
      f64_07_def)
  have cli: "te_cli (tiered_with_provider pr)"
    by (simp add: tiered_with_provider_def tiered_new_def tiered_config_default_def)
  show ?thesis
    by (simp add: tiered_decide_def Let_def tier_of_builtin engine_decide_def cli less output_new_def
      cli_takes_first [OF _ get(1)] cli_takes_first [OF _ get(2)])
qed

subsection \<open>A model that does not answer\<close>

definition failing_env :: "tier_env \<Rightarrow> tier_env" where
  "failing_env T = T\<lparr>tv_llm := (tv_llm T)\<lparr>lv_healthy := \<lambda>_. False\<rparr>\<rparr>"

lemma failing_call:
  assumes "le_caller e" "le_config e = llm_config_default"
  shows "call_with_retry (tv_llm (failing_env T)) p e k =
    (Inl (EngineError (''LLM caller '' @ lv_caller_id (tv_llm T) @ '' is not healthy'')), e\<lparr>le_healthy := False\<rparr>, k + 3)"
proof -
  have n: "unat (lc_max_retries llm_config_default + 1) = 3" by (simp add: llm_config_default_def)
  have call: "call_llm (tv_llm (failing_env T)) p e j =
      Inl (EngineError (''LLM caller '' @ lv_caller_id (tv_llm T) @ '' is not healthy''))" for j
    using assms(1) by (simp add: call_llm_def failing_env_def)
  have "find (\<lambda>j. False) xs = None" for xs :: "nat list" by (induction xs) auto
  then show ?thesis
    unfolding call_with_retry_def retry_calls_first first_answer_def assms(2) n call by simp
qed

lemma failing_decide:
  assumes "le_caller e" "le_config e = llm_config_default"
  shows "\<exists>e'. llm_decide (tv_llm (failing_env T)) reg c e k =
      (Inl (EngineError (''LLM caller '' @ lv_caller_id (tv_llm T) @ '' is not healthy'')), e', k + 3) \<and>
    le_caller e' \<and> le_config e' = llm_config_default"
proof -
  let ?e = "first_round c (merge_history (tv_llm (failing_env T)) c (sync_round c e))"
  have merge: "le_caller (merge_history V c e) = le_caller e" "le_config (merge_history V c e) = le_config e" for V e
  proof -
    have "le_caller (fold (\<lambda>r e. if list_ex (\<lambda>h. lr_id h = dr_id r) (le_history e) then e
                 else e\<lparr>le_history := le_history e @ [llm_record_of V r]\<rparr>) rs e) = le_caller e \<and>
        le_config (fold (\<lambda>r e. if list_ex (\<lambda>h. lr_id h = dr_id r) (le_history e) then e
                 else e\<lparr>le_history := le_history e @ [llm_record_of V r]\<rparr>) rs e) = le_config e" for rs
      by (induction rs arbitrary: e) auto
    then show "le_caller (merge_history V c e) = le_caller e" "le_config (merge_history V c e) = le_config e"
      by (simp_all add: merge_history_def)
  qed
  have e: "le_caller ?e" "le_config ?e = llm_config_default"
    using assms by (simp_all add: first_round_def sync_round_def merge split: option.split)
  from failing_call [OF e] e show ?thesis by (simp add: llm_decide_def Let_def)
qed

definition sample_tier_env :: tier_env where
  "sample_tier_env = \<lparr>tv_llm = reflecting_env, tv_tasks = (id, 0), tv_fmt = \<lambda>_. [], tv_chrono = sample_chrono, tv_now = 0\<rparr>"

text \<open>C1: When the language model does not answer, an engine with the default configuration decides
  neither how to recover from a rate limit nor what to do about an error: the first has no
  fallback, the second falls back on the language model again. The rule engine, which answers the
  error of a rate limit, has a rule for the recovery that is never reached.\<close>

theorem recovery_needs_the_model:
  assumes "is_rate_limit_error limited" "\<not> situation_requires_human (ErrorSituation limited)"
    and "\<not> is_rate_limit_error other" "\<not> situation_requires_human (ErrorSituation other)"
  shows "let G = tiered_set_caller (tiered_with_provider pr); ctx = (\<lambda>s. context_new (situation_of fmt C now s) a);
       run = (\<lambda>s. fst (tiered_decide (failing_env T) reg (ctx s) G k))
   in \<not> is_ok (run (RateLimitRecovery started n err)) \<and> \<not> is_ok (run (ErrorSituation other)) \<and>
      is_ok (run (ErrorSituation limited)) \<and>
      map_option ru_name (find_matching_rule rule_engine_new (ctx (RateLimitRecovery started n err))) =
        Some ''retry-rate-limit''"
proof -
  let ?G = "tiered_set_caller (tiered_with_provider pr)"
  have g: "le_caller (te_llm ?G)" "le_config (te_llm ?G) = llm_config_default" "tc_fallback (te_config ?G) = TierMedium"
    by (simp_all add: tiered_set_caller_def tiered_with_provider_def tiered_new_def tiered_config_default_def
      set_llm_caller_def llm_engine_new_def)
  have ask: "\<exists>e g1 k1. engine_decide (failing_env T) reg t c g j = (Inl e, g1, k1) \<and> le_caller (te_llm g1) \<and>
      le_config (te_llm g1) = llm_config_default"
    if "le_caller (te_llm g)" "le_config (te_llm g) = llm_config_default" "t = TierMedium \<or> t = TierComplex" for c g j t
    using failing_decide [OF that(1,2), of T reg c j] that(3) by (auto simp: engine_decide_def Let_def)
  have medium: "\<not> is_ok (fst (tiered_decide (failing_env T) reg c ?G k))"
    if "tier_of (dc_situation c) = TierMedium" for c
    using ask [OF g(1,2), of TierMedium c k] that g(3) by (auto simp: tiered_decide_def Let_def)
  have complex: "\<not> is_ok (fst (tiered_decide (failing_env T) reg c ?G k))"
    if t: "tier_of (dc_situation c) = TierComplex" for c
  proof -
    obtain e g1 k1 where 1: "engine_decide (failing_env T) reg TierComplex c ?G k = (Inl e, g1, k1)"
        "le_caller (te_llm g1)" "le_config (te_llm g1) = llm_config_default"
      using ask [OF g(1,2), of TierComplex c k] by auto
    then show ?thesis
      using ask [OF 1(2,3), of TierMedium "fallback_context (failing_env T) (sit_type (dc_situation c))" k1] t g(3)
      by (auto simp: tiered_decide_def Let_def)
  qed
  have simple: "is_ok (fst (tiered_decide (failing_env T) reg c ?G k))"
    if "tier_of (dc_situation c) = TierSimple" for c
    using that by (simp add: tiered_decide_def Let_def engine_decide_def)
  have ctx: "dc_situation (context_new s a) = s" for s by (simp add: context_new_def)
  have rule: "map_option ru_name (find_matching_rule rule_engine_new
      (context_new (situation_of fmt C now (RateLimitRecovery started n err)) a)) = Some ''retry-rate-limit''"
    by (simp add: find_matching_rule_def rule_matches_def rule_engine_new_def builtin_rules_def situation_rule_def
      completion_rule_def ctx_situation_name_def context_new_def situation_new_def)
  show ?thesis
    unfolding Let_def using assms rule
    by (intro conjI medium complex simple) (simp_all only: ctx tier_of_builtin, simp_all)
qed

theorem recovery_needs_the_model_witness:
  "let G = tiered_set_caller (tiered_with_provider Claude); T = sample_tier_env;
       ctx = (\<lambda>s. context_new (situation_of (\<lambda>_. []) sample_chrono 0 s) ''agent_001'');
       run = (\<lambda>s. fst (tiered_decide (failing_env T) action_registry_new (ctx s) G 0))
   in \<not> is_ok (run (RateLimitRecovery 0 1 None)) \<and> \<not> is_ok (run (ErrorSituation (error_info_new ''io'' ''disk''))) \<and>
      is_ok (run (ErrorSituation (error_info_new ''429'' ''slow down''))) \<and>
      map_option ru_name (find_matching_rule rule_engine_new (ctx (RateLimitRecovery 0 1 None))) =
        Some ''retry-rate-limit''"
proof -
  have "is_rate_limit_error (error_info_new ''429'' ''slow down'')" "\<not> is_rate_limit_error (error_info_new ''io'' ''disk'')"
    by code_simp+
  moreover have "\<not> situation_requires_human (ErrorSituation (error_info_new t m))" for t m
    by (simp add: error_info_new_def word_le_nat_alt)
  ultimately show ?thesis
    using recovery_needs_the_model [of "error_info_new ''429'' ''slow down''" "error_info_new ''io'' ''disk''"
      Claude "\<lambda>_. []" sample_chrono "0" "''agent_001''" sample_tier_env action_registry_new "0" "0" "1" None]
    by simp
qed

end
