(* ===== verification/Decision_Agent.thy ===== *)
theory Decision_Agent
  imports Tiered_Engine "HOL-Library.Sublist"
begin

text \<open>
  \<open>core/src/decision_agent_slot.rs\<close> and \<open>core/src/decision_mail.rs\<close>: the agent that decides for a work
  agent, and the pair of channels between them. The owner polls; a request is decided in a thread of its
  own that shares two cells with the slot and answers over the channel. Threads are explicit: a
  list of jobs, each at one of two points of the thread's code, and every interleaving of the threads
  with the owner is a list of events. The receive operations that block are left out.
\<close>

subsection \<open>Mail\<close>

record mail_request =
  rq_agent :: string
  rq_situation :: situation_type
  rq_context :: decision_context

record mail_response =
  rs_agent :: string
  rs_situation :: "situation_type option"
  rs_tier :: "string option"
  rs_output :: "decision_output option"
  rs_error :: "string option"
  rs_prompt :: "string option"
  rs_thinking :: "string option"

definition response_success :: "string \<Rightarrow> decision_output \<Rightarrow> mail_response" where
  "response_success a out = \<lparr>rs_agent = a, rs_situation = None, rs_tier = None, rs_output = Some out, rs_error = None,
     rs_prompt = None, rs_thinking = None\<rparr>"

definition response_details ::
    "string \<Rightarrow> decision_output \<Rightarrow> situation_type \<Rightarrow> string \<Rightarrow> string option \<Rightarrow> string option \<Rightarrow> mail_response" where
  "response_details a out s t p r = \<lparr>rs_agent = a, rs_situation = Some s, rs_tier = Some t, rs_output = Some out,
     rs_error = None, rs_prompt = p, rs_thinking = r\<rparr>"

definition response_error :: "string \<Rightarrow> string \<Rightarrow> mail_response" where
  "response_error a m = \<lparr>rs_agent = a, rs_situation = None, rs_tier = None, rs_output = None, rs_error = Some m,
     rs_prompt = None, rs_thinking = None\<rparr>"

definition response_is_success :: "mail_response \<Rightarrow> bool" where
  "response_is_success r \<longleftrightarrow> rs_output r \<noteq> None"

definition response_is_error :: "mail_response \<Rightarrow> bool" where
  "response_is_error r \<longleftrightarrow> rs_error r \<noteq> None"

text \<open>Both channels are unbounded queues; each half of the mail may be dropped.\<close>

record decision_mail =
  dm_requests :: "mail_request list"
  dm_responses :: "mail_response list"
  dm_receiver :: bool
  dm_sender :: bool

definition mail_new :: decision_mail where
  "mail_new = \<lparr>dm_requests = [], dm_responses = [], dm_receiver = True, dm_sender = True\<rparr>"

definition send_request :: "mail_request \<Rightarrow> decision_mail \<Rightarrow> string + decision_mail" where
  "send_request r m =
     (if dm_receiver m then Inr (m\<lparr>dm_requests := dm_requests m @ [r]\<rparr>)
      else Inl ''Failed to send decision request: sending on a closed channel'')"

definition try_receive_request :: "decision_mail \<Rightarrow> mail_request option \<times> decision_mail" where
  "try_receive_request m =
     (case dm_requests m of [] \<Rightarrow> (None, m) | r # rs \<Rightarrow> (Some r, m\<lparr>dm_requests := rs\<rparr>))"

definition send_response :: "mail_response \<Rightarrow> decision_mail \<Rightarrow> string + decision_mail" where
  "send_response r m =
     (if dm_sender m then Inr (m\<lparr>dm_responses := dm_responses m @ [r]\<rparr>)
      else Inl ''Failed to send decision response: sending on a closed channel'')"

definition try_receive_response :: "decision_mail \<Rightarrow> mail_response option \<times> decision_mail" where
  "try_receive_response m =
     (case dm_responses m of [] \<Rightarrow> (None, m) | r # rs \<Rightarrow> (Some r, m\<lparr>dm_responses := rs\<rparr>))"

subsection \<open>Slot\<close>

datatype agent_activity =
    DaIdle | DaThinking instant | DaResponding | DaError string | DaStopped string

fun da_is_thinking :: "agent_activity \<Rightarrow> bool" where
  "da_is_thinking (DaThinking _) = True"
| "da_is_thinking _ = False"

fun da_is_active :: "agent_activity \<Rightarrow> bool" where
  "da_is_active (DaThinking _) = True"
| "da_is_active DaResponding = True"
| "da_is_active _ = False"

fun da_is_stopped :: "agent_activity \<Rightarrow> bool" where
  "da_is_stopped (DaStopped _) = True"
| "da_is_stopped _ = False"

fun da_has_error :: "agent_activity \<Rightarrow> bool" where
  "da_has_error (DaError _) = True"
| "da_has_error _ = False"

fun da_label :: "agent_activity \<Rightarrow> string" where
  "da_label DaIdle = ''idle''"
| "da_label (DaThinking _) = ''thinking''"
| "da_label DaResponding = ''responding''"
| "da_label (DaError m) = ''error:'' @ m"
| "da_label (DaStopped r) = ''stopped:'' @ r"

record decision_agent =
  da_work :: string
  da_id :: string
  da_provider :: provider_kind
  da_status :: agent_activity
  da_engine :: tiered_engine
  da_last_activity :: instant
  da_count :: u64
  da_errors :: u64
  da_profile :: "string option"
  da_round :: u8
  da_pending :: "u8 option"
  da_fallback :: "mail_response option"
  da_started :: "instant option"

fun decision_provider :: "provider_kind \<Rightarrow> provider_kind" where
  "decision_provider Claude = Claude"
| "decision_provider Codex = Codex"
| "decision_provider _ = UnknownProvider"

definition agent_engine_config :: "provider_kind \<Rightarrow> tiered_config" where
  "agent_engine_config p = \<lparr>tc_provider = decision_provider p, tc_llm = llm_config_default, tc_use_cli = False,
     tc_fallback = TierMedium\<rparr>"

definition decision_agent_new :: "instant \<Rightarrow> string \<Rightarrow> provider_kind \<Rightarrow> decision_agent" where
  "decision_agent_new now w p =
     \<lparr>da_work = w, da_id = ''decision-'' @ w, da_provider = p, da_status = DaIdle,
      da_engine = tiered_new (agent_engine_config p), da_last_activity = now, da_count = 0, da_errors = 0,
      da_profile = None, da_round = 0, da_pending = None, da_fallback = None, da_started = None\<rparr>"

definition da_set_profile :: "string \<Rightarrow> decision_agent \<Rightarrow> decision_agent" where
  "da_set_profile p a = a\<lparr>da_profile := Some p\<rparr>"

definition da_set_caller :: "decision_agent \<Rightarrow> decision_agent" where
  "da_set_caller a = a\<lparr>da_engine := tiered_set_caller (da_engine a)\<rparr>"

definition da_stop :: "string \<Rightarrow> decision_agent \<Rightarrow> decision_agent" where
  "da_stop r a = a\<lparr>da_status := DaStopped r\<rparr>"

definition da_reset_error :: "decision_agent \<Rightarrow> decision_agent" where
  "da_reset_error a = (if da_has_error (da_status a) then a\<lparr>da_status := DaIdle\<rparr> else a)"

definition recent_decision :: "chrono_ops \<Rightarrow> instant \<Rightarrow> decision_agent \<Rightarrow> bool" where
  "recent_decision C now a = (case da_started a of Some t \<Rightarrow> ch_millis C now t < 1500 | None \<Rightarrow> False)"

text \<open>The tier that is displayed with an answer.\<close>

definition displayed_tier :: "string \<Rightarrow> bool \<Rightarrow> string" where
  "displayed_tier n human =
     (if human then ''Critical''
      else if n = ''error'' then ''Complex''
      else if n = ''partial_completion'' then ''Complex''
      else if n = ''claims_completion'' then ''Medium''
      else if n = ''waiting_for_choice'' \<or> n = ''agent_idle'' \<or> n = ''rate_limit_recovery'' then ''Simple''
      else if n = ''task_starting'' then ''High''
      else ''Medium'')"

fun tier_name :: "decision_tier \<Rightarrow> string" where
  "tier_name TierSimple = ''Simple''"
| "tier_name TierMedium = ''Medium''"
| "tier_name TierComplex = ''Complex''"
| "tier_name TierCritical = ''Critical''"


text \<open>The displayed tier is the tier of the situation, except for a recovery from a rate limit, a starting
  task and the error of a rate limit.\<close>

lemma displayed_tier_of:
  "displayed_tier (st_name (situation_type_of s)) (situation_requires_human s) =
     (if situation_requires_human s then ''Critical''
      else case s of
        RateLimitRecovery _ _ _ \<Rightarrow> ''Simple''
      | TaskStarting _ _ _ _ \<Rightarrow> ''High''
      | ErrorSituation e \<Rightarrow> ''Complex''
      | _ \<Rightarrow> tier_name (tier_of (situation_of fmt C now s)))"
  by (cases s) (simp_all add: displayed_tier_def situation_new_def tier_of_builtin)

subsection \<open>Deciding in the owner's thread\<close>

definition agent_registry :: "tier_env \<Rightarrow> action_registry" where
  "agent_registry T = builtin_registry (lv_codec (tv_llm T))"

definition answer_of ::
    "mail_request \<Rightarrow> string \<Rightarrow> decision_error + decision_output \<Rightarrow> mail_response" where
  "answer_of q prompt r =
     (case r of
        Inr out \<Rightarrow> response_details (rq_agent q) out (rq_situation q)
          (displayed_tier (st_name (rq_situation q)) (sit_requires_human (dc_situation (rq_context q))))
          (Some prompt) (Some (do_reasoning out))
      | Inl e \<Rightarrow> response_error (rq_agent q) (decision_error_display e))"

definition process_request ::
    "tier_env \<Rightarrow> instant \<Rightarrow> mail_request \<Rightarrow> decision_agent \<Rightarrow> decision_mail \<Rightarrow> nat \<Rightarrow>
     mail_response \<times> decision_agent \<times> decision_mail \<times> nat" where
  "process_request T now q a m k =
     (let reg = agent_registry T;
          prompt = llm_prompt (tv_llm T) reg (rq_context q) (te_llm (da_engine a))
      in case tiered_decide T reg (with_reflection_round (da_round a) (rq_context q)) (da_engine a) k of
           (r, g, k') \<Rightarrow>
             let a1 = a\<lparr>da_last_activity := now, da_engine := g\<rparr>; resp = answer_of q prompt r
             in case r of
                  Inr out \<Rightarrow>
                    let a2 = a1\<lparr>da_count := da_count a1 + 1, da_round := tiered_round g, da_status := DaResponding\<rparr>
                    in (case send_response resp m of
                          Inr m' \<Rightarrow> (resp, a2\<lparr>da_status := DaIdle\<rparr>, m', k')
                        | Inl e \<Rightarrow>
                            (response_error (rq_agent q) e,
                             a2\<lparr>da_errors := da_errors a2 + 1, da_status := DaError e\<rparr>, m, k'))
                | Inl err \<Rightarrow>
                    let a2 = a1\<lparr>da_errors := da_errors a1 + 1, da_status := DaError (decision_error_display err)\<rparr>
                    in (case send_response resp m of
                          Inr m' \<Rightarrow> (resp, a2, m', k')
                        | Inl e \<Rightarrow> (response_error (rq_agent q) e, a2, m, k')))"

subsection \<open>Deciding in a thread\<close>

record decision_job =
  jb_request :: mail_request
  jb_round :: u8
  jb_config :: tiered_config
  jb_caller :: bool

text \<open>A thread is about to decide or about to send what it decided.\<close>

datatype decision_thread = Deciding decision_job | Answering mail_response

definition spawn_processing :: "instant \<Rightarrow> mail_request \<Rightarrow> decision_agent \<Rightarrow> decision_thread \<times> decision_agent" where
  "spawn_processing now q a =
     (Deciding \<lparr>jb_request = q, jb_round = da_round a, jb_config = te_config (da_engine a),
        jb_caller = le_caller (te_llm (da_engine a))\<rparr>,
      a\<lparr>da_status := DaThinking now, da_last_activity := now, da_started := Some now\<rparr>)"

definition thread_engine :: "decision_job \<Rightarrow> tiered_engine" where
  "thread_engine j =
     (let g = tiered_new (jb_config j) in if jb_caller j then tiered_set_caller g else g)"

text \<open>The thread's engine is new, so its round is what the decision leaves in it.\<close>

definition thread_decide :: "tier_env \<Rightarrow> decision_job \<Rightarrow> nat \<Rightarrow> mail_response \<times> u8 \<times> nat" where
  "thread_decide T j k =
     (let q = jb_request j; reg = agent_registry T; g = thread_engine j;
          prompt = llm_prompt (tv_llm T) reg (rq_context q) (te_llm g)
      in case tiered_decide T reg (with_reflection_round (jb_round j) (rq_context q)) g k of
           (r, g', k') \<Rightarrow> (answer_of q prompt r, tiered_round g', k'))"

definition poll_and_process ::
    "instant \<Rightarrow> decision_agent \<Rightarrow> decision_mail \<Rightarrow> decision_thread list \<times> decision_agent \<times> decision_mail" where
  "poll_and_process now a m =
     (if da_status a \<noteq> DaIdle then ([], a, m)
      else case try_receive_request m of
             (None, m') \<Rightarrow> ([], a, m')
           | (Some q, m') \<Rightarrow>
               (case spawn_processing now q (a\<lparr>da_count := da_count a + 1\<rparr>) of (t, a') \<Rightarrow> ([t], a', m')))"

definition clear_thinking_status :: "bool \<Rightarrow> decision_agent \<Rightarrow> decision_agent" where
  "clear_thinking_status had_error a =
     (if da_is_thinking (da_status a) then
        let a1 = (case da_pending a of
                    Some r \<Rightarrow> a\<lparr>da_round := r, da_engine := tiered_set_round r (da_engine a)\<rparr> | None \<Rightarrow> a);
            a2 = a1\<lparr>da_pending := None\<rparr>;
            a3 = (if had_error then a2\<lparr>da_errors := da_errors a2 + 1\<rparr> else a2)
        in a3\<lparr>da_status := DaIdle\<rparr>
      else a)"

definition mark_response_collected :: "decision_agent \<Rightarrow> decision_agent" where
  "mark_response_collected a =
     (if da_is_thinking (da_status a)
      then (case da_pending a of Some r \<Rightarrow> a\<lparr>da_round := r\<rparr> | None \<Rightarrow> a)\<lparr>da_pending := None, da_status := DaIdle\<rparr>
      else a)"

definition take_fallback :: "decision_agent \<Rightarrow> mail_response option \<times> decision_agent" where
  "take_fallback a = (da_fallback a, a\<lparr>da_fallback := None\<rparr>)"

definition clear_recent_decision :: "decision_agent \<Rightarrow> decision_agent" where
  "clear_recent_decision a = a\<lparr>da_started := None\<rparr>"

text \<open>\<open>AgentPool::poll_decision_agents\<close> for one agent whose mail sender is kept: start a thread, collect
  the answers, or the fallback when there is none, and leave the thinking status if there was an answer.\<close>

definition collect_responses ::
    "decision_agent \<Rightarrow> decision_mail \<Rightarrow> mail_response list \<times> decision_agent \<times> decision_mail" where
  "collect_responses a m =
     (let got = dm_responses m; m' = m\<lparr>dm_responses := []\<rparr>
      in if got \<noteq> [] then (got, clear_thinking_status (list_ex response_is_error got) a, m')
         else case take_fallback a of
                (Some r, a') \<Rightarrow> ([r], clear_thinking_status (response_is_error r) a', m')
              | (None, a') \<Rightarrow> ([], a', m'))"

definition expire_display :: "chrono_ops \<Rightarrow> instant \<Rightarrow> decision_agent \<Rightarrow> decision_agent" where
  "expire_display C now a =
     (case da_started a of
        Some t \<Rightarrow> if 1500 \<le> ch_millis C now t then clear_recent_decision a else a
      | None \<Rightarrow> a)"

subsection \<open>Interleaving\<close>

record agent_system =
  sy_agent :: decision_agent
  sy_mail :: decision_mail
  sy_threads :: "decision_thread list"
  sy_calls :: nat

definition poll_agent :: "tier_env \<Rightarrow> instant \<Rightarrow> agent_system \<Rightarrow> mail_response list \<times> agent_system" where
  "poll_agent T now s =
     (case poll_and_process now (sy_agent s) (sy_mail s) of
        (ts, a, m) \<Rightarrow>
          (case collect_responses a m of
             (out, a', m') \<Rightarrow>
               (out, s\<lparr>sy_agent := expire_display (tv_chrono T) now a', sy_mail := m',
                 sy_threads := sy_threads s @ ts\<rparr>)))"

definition remove_thread :: "nat \<Rightarrow> agent_system \<Rightarrow> agent_system" where
  "remove_thread i s = s\<lparr>sy_threads := take i (sy_threads s) @ drop (Suc i) (sy_threads s)\<rparr>"

text \<open>One step of the thread \<open>i\<close>.\<close>

definition thread_step :: "tier_env \<Rightarrow> nat \<Rightarrow> agent_system \<Rightarrow> agent_system" where
  "thread_step T i s =
     (if length (sy_threads s) \<le> i then s
      else case sy_threads s ! i of
             Deciding j \<Rightarrow>
               (case thread_decide T j (sy_calls s) of
                  (resp, r, k) \<Rightarrow>
                    s\<lparr>sy_agent := (sy_agent s)\<lparr>da_pending := Some r\<rparr>, sy_calls := k,
                      sy_threads := (sy_threads s)[i := Answering resp]\<rparr>)
           | Answering resp \<Rightarrow>
               remove_thread i
                 (case send_response resp (sy_mail s) of
                    Inr m \<Rightarrow> s\<lparr>sy_mail := m\<rparr>
                  | Inl _ \<Rightarrow> s\<lparr>sy_agent := (sy_agent s)\<lparr>da_fallback := Some resp\<rparr>\<rparr>))"

datatype agent_event = EvSend mail_request | EvPoll instant | EvThread nat | EvCrash nat

fun agent_step :: "tier_env \<Rightarrow> agent_event \<Rightarrow> agent_system \<Rightarrow> mail_response list \<times> agent_system" where
  "agent_step T (EvSend q) s = ([], case send_request q (sy_mail s) of Inr m \<Rightarrow> s\<lparr>sy_mail := m\<rparr> | Inl _ \<Rightarrow> s)"
| "agent_step T (EvPoll now) s = poll_agent T now s"
| "agent_step T (EvThread i) s = ([], thread_step T i s)"
| "agent_step T (EvCrash i) s = ([], remove_thread i s)"

fun agent_run :: "tier_env \<Rightarrow> agent_event list \<Rightarrow> agent_system \<Rightarrow> mail_response list \<times> agent_system" where
  "agent_run T [] s = ([], s)"
| "agent_run T (e # es) s =
     (case agent_step T e s of (out, s') \<Rightarrow> (case agent_run T es s' of (out', s'') \<Rightarrow> (out @ out', s'')))"

fun sent_request :: "agent_event \<Rightarrow> mail_request list" where
  "sent_request (EvSend q) = [q]"
| "sent_request _ = []"

definition system_new :: "decision_agent \<Rightarrow> agent_system" where
  "system_new a = \<lparr>sy_agent = a, sy_mail = mail_new, sy_threads = [], sy_calls = 0\<rparr>"

text \<open>The agent the pool starts for a work agent.\<close>

definition spawned_system :: "instant \<Rightarrow> string \<Rightarrow> provider_kind \<Rightarrow> agent_system" where
  "spawned_system now w p = system_new (da_set_caller (decision_agent_new now w p))"

subsection \<open>The sequential agent\<close>

text \<open>The specification: requests are decided one after the other, each with the round the one before
  left.\<close>

fun decide_requests ::
    "tier_env \<Rightarrow> tiered_config \<Rightarrow> bool \<Rightarrow> u8 \<Rightarrow> nat \<Rightarrow> mail_request list \<Rightarrow> mail_response list \<times> u8 \<times> nat" where
  "decide_requests T cfg caller r k [] = ([], r, k)"
| "decide_requests T cfg caller r k (q # qs) =
     (case thread_decide T \<lparr>jb_request = q, jb_round = r, jb_config = cfg, jb_caller = caller\<rparr> k of
        (resp, r', k') \<Rightarrow>
          (case decide_requests T cfg caller r' k' qs of (out, x) \<Rightarrow> (resp # out, x)))"

lemma decide_requests_append:
  "decide_requests T cfg cl r k (xs @ ys) =
     (case decide_requests T cfg cl r k xs of
        (o1, r1, k1) \<Rightarrow> (case decide_requests T cfg cl r1 k1 ys of (o2, x) \<Rightarrow> (o1 @ o2, x)))"
  by (induction xs arbitrary: r k) (auto split: prod.splits)

lemma decide_requests_length: "length (fst (decide_requests T cfg cl r k xs)) = length xs"
  by (induction xs arbitrary: r k) (auto split: prod.splits, metis fst_conv)


text \<open>What a reachable state is between the request being decided and the requests waiting: \<open>c\<close> and \<open>l\<close> are
  the configuration and caller of the engine, \<open>r\<close> and \<open>k\<close> the round and the calls after the answers
  delivered so far, and \<open>rest\<close> the requests not answered yet.\<close>

inductive agent_phase ::
    "tier_env \<Rightarrow> tiered_config \<Rightarrow> bool \<Rightarrow> u8 \<Rightarrow> nat \<Rightarrow> mail_request list \<Rightarrow> agent_system \<Rightarrow> bool"
    for T c l r k where
  idle: "da_status (sy_agent s) = DaIdle \<Longrightarrow> da_pending (sy_agent s) = None \<Longrightarrow> da_round (sy_agent s) = r \<Longrightarrow>
    sy_threads s = [] \<Longrightarrow> dm_responses (sy_mail s) = [] \<Longrightarrow> dm_requests (sy_mail s) = rest \<Longrightarrow> sy_calls s = k \<Longrightarrow>
    agent_phase T c l r k rest s"
| deciding: "da_is_thinking (da_status (sy_agent s)) \<Longrightarrow> da_pending (sy_agent s) = None \<Longrightarrow>
    sy_threads s = [Deciding \<lparr>jb_request = q, jb_round = r, jb_config = c, jb_caller = l\<rparr>] \<Longrightarrow>
    dm_responses (sy_mail s) = [] \<Longrightarrow> dm_requests (sy_mail s) = rest \<Longrightarrow> sy_calls s = k \<Longrightarrow>
    agent_phase T c l r k (q # rest) s"
| decided: "da_is_thinking (da_status (sy_agent s)) \<Longrightarrow> da_pending (sy_agent s) = Some r' \<Longrightarrow>
    thread_decide T \<lparr>jb_request = q, jb_round = r, jb_config = c, jb_caller = l\<rparr> k = (resp, r', k') \<Longrightarrow>
    sy_threads s @ map Answering (dm_responses (sy_mail s)) = [Answering resp] \<Longrightarrow>
    dm_requests (sy_mail s) = rest \<Longrightarrow> sy_calls s = k' \<Longrightarrow> agent_phase T c l r k (q # rest) s"
| crashed: "da_is_thinking (da_status (sy_agent s)) \<Longrightarrow> sy_threads s = [] \<Longrightarrow> dm_responses (sy_mail s) = [] \<Longrightarrow>
    agent_phase T c l r k rest s"

inductive_cases agent_phase_elim: "agent_phase T c l r k rest s"

definition agent_frame :: "tiered_config \<Rightarrow> bool \<Rightarrow> agent_system \<Rightarrow> bool" where
  "agent_frame c l s \<longleftrightarrow> te_config (da_engine (sy_agent s)) = c \<and> le_caller (te_llm (da_engine (sy_agent s))) = l \<and>
     da_fallback (sy_agent s) = None \<and> dm_receiver (sy_mail s) \<and> dm_sender (sy_mail s)"

lemma da_thinking_not_idle: "da_is_thinking x \<Longrightarrow> x \<noteq> DaIdle"
  by (cases x) auto

lemma expire_display_frame [simp]:
  "da_status (expire_display C now a) = da_status a" "da_pending (expire_display C now a) = da_pending a"
  "da_round (expire_display C now a) = da_round a" "da_engine (expire_display C now a) = da_engine a"
  "da_fallback (expire_display C now a) = da_fallback a"
  by (simp_all add: expire_display_def clear_recent_decision_def split: option.split)

lemma clear_thinking_frame [simp]:
  "da_fallback (clear_thinking_status h a) = da_fallback a"
  "te_config (da_engine (clear_thinking_status h a)) = te_config (da_engine a)"
  "le_caller (te_llm (da_engine (clear_thinking_status h a))) = le_caller (te_llm (da_engine a))"
  by (simp_all add: clear_thinking_status_def tiered_set_round_def Let_def split: option.split)

lemma clear_thinking_pending:
  "da_is_thinking (da_status a) \<Longrightarrow> da_pending a = Some r \<Longrightarrow>
     da_status (clear_thinking_status h a) = DaIdle \<and> da_pending (clear_thinking_status h a) = None \<and>
     da_round (clear_thinking_status h a) = r"
  by (simp add: clear_thinking_status_def Let_def)

lemma agent_frame_step:
  "agent_frame c l s \<Longrightarrow> agent_frame c l (snd (agent_step T e s))"
  by (cases e)
    (auto simp: agent_frame_def poll_agent_def poll_and_process_def try_receive_request_def spawn_processing_def
      collect_responses_def take_fallback_def thread_step_def remove_thread_def send_response_def send_request_def Let_def
      split: list.split prod.split decision_thread.split option.split)

lemma poll_thinking:
  assumes "da_is_thinking (da_status (sy_agent s))" "da_fallback (sy_agent s) = None"
  shows "poll_agent T now s =
    (let got = dm_responses (sy_mail s);
         a = (if got = [] then sy_agent s else clear_thinking_status (list_ex response_is_error got) (sy_agent s))
     in (got, s\<lparr>sy_agent := expire_display (tv_chrono T) now a, sy_mail := (sy_mail s)\<lparr>dm_responses := []\<rparr>\<rparr>))"
proof -
  have "da_status (sy_agent s) \<noteq> DaIdle" using assms(1) by (rule da_thinking_not_idle)
  then have "poll_and_process now (sy_agent s) (sy_mail s) = ([], sy_agent s, sy_mail s)"
    by (simp add: poll_and_process_def)
  moreover have "take_fallback (sy_agent s) = (None, sy_agent s)" using assms(2) by (simp add: take_fallback_def)
  ultimately show ?thesis by (simp add: poll_agent_def collect_responses_def Let_def)
qed

lemma no_answer:
  "out = [] \<Longrightarrow> agent_phase T c l r k xs s' \<Longrightarrow>
     \<exists>qs rest r' k'. xs = qs @ rest \<and> decide_requests T c l r k qs = (out, r', k') \<and> agent_phase T c l r' k' rest s'"
  by (rule exI [of _ "[]"], rule exI [of _ xs]) simp

lemma one_answer:
  "out = [resp] \<Longrightarrow>
     thread_decide T \<lparr>jb_request = q, jb_round = r, jb_config = c, jb_caller = l\<rparr> k = (resp, r', k') \<Longrightarrow>
     agent_phase T c l r' k' xs s' \<Longrightarrow>
     \<exists>qs rest r' k'. q # xs = qs @ rest \<and> decide_requests T c l r k qs = (out, r', k') \<and> agent_phase T c l r' k' rest s'"
  by (rule exI [of _ "[q]"], rule exI [of _ xs]) simp

text \<open>A step delivers a prefix of the answers that are due and stays in a phase.\<close>

lemma agent_phase_step:
  assumes "agent_phase T c l r k rest s" "agent_frame c l s" "agent_step T e s = (out, s')"
  shows "\<exists>qs rest' r' k'. rest @ sent_request e = qs @ rest' \<and> decide_requests T c l r k qs = (out, r', k') \<and>
    agent_phase T c l r' k' rest' s'"
proof (cases e)
  case (EvSend q)
  have s': "s' = s\<lparr>sy_mail := (sy_mail s)\<lparr>dm_requests := dm_requests (sy_mail s) @ [q]\<rparr>\<rparr>" "out = []"
    using assms EvSend by (auto simp: send_request_def agent_frame_def)
  have "agent_phase T c l r k (rest @ [q]) s'"
    using assms(1) unfolding s' by cases (auto intro: agent_phase.intros)
  then show ?thesis using s' EvSend by (intro no_answer) simp_all
next
  case (EvPoll now)
  note frame = assms(2) [unfolded agent_frame_def]
  from assms(3) EvPoll have poll: "poll_agent T now s = (out, s')" by simp
  show ?thesis using assms(1)
  proof cases
    case idle
    show ?thesis
    proof (cases rest)
      case Nil
      then have "out = [] \<and> agent_phase T c l r k [] s'"
        using poll idle frame
        by (auto simp: poll_agent_def poll_and_process_def try_receive_request_def collect_responses_def take_fallback_def
          intro!: agent_phase.idle)
      then show ?thesis using Nil EvPoll by (intro no_answer) simp_all
    next
      case (Cons q rest')
      then have "out = [] \<and> agent_phase T c l r k (q # rest') s'"
        using poll idle frame
        by (auto simp: poll_agent_def poll_and_process_def try_receive_request_def collect_responses_def take_fallback_def
          spawn_processing_def intro!: agent_phase.deciding)
      then show ?thesis using Cons EvPoll by (intro no_answer) simp_all
    qed
  next
    case (deciding q rest')
    then have "out = [] \<and> agent_phase T c l r k (q # rest') s'"
      using poll frame
      by (auto simp: poll_thinking intro!: agent_phase.deciding)
    then show ?thesis using deciding EvPoll by (intro no_answer) simp_all
  next
    case (decided r' q resp k' rest')
    show ?thesis
    proof (cases "dm_responses (sy_mail s)")
      case Nil
      then have "out = [] \<and> agent_phase T c l r k (q # rest') s'"
        using poll frame decided
        by (auto simp: poll_thinking intro!: agent_phase.decided)
      then show ?thesis using decided EvPoll by (intro no_answer) simp_all
    next
      case (Cons x xs)
      then have resp: "dm_responses (sy_mail s) = [resp]" "sy_threads s = []"
        using decided by (auto simp: append_eq_Cons_conv)
      have s': "out = [resp]" "s' = s\<lparr>sy_agent := expire_display (tv_chrono T) now
          (clear_thinking_status (response_is_error resp) (sy_agent s)),
          sy_mail := (sy_mail s)\<lparr>dm_responses := []\<rparr>\<rparr>"
        using poll frame decided(2) resp by (auto simp: poll_thinking)
      have "agent_phase T c l r' k' rest' s'"
        unfolding s'(2) using decided(6,7) resp clear_thinking_pending [OF decided(2,3)] by (intro agent_phase.idle) simp_all
      with s'(1) have "out = [resp] \<and> agent_phase T c l r' k' rest' s'" by simp
      then show ?thesis using one_answer [OF _ decided(4), of out rest' s'] decided(1) EvPoll by simp
    qed
  next
    case crashed
    then have "out = [] \<and> agent_phase T c l r k rest s'"
      using poll frame
      by (auto simp: poll_thinking intro!: agent_phase.crashed)
    then show ?thesis using EvPoll by (intro no_answer) simp_all
  qed
next
  case (EvThread i)
  then have out: "out = []" "s' = thread_step T i s" using assms(3) by auto
  have "agent_phase T c l r k rest s'" using assms(1)
  proof cases
    case idle
    then show ?thesis unfolding out thread_step_def by (auto intro!: agent_phase.idle)
  next
    case (deciding q rest')
    obtain resp r' k' where d: "thread_decide T \<lparr>jb_request = q, jb_round = r, jb_config = c, jb_caller = l\<rparr> k = (resp, r', k')"
      by (metis prod_cases3)
    show ?thesis
    proof (cases i)
      case 0
      then show ?thesis
        using deciding d unfolding out by (auto simp: thread_step_def intro!: agent_phase.decided)
    next
      case (Suc n)
      then show ?thesis using deciding unfolding out by (auto simp: thread_step_def intro!: agent_phase.deciding)
    qed
  next
    case (decided r' q resp k' rest')
    show ?thesis
    proof (cases "i = 0 \<and> sy_threads s \<noteq> []")
      case True
      then have "sy_threads s = [Answering resp]" "dm_responses (sy_mail s) = []"
        using decided(5) by (auto simp: append_eq_Cons_conv)
      then show ?thesis
        using decided True assms(2) unfolding out
        by (auto simp: thread_step_def remove_thread_def send_response_def agent_frame_def intro!: agent_phase.decided)
    next
      case False
      have "length (sy_threads s) \<le> 1" using arg_cong [OF decided(5), of length] by simp
      with False have "length (sy_threads s) \<le> i" by (cases "sy_threads s") auto
      then show ?thesis using assms(1) unfolding out by (simp add: thread_step_def)
    qed
  next
    case crashed
    then show ?thesis unfolding out thread_step_def by (auto intro!: agent_phase.crashed)
  qed
  then show ?thesis using out EvThread by (intro no_answer) simp_all
next
  case (EvCrash i)
  then have out: "out = []" "s' = remove_thread i s" using assms(3) by auto
  have "agent_phase T c l r k rest s'" using assms(1)
  proof cases
    case idle
    then show ?thesis unfolding out remove_thread_def by (auto intro!: agent_phase.idle)
  next
    case (deciding q rest')
    show ?thesis
    proof (cases i)
      case 0
      then show ?thesis using deciding unfolding out remove_thread_def by (auto intro!: agent_phase.crashed)
    next
      case (Suc n)
      then show ?thesis using deciding unfolding out remove_thread_def by (auto intro!: agent_phase.deciding)
    qed
  next
    case (decided r' q resp k' rest')
    show ?thesis
    proof (cases "i = 0 \<and> sy_threads s \<noteq> []")
      case True
      then have "sy_threads s = [Answering resp]" "dm_responses (sy_mail s) = []"
        using decided(5) by (auto simp: append_eq_Cons_conv)
      then show ?thesis using decided True unfolding out remove_thread_def by (auto intro!: agent_phase.crashed)
    next
      case False
      have "length (sy_threads s) \<le> 1" using arg_cong [OF decided(5), of length] by simp
      with False have "length (sy_threads s) \<le> i" by (cases "sy_threads s") auto
      then show ?thesis using assms(1) unfolding out by (simp add: remove_thread_def)
    qed
  next
    case crashed
    then show ?thesis unfolding out remove_thread_def by (auto intro!: agent_phase.crashed)
  qed
  then show ?thesis using out EvCrash by (intro no_answer) simp_all
qed

lemma agent_phase_run:
  assumes "agent_phase T c l r k rest s" "agent_frame c l s" "agent_run T es s = (out, s')"
  shows "\<exists>qs rest' r' k'. rest @ concat (map sent_request es) = qs @ rest' \<and>
    decide_requests T c l r k qs = (out, r', k') \<and> agent_phase T c l r' k' rest' s'"
  using assms
proof (induction es arbitrary: rest r k s out)
  case Nil
  then show ?case by (intro no_answer) simp_all
next
  case (Cons e es)
  obtain o1 s1 where 1: "agent_step T e s = (o1, s1)" by fastforce
  obtain o2 where 2: "agent_run T es s1 = (o2, s')" and out: "out = o1 @ o2"
    using Cons.prems(3) 1 by (auto split: prod.splits)
  obtain qs1 rest1 r1 k1 where a: "rest @ sent_request e = qs1 @ rest1" "decide_requests T c l r k qs1 = (o1, r1, k1)"
      "agent_phase T c l r1 k1 rest1 s1"
    using agent_phase_step [OF Cons.prems(1,2) 1] by blast
  have "agent_frame c l s1" using agent_frame_step [OF Cons.prems(2), of T e] 1 by simp
  from Cons.IH [OF a(3) this 2]
  obtain qs2 rest2 r2 k2 where b: "rest1 @ concat (map sent_request es) = qs2 @ rest2"
      "decide_requests T c l r1 k1 qs2 = (o2, r2, k2)" "agent_phase T c l r2 k2 rest2 s'"
    by blast
  have "rest @ concat (map sent_request (e # es)) = (qs1 @ qs2) @ rest2"
    using a(1) b(1) by (metis append.assoc concat.simps(2) list.simps(9))
  moreover have "decide_requests T c l r k (qs1 @ qs2) = (out, r2, k2)"
    using a(2) b(2) by (simp add: decide_requests_append out)
  ultimately show ?case using b(3) by blast
qed

lemma spawned_phase:
  "agent_phase T (agent_engine_config p) True 0 0 [] (spawned_system now w p)"
  "agent_frame (agent_engine_config p) True (spawned_system now w p)"
  by (auto simp: spawned_system_def system_new_def da_set_caller_def decision_agent_new_def mail_new_def agent_frame_def
    tiered_set_caller_def set_llm_caller_def tiered_new_def intro!: agent_phase.idle)

text \<open>C1: However the owner's polls, the requests and the threads of a decision agent interleave, and
  even when threads crash, the answers delivered are the answers of the sequential agent to the first
  of the requests sent, in their order: no request is answered twice, out of order or skipped.\<close>

theorem answers_in_order:
  "prefix (fst (agent_run T es (spawned_system now w p)))
     (fst (decide_requests T (agent_engine_config p) True 0 0 (concat (map sent_request es))))"
proof -
  obtain out s' where run: "agent_run T es (spawned_system now w p) = (out, s')" by fastforce
  obtain qs rest' r' k' where "[] @ concat (map sent_request es) = qs @ rest'"
      "decide_requests T (agent_engine_config p) True 0 0 qs = (out, r', k')"
    using agent_phase_run [OF spawned_phase run] by blast
  then show ?thesis
    using run by (auto simp: decide_requests_append prefix_def split: prod.splits)
qed


lemma crashed_run:
  assumes "agent_frame c l s" "da_is_thinking (da_status (sy_agent s))" "sy_threads s = []" "dm_responses (sy_mail s) = []"
  shows "fst (agent_run T es s) = []"
  using assms
proof (induction es arbitrary: s)
  case (Cons e es)
  have "fst (agent_step T e s) = [] \<and> da_is_thinking (da_status (sy_agent (snd (agent_step T e s)))) \<and>
      sy_threads (snd (agent_step T e s)) = [] \<and> dm_responses (sy_mail (snd (agent_step T e s))) = []"
    using Cons.prems
    by (cases e) (auto simp: poll_thinking agent_frame_def thread_step_def remove_thread_def send_request_def)
  then show ?case
    using Cons.IH [of "snd (agent_step T e s)"] agent_frame_step [OF Cons.prems(1), of T e]
    by (auto split: prod.splits)
qed simp

text \<open>C1: The threads of a decision agent are not supervised: once one crashes, its slot thinks for ever,
  and whatever happens later no request is answered, neither the one lost nor any sent afterwards.\<close>

theorem crash_silences_agent:
  "fst (agent_run T ([EvSend q, EvPoll t, EvCrash 0] @ es) (spawned_system now w p)) = []"
proof -
  obtain s3 where s3: "agent_run T ([EvSend q, EvPoll t, EvCrash 0] @ es) (spawned_system now w p) = agent_run T es s3"
      "da_is_thinking (da_status (sy_agent s3))" "sy_threads s3 = []" "dm_responses (sy_mail s3) = []"
      "agent_frame (agent_engine_config p) True s3"
    by (simp add: spawned_system_def system_new_def mail_new_def send_request_def poll_agent_def poll_and_process_def
      try_receive_request_def spawn_processing_def collect_responses_def take_fallback_def remove_thread_def
      da_set_caller_def decision_agent_new_def agent_frame_def tiered_set_caller_def set_llm_caller_def tiered_new_def
      split: prod.split)
  show ?thesis unfolding s3(1) by (rule crashed_run [OF s3(5,2,3,4)])
qed

subsection \<open>Every request is answered\<close>

definition agent_waiting :: "tiered_config \<Rightarrow> u8 \<Rightarrow> nat \<Rightarrow> mail_request list \<Rightarrow> agent_system \<Rightarrow> bool" where
  "agent_waiting c r k qs s \<longleftrightarrow> agent_frame c True s \<and> da_status (sy_agent s) = DaIdle \<and> da_pending (sy_agent s) = None \<and>
     da_round (sy_agent s) = r \<and> sy_threads s = [] \<and> dm_responses (sy_mail s) = [] \<and> dm_requests (sy_mail s) = qs \<and>
     sy_calls s = k"

definition decision_cycle :: "instant \<Rightarrow> agent_event list" where
  "decision_cycle t = [EvPoll t, EvThread 0, EvThread 0, EvPoll t]"

lemma agent_cycle:
  assumes w: "agent_waiting c r k (q # qs) s"
    and d: "thread_decide T \<lparr>jb_request = q, jb_round = r, jb_config = c, jb_caller = True\<rparr> k = (resp, r', k')"
  shows "\<exists>s'. agent_run T (decision_cycle t) s = ([resp], s') \<and> agent_waiting c r' k' qs s'"
proof -
  note w = w [unfolded agent_waiting_def agent_frame_def]
  obtain s1 where 1: "poll_agent T t s = ([], s1)" "da_is_thinking (da_status (sy_agent s1))"
      "da_pending (sy_agent s1) = None" "sy_threads s1 = [Deciding \<lparr>jb_request = q, jb_round = r, jb_config = c, jb_caller = True\<rparr>]"
      "dm_responses (sy_mail s1) = []" "dm_requests (sy_mail s1) = qs" "sy_calls s1 = k" "agent_frame c True s1"
    using w by (simp add: poll_agent_def poll_and_process_def try_receive_request_def spawn_processing_def
      collect_responses_def take_fallback_def agent_frame_def Let_def)
  obtain s2 where 2: "thread_step T 0 s1 = s2" "da_is_thinking (da_status (sy_agent s2))"
      "da_pending (sy_agent s2) = Some r'" "sy_threads s2 = [Answering resp]"
      "dm_responses (sy_mail s2) = []" "dm_requests (sy_mail s2) = qs" "sy_calls s2 = k'" "agent_frame c True s2"
    using 1 d by (simp add: thread_step_def agent_frame_def)
  obtain s3 where 3: "thread_step T 0 s2 = s3" "da_is_thinking (da_status (sy_agent s3))"
      "da_pending (sy_agent s3) = Some r'" "sy_threads s3 = []"
      "dm_responses (sy_mail s3) = [resp]" "dm_requests (sy_mail s3) = qs" "sy_calls s3 = k'" "agent_frame c True s3"
    using 2 by (simp add: thread_step_def agent_frame_def remove_thread_def send_response_def)
  have fb: "da_fallback (sy_agent s3) = None" using 3 by (simp add: agent_frame_def)
  obtain s4 where 4: "poll_agent T t s3 = ([resp], s4)" "agent_waiting c r' k' qs s4"
    using 3 clear_thinking_pending [OF 3(2,3)]
    by (simp add: poll_thinking [OF 3(2) fb] agent_waiting_def agent_frame_def)
  show ?thesis using 1(1) 2(1) 3(1) 4 by (simp add: decision_cycle_def)
qed

lemma agent_run_append:
  "agent_run T (xs @ ys) s =
     (case agent_run T xs s of (o1, s1) \<Rightarrow> (case agent_run T ys s1 of (o2, s2) \<Rightarrow> (o1 @ o2, s2)))"
  by (induction xs arbitrary: s) (auto split: prod.splits)

lemma agent_cycles:
  "agent_waiting c r k qs s \<Longrightarrow>
     fst (agent_run T (concat (replicate (length qs) (decision_cycle t))) s) = fst (decide_requests T c True r k qs)"
proof (induction qs arbitrary: r k s)
  case (Cons q qs)
  obtain resp r' k' where d:
      "thread_decide T \<lparr>jb_request = q, jb_round = r, jb_config = c, jb_caller = True\<rparr> k = (resp, r', k')"
    by (metis prod_cases3)
  obtain s' where s': "agent_run T (decision_cycle t) s = ([resp], s')" "agent_waiting c r' k' qs s'"
    using agent_cycle [OF Cons.prems d] by blast
  show ?case using Cons.IH [OF s'(2)] s'(1) d by (auto simp: agent_run_append split: prod.splits)
qed simp

lemma agent_sends:
  "agent_waiting c r k rest s \<Longrightarrow>
     \<exists>s'. agent_run T (map EvSend qs) s = ([], s') \<and> agent_waiting c r k (rest @ qs) s'"
proof (induction qs arbitrary: rest s)
  case (Cons q qs)
  have "agent_waiting c r k (rest @ [q]) (snd (agent_step T (EvSend q) s))"
    using Cons.prems by (simp add: agent_waiting_def agent_frame_def send_request_def)
  from Cons.IH [OF this] show ?case by (auto split: prod.splits)
qed simp

text \<open>C1: When no thread crashes every request is answered: for requests sent at once, as many cycles of
  a poll, the two steps of the thread and another poll deliver the answers of the sequential agent to all of
  them.\<close>

theorem requests_are_answered:
  "fst (agent_run T (map EvSend qs @ concat (replicate (length qs) (decision_cycle t))) (spawned_system now w p)) =
   fst (decide_requests T (agent_engine_config p) True 0 0 qs)"
proof -
  have "agent_waiting (agent_engine_config p) 0 0 [] (spawned_system now w p)"
    using spawned_phase(2) [of p now w]
    by (simp add: agent_waiting_def spawned_system_def system_new_def mail_new_def da_set_caller_def decision_agent_new_def)
  from agent_sends [OF this, of T qs] agent_cycles show ?thesis
    by (force simp: agent_run_append split: prod.splits)
qed

subsection \<open>The round across decisions\<close>

lemma thread_decide_simple:
  assumes "tier_of (dc_situation (rq_context q)) = TierSimple"
  shows "\<exists>out. thread_decide T \<lparr>jb_request = q, jb_round = r, jb_config = c, jb_caller = l\<rparr> k =
    (answer_of q (llm_prompt (tv_llm T) (agent_registry T) (rq_context q)
       (te_llm (thread_engine \<lparr>jb_request = q, jb_round = r, jb_config = c, jb_caller = l\<rparr>))) (Inr out), 0, Suc k) \<and>
    out = rule_decide (lv_codec (tv_llm T)) (tv_tasks T) rule_engine_new (with_reflection_round r (rq_context q))"
  using assms
  by (simp add: thread_decide_def tiered_decide_def engine_decide_def Let_def thread_engine_def tiered_round_def
    record_tiered_def tiered_new_def tiered_set_caller_def set_llm_caller_def llm_engine_new_def)


definition sample_mail_request :: "builtin_situation \<Rightarrow> mail_request" where
  "sample_mail_request b = \<lparr>rq_agent = ''agent_001'', rq_situation = situation_type_of b,
     rq_context = context_new (situation_of (\<lambda>_. []) sample_chrono 0 b) ''agent_001''\<rparr>"

definition claim_request :: mail_request where
  "claim_request = sample_mail_request (ClaimsCompletion ''done'' 0 2 f64_08)"

definition choice_request :: mail_request where
  "choice_request = sample_mail_request (WaitingForChoice [] None False)"

lemma reflecting_decide:
  assumes e: "le_caller e" "le_config e = llm_config_default" "le_max e = 2"
    and c: "ctx_situation_name c = ''claims_completion''" "dc_history c = []" "metadata_round c = Some r"
  shows "\<exists>out e' k'. llm_decide reflecting_env (builtin_registry (lv_codec reflecting_env)) c e k = (Inr out, e', k') \<and>
    reflects out = (r = 0 \<or> r = 1) \<and> (r \<le> 2 \<longrightarrow> le_round e' = 2)"
proof -
  let ?V = reflecting_env and ?reg = "builtin_registry (lv_codec reflecting_env)"
  let ?r = "if r = 0 then 1 else r"
  let ?e = "e\<lparr>le_round := ?r\<rparr>"
  have first: "first_round c (merge_history ?V c (sync_round c e)) = ?e"
    by (simp add: merge_history_def first_round_def sync_round_def c)
  have parse: "llm_parse (lv_codec ?V) ?reg s ''ACTION: reflect'' = Inr [boxed (lv_codec ?V) (Reflect [])]" for s
    by (simp add: llm_parse_def reflecting_parse)
  have le: "(2 \<le> ?r) = (r \<noteq> 0 \<and> r \<noteq> 1)"
  proof -
    have "r < 2 \<longleftrightarrow> r = 0 \<or> r = 1"
      by (simp add: word_less_nat_alt word_unat_eq_iff) arith
    then show ?thesis by (auto simp: not_less [symmetric])
  qed
  obtain as' e3 where man: "manage_round ?V c [boxed (lv_codec ?V) (Reflect [])] ?e = (as', e3)" by fastforce
  have m: "as' = (if r = 0 \<or> r = 1 then [boxed (lv_codec ?V) (Reflect [])] else [boxed (lv_codec ?V) (human_review 2)])"
      "le_round e3 = (if r = 0 \<or> r = 1 then 2 else r)"
    using man le unfolding manage_round_def Let_def increment_round_def
    by (auto simp: c e split: if_splits)
  have call: "call_with_retry ?V p ?e k = (Inr ''ACTION: reflect'', ?e, Suc k)" for p
    by (rule reflecting_call) (simp_all add: e)
  have two: "r \<le> 2 \<Longrightarrow> r \<noteq> 0 \<Longrightarrow> r \<noteq> 1 \<Longrightarrow> r = 2"
    by (simp add: word_le_nat_alt word_unat_eq_iff)
  have "as' \<noteq> []" using m(1) by simp
  then show ?thesis
    unfolding llm_decide_def first Let_def call prod.case sum.case parse man
    using m two by (auto simp: reflects_def first_action_type_def output_new_def human_review_def)
qed


definition answer_reflects :: "mail_response \<Rightarrow> bool option" where
  "answer_reflects a = map_option reflects (rs_output a)"

lemma answer_reflects_Inr [simp]: "answer_reflects (answer_of q p (Inr out)) = Some (reflects out)"
  by (simp add: answer_reflects_def answer_of_def response_details_def)

lemma claim_decide:
  "\<exists>resp r' k'. thread_decide sample_tier_env \<lparr>jb_request = claim_request, jb_round = r,
       jb_config = agent_engine_config Claude, jb_caller = True\<rparr> k = (resp, r', k') \<and>
     answer_reflects resp = Some (r = 0 \<or> r = 1) \<and> (r \<le> 2 \<longrightarrow> r' = 2)"
proof -
  let ?j = "\<lparr>jb_request = claim_request, jb_round = r, jb_config = agent_engine_config Claude, jb_caller = True\<rparr>"
  let ?c = "with_reflection_round r (rq_context claim_request)" and ?e = "te_llm (thread_engine ?j)"
  have e: "le_caller ?e" "le_config ?e = llm_config_default" "le_max ?e = 2"
    by (simp_all add: thread_engine_def Let_def tiered_set_caller_def set_llm_caller_def tiered_new_def llm_engine_new_def
      agent_engine_config_def)
  have c: "ctx_situation_name ?c = ''claims_completion''" "dc_history ?c = []" "metadata_round ?c = Some r"
    "dc_situation ?c = situation_of (\<lambda>_. []) sample_chrono 0 (ClaimsCompletion ''done'' 0 2 f64_08)"
    by (simp_all add: claim_request_def sample_mail_request_def ctx_situation_name_def context_new_def situation_new_def)
  obtain out e' k' where llm: "llm_decide reflecting_env (builtin_registry (lv_codec reflecting_env)) ?c ?e k = (Inr out, e', k')"
      "reflects out = (r = 0 \<or> r = 1)" "r \<le> 2 \<longrightarrow> le_round e' = 2"
    using reflecting_decide [OF e c(1-3)] by blast
  have tier: "tier_of (dc_situation ?c) = TierMedium"
    unfolding c(4) tier_of_builtin by (simp add: word_le_nat_alt)
  have env: "tv_llm sample_tier_env = reflecting_env" "agent_registry sample_tier_env = builtin_registry (lv_codec reflecting_env)"
    by (simp_all add: sample_tier_env_def agent_registry_def)
  show ?thesis
    using llm tier
    by (simp add: thread_decide_def tiered_decide_def engine_decide_def Let_def env record_tiered_def tiered_round_def)
qed

lemma choice_decide:
  "\<exists>resp k'. thread_decide sample_tier_env \<lparr>jb_request = choice_request, jb_round = r,
       jb_config = agent_engine_config Claude, jb_caller = True\<rparr> k = (resp, 0, k') \<and>
     answer_reflects resp = Some False"
proof -
  have c: "dc_situation (rq_context choice_request) =
      situation_of (\<lambda>_. []) sample_chrono 0 (WaitingForChoice [] None False)"
    by (simp add: choice_request_def sample_mail_request_def context_new_def)
  have "tier_of (dc_situation (rq_context choice_request)) = TierSimple"
    unfolding c tier_of_builtin by simp
  from thread_decide_simple [OF this] obtain out where d: "out = rule_decide (lv_codec (tv_llm sample_tier_env))
        (tv_tasks sample_tier_env) rule_engine_new (with_reflection_round r (rq_context choice_request))"
      "\<exists>p. thread_decide sample_tier_env \<lparr>jb_request = choice_request, jb_round = r,
         jb_config = agent_engine_config Claude, jb_caller = True\<rparr> k = (answer_of choice_request p (Inr out), 0, Suc k)"
    by blast
  have "find_matching_rule rule_engine_new (with_reflection_round r (rq_context choice_request)) =
      Some (situation_rule ''approve-first'' ''waiting_for_choice'' ''select_first'' PriorityMedium)"
    by (simp add: find_matching_rule_def rule_matches_def rule_engine_new_def builtin_rules_def situation_rule_def
      completion_rule_def ctx_situation_name_def c situation_new_def)
  then have "\<not> reflects out"
    unfolding d(1) by (simp add: rule_decide_def situation_rule_def build_action_def spec_new_def reflects_def
      first_action_type_def output_new_def map_filter_simps Let_def)
  with d(2) show ?thesis by force
qed

lemma claim_choice_cycle:
  "map answer_reflects (fst (decide_requests sample_tier_env (agent_engine_config Claude) True 0 k
       (concat (replicate n [claim_request, choice_request])))) = concat (replicate n [Some True, Some False])"
proof (induction n arbitrary: k)
  case (Suc n)
  obtain a1 r1 k1 where 1: "thread_decide sample_tier_env \<lparr>jb_request = claim_request, jb_round = 0,
       jb_config = agent_engine_config Claude, jb_caller = True\<rparr> k = (a1, r1, k1)" "answer_reflects a1 = Some True"
    using claim_decide [of 0 k] by auto
  obtain a2 k2 where 2: "thread_decide sample_tier_env \<lparr>jb_request = choice_request, jb_round = r1,
       jb_config = agent_engine_config Claude, jb_caller = True\<rparr> k1 = (a2, 0, k2)" "answer_reflects a2 = Some False"
    using choice_decide [of r1 k1] by auto
  show ?case using Suc.IH [of k2] 1 2 by (auto split: prod.splits)
qed simp

text \<open>C1: The limit on reflections is not kept across decisions: a decision of the rule engine leaves the
  round of the thread's new engine, zero. A claimed completion repeated at once is escalated the second
  time; with a choice to make in between it is reflected upon every time, without end.\<close>

theorem reflection_limit_evaded:
  "let run = (\<lambda>qs. map answer_reflects (fst (decide_requests sample_tier_env (agent_engine_config Claude) True 0 0 qs)))
   in run [claim_request, claim_request] = [Some True, Some False] \<and>
      run (concat (replicate n [claim_request, choice_request])) = concat (replicate n [Some True, Some False])"
proof -
  obtain a1 k1 where 1: "thread_decide sample_tier_env \<lparr>jb_request = claim_request, jb_round = 0,
       jb_config = agent_engine_config Claude, jb_caller = True\<rparr> 0 = (a1, 2, k1)" "answer_reflects a1 = Some True"
    using claim_decide [of 0 0] by auto
  obtain a2 r2 k2 where 2: "thread_decide sample_tier_env \<lparr>jb_request = claim_request, jb_round = 2,
       jb_config = agent_engine_config Claude, jb_caller = True\<rparr> k1 = (a2, r2, k2)" "answer_reflects a2 = Some False"
    using claim_decide [of 2 k1] by auto
  show ?thesis using 1 2 claim_choice_cycle [of 0 n] by (simp add: Let_def)
qed

end
